(* ===== verification/Pool_Prelude.thy ===== *)
theory Pool_Prelude
  imports Main "HOL-Library.Word" "HOL-Library.List_Lexorder" "HOL-Library.AList"
begin

text \<open>
  What every component of the pool shares: Rust's fixed-width integers and their checked
  operations, \<open>Result\<close> with the combinators behind the \<open>?\<close> operator, byte arrays with their
  little- and big-endian readings, and the generic lemmas on words, lists and association lists
  that the component proofs use.

  Conventions of the whole development:
  \<^item> \<open>u8\<close>, \<open>u16\<close>, \<open>u32\<close>, \<open>u64\<close>, \<open>u128\<close> are words of that width; \<open>usize\<close> values that are lengths
    or configured capacities of collections are \<open>nat\<close>.
  \<^item> \<open>[u8; N]\<close> and \<open>&[u8]\<close> are lists of bytes; \<open>&str\<close> and \<open>String\<close> are lists of characters, each
    character one byte of the UTF-8 text, so that \<open>length\<close> is \<open>str::len\<close>.
  \<^item> \<open>Vec\<close> and \<open>VecDeque\<close> are lists, front first; \<open>HashMap\<close> is an association list with distinct
    keys, so that its number of entries is a computable \<open>length\<close>.
  \<^item> a method on \<open>&mut self\<close> returns its value paired with the new state, also when it fails.
\<close>

section \<open>Collections of facts\<close>

named_theorems result_simps
named_theorems checked_defs

section \<open>Types\<close>

type_synonym u8 = "8 word"
type_synonym u16 = "16 word"
type_synonym u32 = "32 word"
type_synonym u64 = "64 word"
type_synonym u128 = "128 word"
type_synonym byte = "8 word"
type_synonym bytes = "byte list"
type_synonym uuid = "128 word"

text \<open>A \<open>uuid::Uuid\<close> is a 128-bit value. The nil UUID is zero; the order of UUIDs compares their
  sixteen bytes from the most significant one, which is the numeric order.\<close>

definition uuid_is_nil :: "uuid \<Rightarrow> bool" where
  "uuid_is_nil u = (u = 0)"

section \<open>Results\<close>

datatype ('e, 'a) result = Err 'e | Ok 'a

fun and_then :: "('e, 'a) result \<Rightarrow> ('a \<Rightarrow> ('e, 'b) result) \<Rightarrow> ('e, 'b) result" where
  "and_then (Err e) f = Err e"
| "and_then (Ok x) f = f x"

fun map_err :: "('e \<Rightarrow> 'f) \<Rightarrow> ('e, 'a) result \<Rightarrow> ('f, 'a) result" where
  "map_err f (Err e) = Err (f e)"
| "map_err f (Ok x) = Ok x"

fun ok_or :: "'a option \<Rightarrow> 'e \<Rightarrow> ('e, 'a) result" where
  "ok_or None e = Err e"
| "ok_or (Some x) e = Ok x"

fun is_ok :: "('e, 'a) result \<Rightarrow> bool" where
  "is_ok (Err e) = False"
| "is_ok (Ok x) = True"

text \<open>\<open>ensure b e\<close> is \<open>if !b { return Err(e) }\<close>, and \<open>try_all\<close> runs statements that end in \<open>?\<close> one
  after the other: the first failing one decides the result.\<close>

definition ensure :: "bool \<Rightarrow> 'e \<Rightarrow> ('e, unit) result" where
  "ensure b e = (if b then Ok () else Err e)"

fun try_all :: "('e, unit) result list \<Rightarrow> ('e, unit) result" where
  "try_all [] = Ok ()"
| "try_all (c # cs) = and_then c (\<lambda>_. try_all cs)"

lemma and_then_cong [fundef_cong]:
  "r = r' \<Longrightarrow> (\<And>x. r' = Ok x \<Longrightarrow> f x = g x) \<Longrightarrow> and_then r f = and_then r' g"
  by (cases r) auto

lemma and_then_eq_Ok [simp]: "and_then r f = Ok y \<longleftrightarrow> (\<exists>x. r = Ok x \<and> f x = Ok y)"
  by (cases r) auto

lemma and_then_assoc: "and_then (and_then r f) g = and_then r (\<lambda>x. and_then (f x) g)"
  by (cases r) simp_all

lemma and_then_eq_Err:
  "and_then r f = Err e \<longleftrightarrow> r = Err e \<or> (\<exists>x. r = Ok x \<and> f x = Err e)"
  by (cases r) auto

lemma map_err_eq_Ok [simp]: "map_err f r = Ok y \<longleftrightarrow> r = Ok y"
  by (cases r) auto

lemma map_err_eq_Err: "map_err f r = Err e \<longleftrightarrow> (\<exists>d. r = Err d \<and> e = f d)"
  by (cases r) auto

lemma ok_or_eq_Ok [simp]: "ok_or x e = Ok y \<longleftrightarrow> x = Some y"
  by (cases x) auto

lemma ok_or_eq_Err [simp]: "ok_or x e = Err d \<longleftrightarrow> x = None \<and> d = e"
  by (cases x) auto

lemma ensure_eq_Ok [simp]: "ensure b e = Ok u \<longleftrightarrow> b"
  by (auto simp: ensure_def)

lemma ensure_eq_Err [simp]: "ensure b e = Err d \<longleftrightarrow> \<not> b \<and> d = e"
  by (auto simp: ensure_def)

lemma is_ok_iff: "is_ok r \<longleftrightarrow> (\<exists>x. r = Ok x)"
  by (cases r) auto

lemma unit_result_is_ok: "(r = Ok (u :: unit)) \<longleftrightarrow> is_ok r"
  by (cases r) auto

lemma is_ok_and_then [simp]: "is_ok (and_then r f) \<longleftrightarrow> (\<exists>x. r = Ok x \<and> is_ok (f x))"
  by (cases r) auto

lemma is_ok_ensure [simp]: "is_ok (ensure b e) = b"
  by (simp add: ensure_def)

lemma is_ok_ok_or [simp]: "is_ok (ok_or x e) \<longleftrightarrow> x \<noteq> None"
  by (cases x) auto

lemma is_ok_map_err [simp]: "is_ok (map_err f r) = is_ok r"
  by (cases r) auto

text \<open>A chain of checks succeeds exactly when every check does.\<close>

lemma is_ok_try_all [simp]: "is_ok (try_all cs) \<longleftrightarrow> list_all is_ok cs"
  by (induction cs) (auto simp: is_ok_iff)

text \<open>It fails with the error of its first failing check.\<close>

lemma try_all_eq_Err:
  "try_all cs = Err e \<longleftrightarrow>
     (\<exists>i < length cs. cs ! i = Err e \<and> (\<forall>j < i. is_ok (cs ! j)))"
proof (induction cs)
  case Nil
  then show ?case by simp
next
  case (Cons c cs)
  show ?case
  proof (cases c)
    case (Err d)
    have "(\<exists>i < length (c # cs). (c # cs) ! i = Err e \<and> (\<forall>j < i. is_ok ((c # cs) ! j))) \<longleftrightarrow> d = e"
      using Err by (auto simp: Ex_less_Suc2 All_less_Suc2)
    then show ?thesis using Err by simp
  next
    case (Ok u)
    have "try_all (c # cs) = Err e \<longleftrightarrow>
        (\<exists>i < length cs. cs ! i = Err e \<and> (\<forall>j < i. is_ok (cs ! j)))"
      using Ok Cons.IH by simp
    also have "\<dots> \<longleftrightarrow> (\<exists>i < length (c # cs). (c # cs) ! i = Err e \<and> (\<forall>j < i. is_ok ((c # cs) ! j)))"
      using Ok by (auto simp: Ex_less_Suc2 All_less_Suc2)
    finally show ?thesis .
  qed
qed

lemma try_all_eq_Ok [simp]: "try_all cs = Ok u \<longleftrightarrow> list_all is_ok cs"
  by (simp add: unit_result_is_ok)

declare try_all.simps(2) [simp del]

section \<open>Checked integer operations\<close>

definition checked_add :: "'a::len word \<Rightarrow> 'a word \<Rightarrow> 'a word option" where
  [checked_defs]: "checked_add a b = (if unat a + unat b < 2 ^ LENGTH('a) then Some (a + b) else None)"

definition checked_sub :: "'a::len word \<Rightarrow> 'a word \<Rightarrow> 'a word option" where
  [checked_defs]: "checked_sub a b = (if b \<le> a then Some (a - b) else None)"

definition checked_mul :: "'a::len word \<Rightarrow> 'a word \<Rightarrow> 'a word option" where
  [checked_defs]: "checked_mul a b = (if unat a * unat b < 2 ^ LENGTH('a) then Some (a * b) else None)"

definition saturating_sub :: "'a::len word \<Rightarrow> 'a word \<Rightarrow> 'a word" where
  "saturating_sub a b = (if b \<le> a then a - b else 0)"

lemma unat_bound: "unat (a :: 'a::len word) < 2 ^ LENGTH('a)"
  by (rule unsigned_less)

lemma unat_add_of_less: "unat a + unat b < 2 ^ LENGTH('a) \<Longrightarrow> unat (a + b) = unat a + unat (b :: 'a::len word)"
  by (simp add: unat_word_ariths)

lemma unat_mult_of_less: "unat a * unat b < 2 ^ LENGTH('a) \<Longrightarrow> unat (a * b) = unat a * unat (b :: 'a::len word)"
  by (simp add: unat_word_ariths)

lemma checked_add_Some:
  "checked_add a b = Some c \<longleftrightarrow> unat c = unat a + unat (b :: 'a::len word)"
proof (cases "unat a + unat b < 2 ^ LENGTH('a)")
  case True
  then show ?thesis by (auto simp: checked_add_def unat_add_of_less word_unat_eq_iff)
next
  case False
  then show ?thesis using unat_bound [of c] by (auto simp: checked_add_def simp del: unsigned_less)
qed

lemma checked_add_None:
  "checked_add a b = None \<longleftrightarrow> 2 ^ LENGTH('a) \<le> unat a + unat (b :: 'a::len word)"
  by (auto simp: checked_add_def)

text \<open>Executable forms that compute on binary integers.\<close>

lemma checked_add_code [code]:
  "checked_add a b = (if uint a + uint b < 2 ^ LENGTH('a) then Some (a + (b :: 'a::len word)) else None)"
proof -
  have "unat a + unat b < 2 ^ LENGTH('a) \<longleftrightarrow> uint a + uint b < 2 ^ LENGTH('a)"
    unfolding uint_nat by (metis of_nat_add of_nat_less_iff of_nat_numeral of_nat_power)
  then show ?thesis by (simp add: checked_add_def)
qed

lemma checked_mul_code [code]:
  "checked_mul a b = (if uint a * uint b < 2 ^ LENGTH('a) then Some (a * (b :: 'a::len word)) else None)"
proof -
  have "unat a * unat b < 2 ^ LENGTH('a) \<longleftrightarrow> uint a * uint b < 2 ^ LENGTH('a)"
    unfolding uint_nat by (metis of_nat_mult of_nat_less_iff of_nat_numeral of_nat_power)
  then show ?thesis by (simp add: checked_mul_def)
qed

lemma unat_max_word: "unat (- 1 :: 'a::len word) = 2 ^ LENGTH('a) - 1"
  by (simp add: unsigned_minus_1_eq_mask mask_eq_exp_minus_1)

lemma checked_add_1_None: "checked_add (x :: 'a::len word) 1 = None \<longleftrightarrow> x = - 1"
proof -
  have "unat x < 2 ^ LENGTH('a)" by (rule unat_bound)
  then have "2 ^ LENGTH('a) \<le> unat x + 1 \<longleftrightarrow> unat x = 2 ^ LENGTH('a) - 1" by linarith
  then show ?thesis by (simp add: checked_add_None word_unat_eq_iff unat_max_word)
qed

lemma checked_sub_Some:
  "checked_sub a b = Some c \<longleftrightarrow> b \<le> a \<and> unat c = unat a - unat (b :: 'a::len word)"
  by (auto simp: checked_sub_def unat_sub word_unat_eq_iff)

lemma checked_sub_None: "checked_sub a b = None \<longleftrightarrow> a < b"
  by (auto simp: checked_sub_def not_le)

lemma checked_mul_Some:
  "checked_mul a b = Some c \<longleftrightarrow> unat c = unat a * unat (b :: 'a::len word)"
proof (cases "unat a * unat b < 2 ^ LENGTH('a)")
  case True
  then show ?thesis by (auto simp: checked_mul_def unat_mult_of_less word_unat_eq_iff)
next
  case False
  then show ?thesis using unat_bound [of c] by (auto simp: checked_mul_def simp del: unsigned_less)
qed

lemma unat_ucast_up:
  assumes "LENGTH('a) \<le> LENGTH('b)"
  shows "unat (ucast (x :: 'a::len word) :: 'b::len word) = unat x"
proof -
  have "unat x < 2 ^ LENGTH('b)"
    using unat_bound [of x] power_increasing [OF assms, of "2 :: nat"] by linarith
  then show ?thesis by (simp add: unsigned_ucast_eq take_bit_nat_eq_self)
qed

lemma unat_ucast_mod: "unat (ucast (x :: 'a::len word) :: 'b::len word) = unat x mod 2 ^ LENGTH('b)"
  by (simp add: unsigned_ucast_eq take_bit_eq_mod)

lemma unat_drop_bit_div: "unat (drop_bit n (x :: 'a::len word)) = unat x div 2 ^ n"
  unfolding unat_drop_bit_eq by (simp add: drop_bit_eq_div)

lemma unat_saturating_sub: "unat (saturating_sub a b) = unat a - unat b"
  by (simp add: saturating_sub_def unat_sub word_le_nat_alt)

section \<open>Byte arrays\<close>

text \<open>The numeric value of a byte array, least or most significant byte first.\<close>

primrec le_val :: "bytes \<Rightarrow> nat" where
  "le_val [] = 0"
| "le_val (b # bs) = unat b + 256 * le_val bs"

definition be_val :: "bytes \<Rightarrow> nat" where
  "be_val bs = le_val (rev bs)"

text \<open>Rust's \<open>to_le_bytes\<close>, \<open>to_be_bytes\<close>, \<open>from_le_bytes\<close>, \<open>from_be_bytes\<close>; the first argument is
  the number of bytes of the integer type.\<close>

primrec to_le_bytes :: "nat \<Rightarrow> 'a::len word \<Rightarrow> bytes" where
  "to_le_bytes 0 w = []"
| "to_le_bytes (Suc n) w = ucast w # to_le_bytes n (drop_bit 8 w)"

definition to_be_bytes :: "nat \<Rightarrow> 'a::len word \<Rightarrow> bytes" where
  "to_be_bytes n w = rev (to_le_bytes n w)"

definition from_le_bytes :: "bytes \<Rightarrow> 'a::len word" where
  "from_le_bytes bs = of_nat (le_val bs)"

definition from_be_bytes :: "bytes \<Rightarrow> 'a::len word" where
  "from_be_bytes bs = of_nat (be_val bs)"

lemma byte_less: "unat (b :: byte) < 256"
  using unat_bound [of b] by simp

lemma le_val_append: "le_val (xs @ ys) = le_val xs + 256 ^ length xs * le_val ys"
  by (induction xs) (auto simp: algebra_simps)

lemma le_val_bound: "le_val bs < 256 ^ length bs"
proof (induction bs)
  case (Cons b bs)
  have "le_val (b # bs) < 256 + 256 * le_val bs" using byte_less [of b] by simp
  also have "\<dots> \<le> 256 * 256 ^ length bs" using Cons.IH by simp
  finally show ?case by simp
qed simp

lemma le_val_inj: "length xs = length ys \<Longrightarrow> le_val xs = le_val ys \<Longrightarrow> xs = ys"
proof (induction xs ys rule: list_induct2)
  case (Cons x xs y ys)
  have eq: "unat x + 256 * le_val xs = unat y + 256 * le_val ys" using Cons.prems by simp
  then have "(unat x + 256 * le_val xs) mod 256 = (unat y + 256 * le_val ys) mod 256" by simp
  then have "unat x = unat y" using byte_less [of x] byte_less [of y] by simp
  with eq have "x = y" "le_val xs = le_val ys" by (simp_all add: word_unat_eq_iff)
  with Cons.IH show ?case by simp
qed simp

lemma length_to_le_bytes [simp]: "length (to_le_bytes n w) = n"
  by (induction n arbitrary: w) auto

lemma length_to_be_bytes [simp]: "length (to_be_bytes n w) = n"
  by (simp add: to_be_bytes_def)

lemma le_val_to_le_bytes: "le_val (to_le_bytes n w) = unat w mod 256 ^ n"
proof (induction n arbitrary: w)
  case (Suc n)
  have "unat (ucast w :: byte) = unat w mod 256"
    by (simp add: unsigned_ucast_eq take_bit_eq_mod)
  moreover have "unat (drop_bit 8 w) = unat w div 256"
    unfolding unat_drop_bit_eq by (simp add: drop_bit_eq_div)
  ultimately show ?case
    by (simp add: Suc.IH mod_mult2_eq)
qed simp

lemma be_val_to_be_bytes: "be_val (to_be_bytes n w) = unat w mod 256 ^ n"
  by (simp add: be_val_def to_be_bytes_def le_val_to_le_bytes)

lemma be_val_Nil [simp]: "be_val [] = 0"
  by (simp add: be_val_def)

lemma be_val_Cons: "be_val (b # bs) = unat b * 256 ^ length bs + be_val bs"
  by (simp add: be_val_def le_val_append)

lemma be_val_append: "be_val (xs @ ys) = be_val xs * 256 ^ length ys + be_val ys"
  by (simp add: be_val_def le_val_append)

lemma be_val_bound: "be_val bs < 256 ^ length bs"
  using le_val_bound [of "rev bs"] by (simp add: be_val_def)

lemma be_val_inj: "length xs = length ys \<Longrightarrow> be_val xs = be_val ys \<Longrightarrow> xs = ys"
  using le_val_inj [of "rev xs" "rev ys"] by (simp add: be_val_def)

lemma le_val_eq_0: "le_val bs = 0 \<longleftrightarrow> (\<forall>b \<in> set bs. b = 0)"
  by (induction bs) (auto simp: unat_eq_zero)

lemma be_val_eq_0: "be_val bs = 0 \<longleftrightarrow> (\<forall>b \<in> set bs. b = 0)"
  by (simp add: be_val_def le_val_eq_0)

lemma replicate_zero_iff: "bs = replicate (length bs) 0 \<longleftrightarrow> (\<forall>b \<in> set bs. b = (0 :: byte))"
  by (metis in_set_replicate replicate_length_same)

text \<open>Comparing byte arrays of one length lexicographically, as Rust's derived \<open>Ord\<close> does,
  compares their big-endian values.\<close>

lemma bytes_less_iff_be_val:
  "length xs = length ys \<Longrightarrow> xs < ys \<longleftrightarrow> be_val xs < be_val (ys :: bytes)"
proof (induction xs ys rule: list_induct2)
  case (Cons x xs y ys)
  let ?B = "256 ^ length ys :: nat"
  have bx: "be_val xs < ?B" and by': "be_val ys < ?B"
    using be_val_bound [of xs] be_val_bound [of ys] Cons.hyps by simp_all
  have val: "be_val (x # xs) < be_val (y # ys) \<longleftrightarrow>
      unat x * ?B + be_val xs < unat y * ?B + be_val ys"
    using Cons.hyps by (simp add: be_val_Cons)
  consider "unat x < unat y" | "unat x = unat y" | "unat y < unat x" by linarith
  then show ?case
  proof cases
    case 1
    then have "Suc (unat x) * ?B \<le> unat y * ?B" by (intro mult_le_mono1) simp
    with 1 bx by' val show ?thesis by (simp add: word_less_nat_alt)
  next
    case 2
    then have "x = y" by (simp add: word_unat_eq_iff)
    with Cons.IH val 2 show ?thesis by simp
  next
    case 3
    then have "Suc (unat y) * ?B \<le> unat x * ?B" by (intro mult_le_mono1) simp
    with 3 bx by' val show ?thesis by (auto simp: word_less_nat_alt)
  qed
qed simp

lemma bytes_le_iff_be_val:
  "length xs = length ys \<Longrightarrow> xs \<le> ys \<longleftrightarrow> be_val xs \<le> be_val (ys :: bytes)"
  by (metis bytes_less_iff_be_val linorder_not_less)

lemma unat_from_be_bytes:
  assumes "256 ^ length bs \<le> (2 :: nat) ^ LENGTH('a)"
  shows "unat (from_be_bytes bs :: 'a::len word) = be_val bs"
  using be_val_bound [of bs] assms by (simp add: from_be_bytes_def unat_of_nat)

lemma unat_from_le_bytes:
  assumes "256 ^ length bs \<le> (2 :: nat) ^ LENGTH('a)"
  shows "unat (from_le_bytes bs :: 'a::len word) = le_val bs"
  using le_val_bound [of bs] assms by (simp add: from_le_bytes_def unat_of_nat)

section \<open>State machines\<close>

text \<open>The states a component can reach: its start states, closed under its steps.\<close>

inductive reach :: "('s \<Rightarrow> bool) \<Rightarrow> ('s \<Rightarrow> 's \<Rightarrow> bool) \<Rightarrow> 's \<Rightarrow> bool"
  for start :: "'s \<Rightarrow> bool" and step :: "'s \<Rightarrow> 's \<Rightarrow> bool" where
  start: "start s \<Longrightarrow> reach start step s"
| step: "reach start step s \<Longrightarrow> step s t \<Longrightarrow> reach start step t"

lemma reach_steps: "reach start step s \<Longrightarrow> step\<^sup>*\<^sup>* s t \<Longrightarrow> reach start step t"
  by (rotate_tac, induction rule: rtranclp_induct) (auto intro: reach.step)

text \<open>The contract every stateful component of the pool is held to: a well-formedness invariant that
  its constructors establish and its operations keep.\<close>

locale invariant_system =
  fixes start :: "'s \<Rightarrow> bool" and step :: "'s \<Rightarrow> 's \<Rightarrow> bool" and inv :: "'s \<Rightarrow> bool"
  assumes start_inv: "start s \<Longrightarrow> inv s"
    and step_inv: "step s t \<Longrightarrow> inv s \<Longrightarrow> inv t"
begin

lemma reach_inv: "reach start step s \<Longrightarrow> inv s"
  by (induction rule: reach.induct) (auto intro: start_inv step_inv)

lemma steps_inv: "step\<^sup>*\<^sup>* s t \<Longrightarrow> inv s \<Longrightarrow> inv t"
  by (induction rule: rtranclp_induct) (auto intro: step_inv)

end

text \<open>A quantity that no step moves backwards, on the states that satisfy the invariant.\<close>

locale monotone_system = invariant_system start step inv
  for start :: "'s \<Rightarrow> bool" and step :: "'s \<Rightarrow> 's \<Rightarrow> bool" and inv :: "'s \<Rightarrow> bool" +
  fixes le :: "'s \<Rightarrow> 's \<Rightarrow> bool"
  assumes le_refl: "le s s"
    and le_trans: "le s t \<Longrightarrow> le t u \<Longrightarrow> le s u"
    and step_le: "step s t \<Longrightarrow> inv s \<Longrightarrow> le s t"
begin

lemma steps_le: "step\<^sup>*\<^sup>* s t \<Longrightarrow> inv s \<Longrightarrow> le s t"
proof (induction rule: rtranclp_induct)
  case base
  show ?case by (rule le_refl)
next
  case (step t u)
  then have "inv t" by (blast intro: steps_inv)
  with step show ?case by (blast intro: le_trans step_le)
qed

end

text \<open>A detailed machine each of whose steps is a run of an abstract one.\<close>

locale simulation =
  fixes start :: "'c \<Rightarrow> bool" and step :: "'c \<Rightarrow> 'c \<Rightarrow> bool"
    and astart :: "'a \<Rightarrow> bool" and astep :: "'a \<Rightarrow> 'a \<Rightarrow> bool" and abs :: "'c \<Rightarrow> 'a"
  assumes sim_start: "start s \<Longrightarrow> reach astart astep (abs s)"
    and sim_step: "step s t \<Longrightarrow> astep\<^sup>*\<^sup>* (abs s) (abs t)"
begin

lemma sim_steps: "step\<^sup>*\<^sup>* s t \<Longrightarrow> astep\<^sup>*\<^sup>* (abs s) (abs t)"
  by (induction rule: rtranclp_induct) (auto intro: rtranclp_trans sim_step)

lemma sim_reach: "reach start step s \<Longrightarrow> reach astart astep (abs s)"
  by (induction rule: reach.induct) (blast intro: sim_start reach_steps sim_step)+

end

end
