(* ===== verification/Fixed_Hex.thy ===== *)
theory Fixed_Hex
  imports Pool_Prelude
begin

text \<open>
  The shared wire vocabulary of \<open>crates/wcash-pool-protocol\<close>: its error type (\<open>error.rs\<close>) and the
  fixed-length hexadecimal values and endian-tagged targets of \<open>fixed_hex.rs\<close>.

  A \<open>FixedHex<N>\<close> holds exactly \<open>N\<close> bytes; the model keeps the byte list and states the length
  where it matters (\<open>fixed_hex n bs\<close>). The \<open>hex\<close> crate is not part of the repository: its
  \<open>encode\<close> and \<open>decode_to_slice\<close> are parameters of the functions that call them, and \<open>hex_contract\<close>
  states what that crate documents.
\<close>

section \<open>Protocol errors\<close>

datatype protocol_error =
    MissingLengthPrefix
  | EmptyFrame string
  | FrameTooLarge string nat nat
  | InvalidFrameLength nat nat
  | InvalidLineFraming
  | Json string
  | InvalidField string string
  | UnsupportedMethod string

definition invalid :: "string \<Rightarrow> string \<Rightarrow> protocol_error" where
  "invalid field reason = InvalidField field reason"

text \<open>Decimal rendering of the integers that the error texts interpolate.\<close>

fun decimal :: "nat \<Rightarrow> string" where
  "decimal n = (if n < 10 then [char_of (48 + n)] else decimal (n div 10) @ [char_of (48 + n mod 10)])"

declare decimal.simps [simp del]

section \<open>Hexadecimal values\<close>

definition is_ascii_digit :: "char \<Rightarrow> bool" where
  "is_ascii_digit c = (48 \<le> (of_char c :: nat) \<and> (of_char c :: nat) \<le> 57)"

definition is_lower_hex_letter :: "char \<Rightarrow> bool" where
  "is_lower_hex_letter c = (97 \<le> (of_char c :: nat) \<and> (of_char c :: nat) \<le> 102)"

definition is_upper_hex_letter :: "char \<Rightarrow> bool" where
  "is_upper_hex_letter c = (65 \<le> (of_char c :: nat) \<and> (of_char c :: nat) \<le> 70)"

definition is_ascii_hexdigit :: "char \<Rightarrow> bool" where
  "is_ascii_hexdigit c = (is_ascii_digit c \<or> is_lower_hex_letter c \<or> is_upper_hex_letter c)"

definition is_canonical_hexdigit :: "char \<Rightarrow> bool" where
  "is_canonical_hexdigit c = (is_ascii_digit c \<or> is_lower_hex_letter c)"

type_synonym hex_encoder = "bytes \<Rightarrow> string"
type_synonym hex_decoder = "string \<Rightarrow> nat \<Rightarrow> (string, bytes) result"

abbreviation fixed_hex :: "nat \<Rightarrow> bytes \<Rightarrow> bool" where
  "fixed_hex n bs \<equiv> length bs = n"

definition FixedHex_is_zero :: "bytes \<Rightarrow> bool" where
  "FixedHex_is_zero bs = list_all (\<lambda>b. b = 0) bs"

definition FixedHex_parse :: "hex_decoder \<Rightarrow> nat \<Rightarrow> string \<Rightarrow> (protocol_error, bytes) result" where
  "FixedHex_parse decode_to_slice n encoded =
     (if 2 ^ 64 \<le> n * 2 then Err (invalid ''hexadecimal value'' ''encoded length overflowed'')
      else if length encoded \<noteq> n * 2 then
        Err (invalid ''hexadecimal value'' (''must contain exactly '' @ decimal (n * 2) @ '' characters''))
      else if \<not> list_all is_canonical_hexdigit encoded then
        Err (invalid ''hexadecimal value'' ''must use canonical lowercase hexadecimal'')
      else map_err (\<lambda>error. invalid ''hexadecimal value'' error) (decode_to_slice encoded n))"

definition FixedHex_to_string :: "hex_encoder \<Rightarrow> bytes \<Rightarrow> string" where
  "FixedHex_to_string hex_encode bs = hex_encode bs"

text \<open>
  What the \<open>hex\<close> crate documents: encoding yields two lowercase digits per byte, and decoding an even
  number of hexadecimal digits of either case into a slice of half that length succeeds and
  inverts the encoding.
\<close>

definition to_lower_hex :: "char \<Rightarrow> char" where
  "to_lower_hex c = (if is_upper_hex_letter c then char_of ((of_char c :: nat) + 32) else c)"

definition hex_contract :: "hex_encoder \<Rightarrow> hex_decoder \<Rightarrow> bool" where
  "hex_contract hex_encode decode_to_slice \<longleftrightarrow>
     (\<forall>bs. length (hex_encode bs) = 2 * length bs \<and> list_all is_canonical_hexdigit (hex_encode bs)) \<and>
     (\<forall>bs. decode_to_slice (hex_encode bs) (length bs) = Ok bs) \<and>
     (\<forall>s n. length s = 2 * n \<and> list_all is_ascii_hexdigit s \<longrightarrow>
        (\<exists>bs. decode_to_slice s n = Ok bs \<and> length bs = n \<and> hex_encode bs = map to_lower_hex s))"

lemma hex_contract_encode:
  assumes "hex_contract enc dec"
  shows "length (enc bs) = 2 * length bs" "list_all is_canonical_hexdigit (enc bs)"
    "dec (enc bs) (length bs) = Ok bs"
  using assms by (auto simp: hex_contract_def)

lemma hex_contract_decode:
  assumes "hex_contract enc dec" "length s = 2 * n" "list_all is_ascii_hexdigit s"
  obtains bs where "dec s n = Ok bs" "length bs = n" "enc bs = map to_lower_hex s"
proof -
  from assms have "\<exists>bs. dec s n = Ok bs \<and> length bs = n \<and> enc bs = map to_lower_hex s"
    unfolding hex_contract_def by blast
  then show ?thesis using that by blast
qed

lemma canonical_hexdigit_ascii: "is_canonical_hexdigit c \<Longrightarrow> is_ascii_hexdigit c"
  by (auto simp: is_canonical_hexdigit_def is_ascii_hexdigit_def)

lemma canonical_hexdigit_lower [simp]: "is_canonical_hexdigit c \<Longrightarrow> to_lower_hex c = c"
  by (auto simp: is_canonical_hexdigit_def to_lower_hex_def is_upper_hex_letter_def
      is_ascii_digit_def is_lower_hex_letter_def)

lemma FixedHex_is_zero_iff: "FixedHex_is_zero bs \<longleftrightarrow> be_val bs = 0"
  by (simp add: FixedHex_is_zero_def be_val_eq_0 list_all_iff)

text \<open>The strings that \<open>FixedHex::parse\<close> accepts are exactly the ones \<open>Display\<close> prints.\<close>

lemma FixedHex_parse_Ok_iff:
  assumes hex: "hex_contract enc dec" and n: "n * 2 < 2 ^ 64"
  shows "FixedHex_parse dec n s = Ok bs \<longleftrightarrow> fixed_hex n bs \<and> s = FixedHex_to_string enc bs"
proof
  assume parsed: "FixedHex_parse dec n s = Ok bs"
  then have len: "length s = 2 * n" and canon: "list_all is_canonical_hexdigit s"
    and dec: "dec s n = Ok bs"
    by (auto simp: FixedHex_parse_def split: if_splits)
  have "list_all is_ascii_hexdigit s"
    using canon by (auto simp: list_all_iff intro: canonical_hexdigit_ascii)
  with hex len obtain bs' where bs': "dec s n = Ok bs'" "length bs' = n" "enc bs' = map to_lower_hex s"
    by (rule hex_contract_decode)
  moreover have "map to_lower_hex s = s"
    using canon by (auto simp: list_all_iff intro: map_idI)
  ultimately show "fixed_hex n bs \<and> s = FixedHex_to_string enc bs"
    using dec by (simp add: FixedHex_to_string_def)
next
  assume "fixed_hex n bs \<and> s = FixedHex_to_string enc bs"
  then show "FixedHex_parse dec n s = Ok bs"
    using hex_contract_encode [OF hex, of bs] n
    by (auto simp: FixedHex_parse_def FixedHex_to_string_def)
qed

section \<open>Endian-tagged targets\<close>

datatype target_le = TargetLe (TargetLe_as_bytes: bytes)
datatype target_be = TargetBe (TargetBe_as_bytes: bytes)

definition TargetLe_is_zero :: "target_le \<Rightarrow> bool" where
  "TargetLe_is_zero t = FixedHex_is_zero (TargetLe_as_bytes t)"

definition TargetBe_is_zero :: "target_be \<Rightarrow> bool" where
  "TargetBe_is_zero t = FixedHex_is_zero (TargetBe_as_bytes t)"

definition TargetBe_from_le :: "target_le \<Rightarrow> target_be" where
  "TargetBe_from_le t = TargetBe (rev (TargetLe_as_bytes t))"

definition TargetLe_from_be :: "target_be \<Rightarrow> target_le" where
  "TargetLe_from_be t = TargetLe (rev (TargetBe_as_bytes t))"

lemma TargetBe_from_le_from_be [simp]: "TargetBe_from_le (TargetLe_from_be t) = t"
  by (cases t) (simp add: TargetBe_from_le_def TargetLe_from_be_def)

lemma TargetLe_from_be_from_le [simp]: "TargetLe_from_be (TargetBe_from_le t) = t"
  by (cases t) (simp add: TargetBe_from_le_def TargetLe_from_be_def)

text \<open>Converting between the two byte orders keeps the numeric target.\<close>

lemma TargetBe_from_le_val: "be_val (TargetBe_as_bytes (TargetBe_from_le t)) = le_val (TargetLe_as_bytes t)"
  by (simp add: TargetBe_from_le_def be_val_def)

end
