(* ===== verification/Share_Target.thy ===== *)
theory Share_Target
  imports Fixed_Hex
begin

text \<open>
  \<open>crates/wcash-pool-core/src/target.rs\<close>: share targets in canonical big-endian form, the bounds an
  operator and the two network templates put on them, and the binding of one target to one job.
  The derived \<open>Ord\<close> of the Rust type compares the 32 bytes lexicographically; here it is the
  \<open>linorder\<close> instance of \<open>share_target\<close>, and \<open>share_target_less_iff\<close> relates it to the numeric order.
\<close>

section \<open>Share targets\<close>

datatype share_target = ShareTarget (as_be_bytes: bytes)

instantiation share_target :: linorder
begin

definition less_eq_share_target :: "share_target \<Rightarrow> share_target \<Rightarrow> bool" where
  "less_eq_share_target a b = (as_be_bytes a \<le> as_be_bytes b)"

definition less_share_target :: "share_target \<Rightarrow> share_target \<Rightarrow> bool" where
  "less_share_target a b = (as_be_bytes a < as_be_bytes b)"

instance
  by standard
    (auto simp: less_eq_share_target_def less_share_target_def share_target.expand)

end

datatype share_target_error = ZeroTarget

definition ShareTarget_MAX :: share_target where
  "ShareTarget_MAX = ShareTarget (replicate 32 255)"

definition ShareTarget_from_be_bytes :: "bytes \<Rightarrow> (share_target_error, share_target) result" where
  "ShareTarget_from_be_bytes bs = (if bs = replicate 32 0 then Err ZeroTarget else Ok (ShareTarget bs))"

definition ShareTarget_from_zip301 :: "target_be \<Rightarrow> (share_target_error, share_target) result" where
  "ShareTarget_from_zip301 t = ShareTarget_from_be_bytes (TargetBe_as_bytes t)"

definition ShareTarget_from_backend :: "target_le \<Rightarrow> (share_target_error, share_target) result" where
  "ShareTarget_from_backend t = ShareTarget_from_zip301 (TargetBe_from_le t)"

definition ShareTarget_to_zip301 :: "share_target \<Rightarrow> target_be" where
  "ShareTarget_to_zip301 t = TargetBe (as_be_bytes t)"

definition ShareTarget_to_backend :: "share_target \<Rightarrow> target_le" where
  "ShareTarget_to_backend t = TargetLe_from_be (ShareTarget_to_zip301 t)"

definition ShareTarget_harder :: "share_target \<Rightarrow> share_target \<Rightarrow> share_target" where
  "ShareTarget_harder a b = min a b"

definition ShareTarget_easier :: "share_target \<Rightarrow> share_target \<Rightarrow> share_target" where
  "ShareTarget_easier a b = max a b"

text \<open>The constructor without the check; the code asserts non-zero bytes in debug builds only.\<close>

definition ShareTarget_from_nonzero_be_bytes :: "bytes \<Rightarrow> share_target" where
  "ShareTarget_from_nonzero_be_bytes bs = ShareTarget bs"

text \<open>\<open>Ord::clamp\<close>. The library asserts \<open>lo \<le> hi\<close>; every call below is shown to respect it.\<close>

definition ord_clamp :: "'a::linorder \<Rightarrow> 'a \<Rightarrow> 'a \<Rightarrow> 'a" where
  "ord_clamp x lo hi = (if x < lo then lo else if hi < x then hi else x)"

section \<open>Bounds and bindings\<close>

record target_bounds =
  tb_wcash_network :: share_target
  tb_zcash_network :: share_target
  tb_hardest_allowed :: share_target
  tb_easiest_allowed :: share_target

datatype target_policy_error =
    OperatorLimitExcludesNetworkWinner share_target share_target
  | OutsideBounds share_target share_target share_target

definition TargetBounds_new ::
  "share_target \<Rightarrow> share_target \<Rightarrow> share_target \<Rightarrow> (target_policy_error, target_bounds) result" where
  "TargetBounds_new wcash_network zcash_network operator_easiest =
     (let hardest_allowed = max wcash_network zcash_network in
      if operator_easiest < hardest_allowed then
        Err (OperatorLimitExcludesNetworkWinner hardest_allowed operator_easiest)
      else Ok \<lparr>tb_wcash_network = wcash_network, tb_zcash_network = zcash_network,
               tb_hardest_allowed = hardest_allowed, tb_easiest_allowed = operator_easiest\<rparr>)"

definition TargetBounds_clamp :: "target_bounds \<Rightarrow> share_target \<Rightarrow> share_target" where
  "TargetBounds_clamp b t = ord_clamp t (tb_hardest_allowed b) (tb_easiest_allowed b)"

definition TargetBounds_contains :: "target_bounds \<Rightarrow> share_target \<Rightarrow> bool" where
  "TargetBounds_contains b t = (tb_hardest_allowed b \<le> t \<and> t \<le> tb_easiest_allowed b)"

record target_binding =
  bd_revision :: u64
  bd_target :: share_target
  bd_bounds :: target_bounds

definition TargetBinding_new ::
  "u64 \<Rightarrow> share_target \<Rightarrow> target_bounds \<Rightarrow> (target_policy_error, target_binding) result" where
  "TargetBinding_new revision target bounds =
     (if \<not> TargetBounds_contains bounds target then
        Err (OutsideBounds target (tb_hardest_allowed bounds) (tb_easiest_allowed bounds))
      else Ok \<lparr>bd_revision = revision, bd_target = target, bd_bounds = bounds\<rparr>)"

section \<open>Well-formed values\<close>

text \<open>The numeric value of a target and the invariant of \<open>ShareTarget([u8; 32])\<close>.\<close>

definition target_val :: "share_target \<Rightarrow> nat" where
  "target_val t = be_val (as_be_bytes t)"

definition wf_target :: "share_target \<Rightarrow> bool" where
  "wf_target t \<longleftrightarrow> length (as_be_bytes t) = 32 \<and> target_val t \<noteq> 0"

definition wf_bounds :: "target_bounds \<Rightarrow> bool" where
  "wf_bounds b \<longleftrightarrow> wf_target (tb_wcash_network b) \<and> wf_target (tb_zcash_network b) \<and>
     wf_target (tb_easiest_allowed b) \<and>
     tb_hardest_allowed b = max (tb_wcash_network b) (tb_zcash_network b) \<and>
     tb_hardest_allowed b \<le> tb_easiest_allowed b"

definition wf_binding :: "target_binding \<Rightarrow> bool" where
  "wf_binding b \<longleftrightarrow> wf_target (bd_target b) \<and> wf_bounds (bd_bounds b) \<and>
     TargetBounds_contains (bd_bounds b) (bd_target b)"

lemma target_less_iff:
  "wf_target a \<Longrightarrow> wf_target b \<Longrightarrow> a < b \<longleftrightarrow> target_val a < target_val b"
  by (simp add: wf_target_def target_val_def less_share_target_def bytes_less_iff_be_val)

lemma target_le_iff:
  "wf_target a \<Longrightarrow> wf_target b \<Longrightarrow> a \<le> b \<longleftrightarrow> target_val a \<le> target_val b"
  by (simp add: wf_target_def target_val_def less_eq_share_target_def bytes_le_iff_be_val)

lemma target_val_inj:
  "wf_target a \<Longrightarrow> wf_target b \<Longrightarrow> target_val a = target_val b \<Longrightarrow> a = b"
  by (metis target_le_iff order.antisym order.refl)

lemma target_val_bound: "wf_target t \<Longrightarrow> target_val t < 2 ^ 256"
  using be_val_bound [of "as_be_bytes t"] by (simp add: wf_target_def target_val_def)

lemma wf_target_min [simp]: "wf_target a \<Longrightarrow> wf_target b \<Longrightarrow> wf_target (min a b)"
  by (simp add: min_def)

lemma wf_target_max [simp]: "wf_target a \<Longrightarrow> wf_target b \<Longrightarrow> wf_target (max a b)"
  by (simp add: max_def)

lemma ord_clamp_bounds: "lo \<le> hi \<Longrightarrow> lo \<le> ord_clamp x lo hi \<and> ord_clamp x lo hi \<le> hi"
  by (auto simp: ord_clamp_def)

lemma ord_clamp_id: "lo \<le> x \<Longrightarrow> x \<le> hi \<Longrightarrow> ord_clamp x lo hi = x"
  by (auto simp: ord_clamp_def)

lemma ord_clamp_cases: "ord_clamp x lo hi \<in> {x, lo, hi}"
  by (auto simp: ord_clamp_def)

lemma wf_target_clamp:
  "wf_target x \<Longrightarrow> wf_target lo \<Longrightarrow> wf_target hi \<Longrightarrow> wf_target (ord_clamp x lo hi)"
  by (simp add: ord_clamp_def)

lemma wf_bounds_hardest: "wf_bounds b \<Longrightarrow> wf_target (tb_hardest_allowed b)"
  by (simp add: wf_bounds_def)

lemma TargetBounds_new_Ok:
  "TargetBounds_new w z e = Ok b \<longleftrightarrow> max w z \<le> e \<and>
     b = \<lparr>tb_wcash_network = w, tb_zcash_network = z, tb_hardest_allowed = max w z, tb_easiest_allowed = e\<rparr>"
  unfolding TargetBounds_new_def Let_def by (cases "e < max w z") (auto simp: not_less not_le [symmetric] simp del: max_less_iff_conj less_max_iff_disj max.bounded_iff)

lemma TargetBounds_new_wf:
  assumes "TargetBounds_new w z e = Ok b" "wf_target w" "wf_target z" "wf_target e"
  shows "wf_bounds b"
  using assms by (auto simp: TargetBounds_new_Ok wf_bounds_def)

lemma TargetBounds_clamp_contains: "wf_bounds b \<Longrightarrow> TargetBounds_contains b (TargetBounds_clamp b t)"
  unfolding TargetBounds_contains_def TargetBounds_clamp_def wf_bounds_def by (metis ord_clamp_bounds)

lemma TargetBounds_clamp_id: "TargetBounds_contains b t \<Longrightarrow> TargetBounds_clamp b t = t"
  by (simp add: TargetBounds_contains_def TargetBounds_clamp_def ord_clamp_id)

lemma TargetBounds_clamp_wf: "wf_bounds b \<Longrightarrow> wf_target t \<Longrightarrow> wf_target (TargetBounds_clamp b t)"
  by (simp add: TargetBounds_clamp_def wf_target_clamp wf_bounds_hardest wf_bounds_def)

lemma TargetBinding_new_Ok:
  "TargetBinding_new r t b = Ok d \<longleftrightarrow>
     TargetBounds_contains b t \<and> d = \<lparr>bd_revision = r, bd_target = t, bd_bounds = b\<rparr>"
  by (auto simp: TargetBinding_new_def)

lemma TargetBinding_new_wf:
  "TargetBinding_new r t b = Ok d \<Longrightarrow> wf_target t \<Longrightarrow> wf_bounds b \<Longrightarrow> wf_binding d"
  by (auto simp: TargetBinding_new_Ok wf_binding_def)

lemma ShareTarget_from_be_bytes_wf:
  "length bs = 32 \<Longrightarrow> ShareTarget_from_be_bytes bs = Ok t \<longleftrightarrow> wf_target t \<and> as_be_bytes t = bs"
  using replicate_zero_iff [of bs]
  by (cases t) (auto simp: ShareTarget_from_be_bytes_def wf_target_def target_val_def be_val_eq_0)

section \<open>Byte orders\<close>

text \<open>Targets keep their value across the two wire byte orders: every well-formed target survives
  the conversion to the backend's little-endian form and back, and its little-endian reading
  is its numeric value.\<close>

lemma share_target_backend_roundtrip:
  assumes "wf_target t"
  shows "ShareTarget_from_backend (ShareTarget_to_backend t) = Ok t \<and>
    le_val (TargetLe_as_bytes (ShareTarget_to_backend t)) = target_val t"
proof -
  have "ShareTarget_from_backend (ShareTarget_to_backend t) = ShareTarget_from_be_bytes (as_be_bytes t)"
    by (simp add: ShareTarget_from_backend_def ShareTarget_to_backend_def
        ShareTarget_from_zip301_def ShareTarget_to_zip301_def)
  also have "\<dots> = Ok t"
    using assms by (simp add: ShareTarget_from_be_bytes_wf wf_target_def)
  finally show ?thesis
    by (simp add: ShareTarget_to_backend_def ShareTarget_to_zip301_def TargetLe_from_be_def
        target_val_def be_val_def)
qed

text \<open>Small targets, for concrete runs.\<close>

definition example_target :: "byte \<Rightarrow> share_target" where
  "example_target n = ShareTarget (replicate 31 0 @ [n])"

lemma wf_example_target: "n \<noteq> 0 \<Longrightarrow> wf_target (example_target n)"
  by (simp add: example_target_def wf_target_def target_val_def be_val_eq_0)

lemma target_val_example: "target_val (example_target n) = unat n"
  by (simp add: example_target_def target_val_def be_val_append be_val_eq_0 be_val_Cons)

end
