(* ===== verification/Target_Arith.thy ===== *)
theory Target_Arith
  imports Share_Target
begin

unbundle bit_operations_syntax

text \<open>
  The 256-bit target arithmetic of \<open>crates/wcash-pool-core/src/vardiff.rs\<close> (\<open>scale_target\<close> and below):
  targets as four \<open>u64\<close> limbs, schoolbook multiplication by a \<open>u64\<close> with a \<open>u128\<close> carry, and a
  bit-serial division of the 320-bit product by a \<open>u128\<close>. \<open>scale_target_spec\<close>,
  \<open>multiply_target_spec\<close> and \<open>divide_target_spec\<close> show that the limb code computes saturating
  integer arithmetic on the numeric targets; the controller's lemmas rest on these equations only.
\<close>

section \<open>Target arithmetic on limbs\<close>

text \<open>\<open>slice::rchunks_exact\<close>: chunks of \<open>n\<close> elements counted from the end, the last chunk first.\<close>

function rchunks_exact :: "nat \<Rightarrow> 'a list \<Rightarrow> 'a list list" where
  "rchunks_exact n xs =
     (if n = 0 \<or> length xs < n then []
      else drop (length xs - n) xs # rchunks_exact n (take (length xs - n) xs))"
  by pat_completeness auto
termination
  by (relation "measure (\<lambda>(n, xs). length xs)") auto

declare rchunks_exact.simps [simp del]

definition to_little_limbs :: "share_target \<Rightarrow> u64 list" where
  "to_little_limbs target = map from_be_bytes (rchunks_exact 8 (as_be_bytes target))"

text \<open>\<open>bytes[start..start + chunk.len()].copy_from_slice(chunk)\<close>.\<close>

definition copy_from_slice_at :: "'a list \<Rightarrow> nat \<Rightarrow> 'a list \<Rightarrow> 'a list" where
  "copy_from_slice_at bs start chunk = take start bs @ chunk @ drop (start + length chunk) bs"

definition from_little_limbs :: "u64 list \<Rightarrow> share_target" where
  "from_little_limbs limbs =
     (let bytes = foldl (\<lambda>bytes (index, limb). copy_from_slice_at bytes (24 - index * 8) (to_be_bytes 8 limb))
            (replicate 32 0) (List.enumerate 0 limbs);
          bytes = (if bytes = replicate 32 0 then bytes[31 := 1] else bytes)
      in ShareTarget_from_nonzero_be_bytes bytes)"

definition multiply_limbs :: "u64 list \<Rightarrow> u64 \<Rightarrow> u64 list" where
  "multiply_limbs limbs multiplier =
     (let (result, carry) = foldl (\<lambda>(result, carry :: u128) (index, limb).
            let product = ucast limb * ucast multiplier + carry
            in (result[index := ucast product], drop_bit 64 product))
            (replicate 5 0, 0) (List.enumerate 0 limbs)
      in result[4 := ucast carry])"

text \<open>The long division: one iteration per bit, from bit 319 down to bit 0.\<close>

fun divide_loop :: "u64 list \<Rightarrow> u128 \<Rightarrow> nat \<Rightarrow> u64 list \<times> u128 \<times> bool \<Rightarrow> u64 list \<times> u128 \<times> bool" where
  "divide_loop numerator divisor 0 state = state"
| "divide_loop numerator divisor (Suc bit_index) (quot, remainder, overflow) =
     (let input_bit = drop_bit (bit_index mod 64) (numerator ! (bit_index div 64)) AND 1;
          high = drop_bit 127 remainder \<noteq> 0;
          remainder = push_bit 1 remainder OR ucast input_bit
      in if high \<or> divisor \<le> remainder then
           (if 256 \<le> bit_index then
              divide_loop numerator divisor bit_index (quot, remainder - divisor, True)
            else
              divide_loop numerator divisor bit_index
                (quot[bit_index div 64 := quot ! (bit_index div 64) OR push_bit (bit_index mod 64) 1],
                 remainder - divisor, overflow))
         else divide_loop numerator divisor bit_index (quot, remainder, overflow))"

definition divide_320_by_128 :: "u64 list \<Rightarrow> u128 \<Rightarrow> u64 list" where
  "divide_320_by_128 numerator divisor =
     (let (quot, remainder, overflow) = divide_loop numerator divisor 320 (replicate 4 0, 0, False)
      in if overflow then replicate 4 (- 1) else quot)"

definition scale_target :: "share_target \<Rightarrow> u64 \<Rightarrow> u128 \<Rightarrow> share_target" where
  "scale_target target multiplier divisor =
     from_little_limbs (divide_320_by_128 (multiply_limbs (to_little_limbs target) multiplier) divisor)"

definition multiply_target :: "share_target \<Rightarrow> u64 \<Rightarrow> share_target" where
  "multiply_target target multiplier =
     (let product = multiply_limbs (to_little_limbs target) multiplier
      in if product ! 4 \<noteq> 0 then ShareTarget_MAX
         else from_little_limbs [product ! 0, product ! 1, product ! 2, product ! 3])"

definition divide_target :: "share_target \<Rightarrow> u64 \<Rightarrow> share_target" where
  "divide_target target divisor = scale_target target 1 (ucast divisor)"

section \<open>The limb code computes integer arithmetic\<close>

text \<open>The value of little-endian 64-bit limbs.\<close>

primrec limb_val :: "u64 list \<Rightarrow> nat" where
  "limb_val [] = 0"
| "limb_val (x # xs) = unat x + 2 ^ 64 * limb_val xs"

lemma limb_val_bound: "limb_val xs < 2 ^ (64 * length xs)"
proof (induction xs)
  case (Cons x xs)
  have "limb_val (x # xs) < 2 ^ 64 + 2 ^ 64 * limb_val xs" using unat_bound [of x] by simp
  also have "\<dots> \<le> 2 ^ 64 * 2 ^ (64 * length xs)" using Cons.IH by simp
  finally show ?case by (simp add: power_add)
qed simp

lemma be_val_take_drop: "be_val bs = be_val (take n bs) * 256 ^ (length bs - n) + be_val (drop n bs)"
  using be_val_append [of "take n bs" "drop n bs"] by simp

lemma limb_val_rchunks:
  "8 dvd length bs \<Longrightarrow> limb_val (map from_be_bytes (rchunks_exact 8 bs)) = be_val bs"
proof (induction "length bs" arbitrary: bs rule: less_induct)
  case less
  show ?case
  proof (cases "bs = []")
    case True
    then show ?thesis by (simp add: rchunks_exact.simps)
  next
    case False
    with less.prems have len: "8 \<le> length bs" by (auto elim: dvd_imp_le)
    let ?hi = "take (length bs - 8) bs" and ?lo = "drop (length bs - 8) bs"
    have "8 dvd length ?hi" using less.prems len by (simp add: dvd_minus_self)
    moreover have "length ?hi < length bs" using len by simp
    ultimately have hi: "limb_val (map from_be_bytes (rchunks_exact 8 ?hi)) = be_val ?hi"
      using less.hyps by blast
    have lo: "unat (from_be_bytes ?lo :: u64) = be_val ?lo"
      using len by (intro unat_from_be_bytes) simp
    show ?thesis
      using hi lo len by (subst rchunks_exact.simps)
        (simp add: be_val_take_drop [of bs "length bs - 8"])
  qed
qed

lemma length_rchunks: "length bs = 8 * k \<Longrightarrow> length (rchunks_exact 8 bs) = k"
proof (induction k arbitrary: bs)
  case 0
  then show ?case by (simp add: rchunks_exact.simps)
next
  case (Suc k)
  then have "length (take (length bs - 8) bs) = 8 * k" by simp
  with Suc show ?case by (subst rchunks_exact.simps) simp
qed

lemma to_little_limbs_spec:
  assumes "wf_target t"
  shows "length (to_little_limbs t) = 4 \<and> limb_val (to_little_limbs t) = target_val t"
  using assms length_rchunks [of "as_be_bytes t" 4] limb_val_rchunks [of "as_be_bytes t"]
  by (simp add: wf_target_def to_little_limbs_def target_val_def)

lemma length_4_cases:
  assumes "length xs = 4"
  obtains a b c d where "xs = [a, b, c, d]"
  using assms by (auto simp: length_Suc_conv numeral_eq_Suc)

lemma replicate_4: "replicate 4 x = [x, x, x, x]"
  by (simp add: numeral_eq_Suc)

lemma length_5_cases:
  assumes "length xs = 5"
  obtains a b c d e where "xs = [a, b, c, d, e]"
  using assms by (auto simp: length_Suc_conv numeral_eq_Suc)

lemma from_little_limbs_spec:
  assumes "length limbs = 4"
  shows "wf_target (from_little_limbs limbs)"
    and "target_val (from_little_limbs limbs) = max 1 (limb_val limbs)"
proof -
  from assms obtain a b c d where limbs: "limbs = [a, b, c, d]" by (rule length_4_cases)
  define bs where "bs = to_be_bytes 8 d @ to_be_bytes 8 c @ to_be_bytes 8 b @ to_be_bytes 8 a"
  have loop: "foldl (\<lambda>bytes (index, limb). copy_from_slice_at bytes (24 - index * 8) (to_be_bytes 8 limb))
      (replicate 32 0) (List.enumerate 0 limbs) = bs"
    by (simp add: limbs copy_from_slice_at_def bs_def)
  have len: "length bs = 32" by (simp add: bs_def)
  have mod64: "unat x mod 18446744073709551616 = unat x" for x :: u64
    using unat_bound [of x] by (intro mod_less) simp
  have val: "be_val bs = limb_val limbs"
    by (simp add: bs_def limbs be_val_append be_val_to_be_bytes mod64 algebra_simps)
  have zero: "bs = replicate 32 0 \<longleftrightarrow> limb_val limbs = 0"
    using replicate_zero_iff [of bs] val len by (simp add: be_val_eq_0 [symmetric])
  have one: "be_val ((replicate 32 0)[31 := 1]) = 1"
    by (simp add: be_val_def numeral_eq_Suc)
  show "target_val (from_little_limbs limbs) = max 1 (limb_val limbs)"
    using val zero one
    by (auto simp: from_little_limbs_def loop target_val_def ShareTarget_from_nonzero_be_bytes_def Let_def)
  then show "wf_target (from_little_limbs limbs)"
    using len by (simp add: wf_target_def from_little_limbs_def loop
        ShareTarget_from_nonzero_be_bytes_def Let_def)
qed

text \<open>One step of the schoolbook multiplication never overflows \<open>u128\<close>.\<close>

lemma mul_step:
  fixes l m :: u64 and c :: u128
  assumes "unat c < 2 ^ 64"
  defines "p \<equiv> (ucast l :: u128) * ucast m + c"
  shows "unat p = unat l * unat m + unat c"
    and "unat (ucast p :: u64) + 2 ^ 64 * unat (drop_bit 64 p) = unat l * unat m + unat c"
    and "unat (drop_bit 64 p) < 2 ^ 64"
proof -
  have ul: "unat (ucast l :: u128) = unat l" and um: "unat (ucast m :: u128) = unat m"
    by (simp_all add: unat_ucast_up)
  have "unat l * unat m \<le> (2 ^ 64 - 1) * (2 ^ 64 - 1)"
    using unat_bound [of l] unat_bound [of m] by (intro mult_le_mono) simp_all
  then have bound: "unat l * unat m + unat c < 2 ^ 128"
    using assms(1) by simp
  then show p: "unat p = unat l * unat m + unat c"
    unfolding p_def by (simp add: unat_word_ariths ul um)
  have "unat (ucast p :: u64) = unat p mod 2 ^ 64"
    by (simp add: unat_ucast_mod)
  moreover have d: "unat (drop_bit 64 p) = unat p div 2 ^ 64"
    by (rule unat_drop_bit_div)
  ultimately show "unat (ucast p :: u64) + 2 ^ 64 * unat (drop_bit 64 p) = unat l * unat m + unat c"
    by (simp add: p)
  show "unat (drop_bit 64 p) < 2 ^ 64"
    using unat_bound [of p] unfolding d by (simp add: less_mult_imp_div_less)
qed

lemma multiply_limbs_spec:
  assumes "length limbs = 4"
  shows "length (multiply_limbs limbs m) = 5"
    and "limb_val (multiply_limbs limbs m) = limb_val limbs * unat m"
proof -
  from assms obtain a b c d where limbs: "limbs = [a, b, c, d]" by (rule length_4_cases)
  define P where "P l k = (ucast l :: u128) * ucast m + k" for l :: u64 and k :: u128
  define c0 c1 c2 c3 where "c0 = drop_bit 64 (P a 0)" and "c1 = drop_bit 64 (P b c0)"
    and "c2 = drop_bit 64 (P c c1)" and "c3 = drop_bit 64 (P d c2)"
  have run: "multiply_limbs limbs m =
      [ucast (P a 0), ucast (P b c0), ucast (P c c1), ucast (P d c2), ucast c3]"
    by (simp add: multiply_limbs_def limbs P_def c0_def c1_def c2_def c3_def Let_def numeral_eq_Suc)
  show "length (multiply_limbs limbs m) = 5" by (simp add: run)
  have b0: "unat c0 < 2 ^ 64" unfolding c0_def P_def by (rule mul_step(3)) simp
  have b1: "unat c1 < 2 ^ 64" unfolding c1_def P_def by (rule mul_step(3) [OF b0])
  have b2: "unat c2 < 2 ^ 64" unfolding c2_def P_def by (rule mul_step(3) [OF b1])
  have b3: "unat c3 < 2 ^ 64" unfolding c3_def P_def by (rule mul_step(3) [OF b2])
  have e0: "unat (ucast (P a 0) :: u64) + 2 ^ 64 * unat c0 = unat a * unat m"
    using mul_step(2) [of 0 a m] by (simp add: P_def c0_def)
  have e1: "unat (ucast (P b c0) :: u64) + 2 ^ 64 * unat c1 = unat b * unat m + unat c0"
    unfolding P_def c1_def by (rule mul_step(2) [OF b0])
  have e2: "unat (ucast (P c c1) :: u64) + 2 ^ 64 * unat c2 = unat c * unat m + unat c1"
    unfolding P_def c2_def by (rule mul_step(2) [OF b1])
  have e3: "unat (ucast (P d c2) :: u64) + 2 ^ 64 * unat c3 = unat d * unat m + unat c2"
    unfolding P_def c3_def by (rule mul_step(2) [OF b2])
  have e4: "unat (ucast c3 :: u64) = unat c3"
    using b3 by (simp add: unsigned_ucast_eq take_bit_eq_mod)
  show "limb_val (multiply_limbs limbs m) = limb_val limbs * unat m"
  proof -
    have "limb_val limbs * unat m = unat a * unat m +
        2 ^ 64 * (unat b * unat m + 2 ^ 64 * (unat c * unat m + 2 ^ 64 * (unat d * unat m)))"
      by (simp add: limbs algebra_simps)
    then show ?thesis
      unfolding run using e0 e1 e2 e3 e4 by simp
  qed
qed

subsection \<open>Bits of limb lists\<close>

lemma bit_unat: "bit (unat w) n \<longleftrightarrow> bit (w :: 'a::len word) n"
  by (auto simp: bit_unsigned_iff dest: bit_imp_le_length)

lemma odd_add_even: "even b \<Longrightarrow> odd (a + b) \<longleftrightarrow> odd (a :: nat)"
  by simp

lemma bit_limb_Cons:
  "bit (unat (x :: u64) + 2 ^ 64 * L) k \<longleftrightarrow> (if k < 64 then bit x k else bit L (k - 64))"
proof (cases "k < 64")
  case True
  then have "(2 :: nat) ^ 64 * L = 2 ^ k * (2 ^ (64 - k) * L)"
    by (simp flip: power_add mult.assoc)
  then have "(unat x + 2 ^ 64 * L) div 2 ^ k = unat x div 2 ^ k + 2 ^ (64 - k) * L"
    by (simp only: div_mult_self2 [OF power_not_zero [OF zero_neq_numeral [symmetric]]])
  moreover have "even (2 ^ (64 - k) * L)" using True by simp
  ultimately have "bit (unat x + 2 ^ 64 * L) k \<longleftrightarrow> odd (unat x div 2 ^ k)"
    by (simp only: bit_iff_odd odd_add_even)
  also have "\<dots> \<longleftrightarrow> bit x k" by (simp only: bit_unat [symmetric] bit_iff_odd)
  finally show ?thesis using True by simp
next
  case False
  then have "(2 :: nat) ^ k = 2 ^ 64 * 2 ^ (k - 64)" by (subst power_add [symmetric]) simp
  moreover have "(unat x + 2 ^ 64 * L) div 2 ^ 64 = L" using unat_bound [of x] by simp
  ultimately have "(unat x + 2 ^ 64 * L) div 2 ^ k = L div 2 ^ (k - 64)"
    by (simp only: div_mult2_eq)
  with False show ?thesis by (simp add: bit_iff_odd)
qed

lemma bit_limb_val: "k < 64 * length xs \<Longrightarrow> bit (limb_val xs) k \<longleftrightarrow> bit (xs ! (k div 64)) (k mod 64)"
proof (induction xs arbitrary: k)
  case (Cons x xs)
  show ?case
  proof (cases "k < 64")
    case False
    with Cons.prems have "bit (limb_val xs) (k - 64) \<longleftrightarrow> bit (xs ! ((k - 64) div 64)) ((k - 64) mod 64)"
      by (intro Cons.IH) simp
    moreover from False have "k div 64 = Suc ((k - 64) div 64)" "(k - 64) mod 64 = k mod 64"
      by (simp_all add: le_div_geq le_mod_geq)
    ultimately show ?thesis using False bit_limb_Cons [of x "limb_val xs" k] by simp
  qed (use bit_limb_Cons [of x "limb_val xs" k] in simp)
qed simp

lemma input_bit_val:
  assumes "k < 64 * length xs"
  shows "unat (drop_bit (k mod 64) (xs ! (k div 64)) AND 1) = (limb_val xs div 2 ^ k) mod 2"
proof -
  have "unat (drop_bit (k mod 64) (xs ! (k div 64)) AND 1) = of_bool (bit (xs ! (k div 64)) (k mod 64))"
    by (simp add: and_one_eq mod_2_eq_odd bit_iff_odd_drop_bit)
  also have "\<dots> = of_bool (bit (limb_val xs) k)" using assms by (simp add: bit_limb_val)
  also have "\<dots> = (limb_val xs div 2 ^ k) mod 2" by (simp add: bit_iff_odd mod_2_eq_odd)
  finally show ?thesis .
qed

lemma unat_or_bit:
  assumes "j < 64" "\<not> bit (w :: u64) j"
  shows "unat (w OR push_bit j 1) = unat w + 2 ^ j"
proof -
  have "unat (push_bit j 1 :: u64) = 2 ^ j"
  proof -
    have "(2 :: nat) ^ j < 2 ^ 64" using assms(1) by (intro power_strict_increasing) simp_all
    then have "unat (of_nat (2 ^ j) :: u64) = 2 ^ j" by (simp only: unat_of_nat) simp
    then show ?thesis by (simp add: push_bit_eq_mult)
  qed
  moreover have "unat w AND 2 ^ j = 0"
    using assms(2) by (simp add: bit_unat and_exp_eq_0_iff_not_bit)
  then have "unat w OR 2 ^ j = unat w + 2 ^ j"
    by (rule disjunctive_add_eq_or [symmetric])
  ultimately show ?thesis by (simp only: unsigned_or_eq)
qed

lemma limb_val_update:
  "i < length xs \<Longrightarrow> unat y = unat (xs ! i) + d \<Longrightarrow> limb_val (xs[i := y]) = limb_val xs + d * 2 ^ (64 * i)"
proof (induction xs arbitrary: i)
  case (Cons x xs)
  then show ?case by (cases i) (auto simp: algebra_simps power_add)
qed simp

subsection \<open>The long division\<close>

text \<open>The loop invariant before the iteration for bit \<open>n - 1\<close>: the bits of the numerator from \<open>n\<close> up
  have been divided; \<open>F\<close> is the quotient so far, shifted to its final position.\<close>

definition div_inv :: "nat \<Rightarrow> nat \<Rightarrow> nat \<Rightarrow> u64 list \<times> u128 \<times> bool \<Rightarrow> bool" where
  "div_inv N D n = (\<lambda>(quot, r, ovf). length quot = 4 \<and> unat r = (N div 2 ^ n) mod D \<and>
     limb_val quot = ((N div 2 ^ n) div D * 2 ^ n) mod 2 ^ 256 \<and>
     (ovf \<longleftrightarrow> 2 ^ 256 \<le> (N div 2 ^ n) div D * 2 ^ n))"

lemma div_step_nat:
  fixes N D n :: nat
  assumes "0 < D"
  defines "A \<equiv> N div 2 ^ Suc n" and "b \<equiv> (N div 2 ^ n) mod 2"
  shows "N div 2 ^ n = 2 * A + b" and "(N div 2 ^ n) div D = 2 * (A div D) + (2 * (A mod D) + b) div D"
    and "(N div 2 ^ n) mod D = (2 * (A mod D) + b) mod D" and "2 * (A mod D) + b < 2 * D"
proof -
  have "A = (N div 2 ^ n) div 2" by (simp add: A_def mult.commute flip: div_mult2_eq)
  then show eq: "N div 2 ^ n = 2 * A + b" unfolding b_def by simp
  have A: "2 * A + b = D * (2 * (A div D)) + (2 * (A mod D) + b)"
  proof -
    have "2 * A = 2 * (D * (A div D) + A mod D)" by simp
    also have "\<dots> = D * (2 * (A div D)) + 2 * (A mod D)" by (simp only: algebra_simps)
    finally show ?thesis by simp
  qed
  then show "(N div 2 ^ n) div D = 2 * (A div D) + (2 * (A mod D) + b) div D"
    using assms(1) unfolding eq by (simp only: A div_mult_self4)
  show "(N div 2 ^ n) mod D = (2 * (A mod D) + b) mod D"
    unfolding eq by (simp only: A mod_mult_self4)
  have "A mod D < D" using assms(1) by simp
  moreover have "b < 2" by (simp add: b_def)
  ultimately show "2 * (A mod D) + b < 2 * D" by linarith
qed

text \<open>The \<open>u128\<close> remainder after shifting one bit in, with the bit that falls out kept in \<open>high\<close>.\<close>

lemma remainder_shift:
  fixes r d :: u128 and i :: u64
  assumes "unat r < unat d" "unat i < 2"
  defines "s \<equiv> push_bit 1 r OR ucast i"
  shows "(drop_bit 127 r \<noteq> 0 \<or> d \<le> s) \<longleftrightarrow> unat d \<le> 2 * unat r + unat i"
    and "unat d \<le> 2 * unat r + unat i \<Longrightarrow> unat (s - d) = 2 * unat r + unat i - unat d"
    and "\<not> unat d \<le> 2 * unat r + unat i \<Longrightarrow> unat s = 2 * unat r + unat i"
proof -
  have low: "unat (push_bit 1 r) = (2 * unat r) mod 2 ^ 128"
    by (simp add: push_bit_eq_mult unat_word_ariths mult.commute)
  have i: "unat (ucast i :: u128) = unat i" by (simp add: unat_ucast_up)
  have "unat (push_bit 1 r) AND unat i = 0"
  proof -
    have "even (unat (push_bit 1 r))" unfolding low by (rule dvd_mod) simp_all
    moreover have "unat i = 0 \<or> unat i = 1" using assms(2) by linarith
    ultimately show ?thesis by (auto simp: and_one_eq)
  qed
  then have s: "unat s = (2 * unat r) mod 2 ^ 128 + unat i"
    unfolding s_def unsigned_or_eq i low by (rule disjunctive_add_eq_or [symmetric])
  have high: "drop_bit 127 r \<noteq> 0 \<longleftrightarrow> 2 ^ 127 \<le> unat r"
  proof -
    have "drop_bit 127 r \<noteq> 0 \<longleftrightarrow> unat r div 2 ^ 127 \<noteq> 0"
      by (metis unat_drop_bit_div unat_eq_zero)
    then show ?thesis by (simp add: div_eq_0_iff not_less)
  qed
  have rb: "unat r < 2 ^ 128" and db: "unat d < 2 ^ 128" 
    using unat_bound [of r] unat_bound [of d] by simp_all
  have wrap: "(2 * unat r) mod 2 ^ 128 = (if 2 ^ 127 \<le> unat r then 2 * unat r - 2 ^ 128 else 2 * unat r)"
  proof (cases "2 ^ 127 \<le> unat r")
    case True
    then have "(2 * unat r) mod 2 ^ 128 = (2 * unat r - 2 ^ 128) mod 2 ^ 128"
      by (intro le_mod_geq) simp
    also have "\<dots> = 2 * unat r - 2 ^ 128" using rb by (intro mod_less) simp
    finally show ?thesis using True by simp
  qed simp
  show c: "(drop_bit 127 r \<noteq> 0 \<or> d \<le> s) \<longleftrightarrow> unat d \<le> 2 * unat r + unat i"
    using rb db unfolding high word_le_nat_alt s wrap by auto
  show "unat s = 2 * unat r + unat i" if "\<not> unat d \<le> 2 * unat r + unat i"
    using that rb db unfolding s wrap by auto
  show "unat (s - d) = 2 * unat r + unat i - unat d" if ge: "unat d \<le> 2 * unat r + unat i"
  proof -
    have "unat (s - d) = (if unat d \<le> unat s then unat s - unat d else unat s + 2 ^ 128 - unat d)"
      by (simp add: unat_sub_if_size word_size)
    then show ?thesis using assms(1,2) ge rb db unfolding s wrap by auto
  qed
qed

text \<open>Setting bit \<open>m\<close> of a quotient whose bits below \<open>m + 1\<close> are still clear adds \<open>2 ^ m\<close>.\<close>

lemma set_quotient_bit:
  assumes len: "length quot = 4" and m: "m < 256" and clear: "2 ^ Suc m dvd limb_val quot"
  shows "limb_val (quot[m div 64 := quot ! (m div 64) OR push_bit (m mod 64) 1]) = limb_val quot + 2 ^ m"
proof -
  have i: "m div 64 < length quot" using len m by simp
  from clear obtain k where "limb_val quot = 2 ^ Suc m * k" ..
  then have "limb_val quot div 2 ^ m = 2 * k" by simp
  then have "\<not> bit (limb_val quot) m" by (simp add: bit_iff_odd)
  then have "\<not> bit (quot ! (m div 64)) (m mod 64)" using len m by (simp add: bit_limb_val)
  then have "unat (quot ! (m div 64) OR push_bit (m mod 64) 1) = unat (quot ! (m div 64)) + 2 ^ (m mod 64)"
    by (intro unat_or_bit) simp_all
  with i have "limb_val (quot[m div 64 := quot ! (m div 64) OR push_bit (m mod 64) 1]) =
      limb_val quot + 2 ^ (m mod 64) * 2 ^ (64 * (m div 64))"
    by (rule limb_val_update)
  also have "(2 :: nat) ^ (m mod 64) * 2 ^ (64 * (m div 64)) = 2 ^ m"
    by (simp flip: power_add)
  finally show ?thesis .
qed

lemma shifted_quotient:
  fixes Q m :: nat
  assumes "m < 256"
  shows "((2 * Q + 1) * 2 ^ m) mod 2 ^ 256 = (Q * 2 ^ Suc m) mod 2 ^ 256 + 2 ^ m"
    and "2 ^ 256 \<le> (2 * Q + 1) * 2 ^ m \<longleftrightarrow> 2 ^ 256 \<le> Q * 2 ^ Suc m"
    and "2 ^ Suc m dvd (Q * 2 ^ Suc m) mod 2 ^ 256"
proof -
  have pow: "(2 :: nat) ^ 256 = 2 ^ Suc m * 2 ^ (255 - m)"
    using assms by (subst power_add [symmetric]) simp
  show "2 ^ Suc m dvd (Q * 2 ^ Suc m) mod 2 ^ 256"
    unfolding pow by (intro dvd_mod) simp_all
  have Q: "(Q * 2 ^ Suc m) mod 2 ^ 256 = 2 ^ Suc m * (Q mod 2 ^ (255 - m))"
    unfolding pow by (simp only: mult.commute [of Q] mult_mod_right)
  have "Suc (Q mod 2 ^ (255 - m)) \<le> 2 ^ (255 - m)" by (rule Suc_leI) simp
  then have "2 ^ Suc m * Suc (Q mod 2 ^ (255 - m)) \<le> 2 ^ 256"
    unfolding pow by (rule mult_le_mono2)
  moreover have "2 ^ Suc m * x + 2 ^ m < 2 ^ Suc m * Suc x" for x :: nat by simp
  ultimately have small: "(Q * 2 ^ Suc m) mod 2 ^ 256 + 2 ^ m < 2 ^ 256"
    unfolding Q using order.strict_trans2 by blast
  have "((2 * Q + 1) * 2 ^ m) mod 2 ^ 256 = (Q * 2 ^ Suc m + 2 ^ m) mod 2 ^ 256"
    by (simp add: algebra_simps)
  also have "\<dots> = ((Q * 2 ^ Suc m) mod 2 ^ 256 + 2 ^ m) mod 2 ^ 256"
    by (simp only: mod_add_left_eq)
  finally show *: "((2 * Q + 1) * 2 ^ m) mod 2 ^ 256 = (Q * 2 ^ Suc m) mod 2 ^ 256 + 2 ^ m"
    using small by simp
  have sum: "(2 * Q + 1) * 2 ^ m = Q * 2 ^ Suc m + 2 ^ m" by (simp add: algebra_simps)
  show "2 ^ 256 \<le> (2 * Q + 1) * 2 ^ m \<longleftrightarrow> 2 ^ 256 \<le> Q * 2 ^ Suc m"
  proof
    assume "2 ^ 256 \<le> (2 * Q + 1) * 2 ^ m"
    show "2 ^ 256 \<le> Q * 2 ^ Suc m"
    proof (rule ccontr)
      assume "\<not> 2 ^ 256 \<le> Q * 2 ^ Suc m"
      then have "(Q * 2 ^ Suc m) mod 2 ^ 256 = Q * 2 ^ Suc m" by (intro mod_less) simp
      with small \<open>2 ^ 256 \<le> (2 * Q + 1) * 2 ^ m\<close> show False unfolding sum by linarith
    qed
  qed (simp only: sum trans_le_add1)
qed

lemma shifted_quotient_big:
  fixes Q m :: nat
  assumes "256 \<le> m"
  shows "(Q * 2 ^ m) mod 2 ^ 256 = 0" and "2 ^ 256 \<le> (2 * Q + 1) * 2 ^ m"
proof -
  have "(2 :: nat) ^ 256 dvd 2 ^ m" using assms by (rule le_imp_power_dvd)
  then show "(Q * 2 ^ m) mod 2 ^ 256 = 0" by simp
  have "(2 :: nat) ^ 256 \<le> 2 ^ m" using assms by (intro power_increasing) simp_all
  also have "\<dots> \<le> (2 * Q + 1) * 2 ^ m" by simp
  finally show "2 ^ 256 \<le> (2 * Q + 1) * 2 ^ m" .
qed

text \<open>The three outcomes of one iteration keep the loop invariant.\<close>

lemma div_inv_skip:
  assumes "div_inv N D (Suc m) (quot, r, ovf)" "0 < D" "i = (N div 2 ^ m) mod 2"
    and "2 * unat r + i < D" "unat s = 2 * unat r + i"
  shows "div_inv N D m (quot, s, ovf)"
proof -
  note step = div_step_nat [OF assms(2), of N m]
  from assms(1) have r: "unat r = N div 2 ^ Suc m mod D" by (simp only: div_inv_def prod.case)
  have "(2 * unat r + i) div D = 0" using assms(4) by simp
  then have "N div 2 ^ m div D = 2 * (N div 2 ^ Suc m div D)" using step(2) by (simp only: r assms(3))
  moreover have "N div 2 ^ m mod D = unat s" using step(3) assms(3-5) by (simp add: r)
  ultimately show ?thesis using assms(1) unfolding div_inv_def prod.case by (simp add: algebra_simps)
qed

lemma div_inv_subtract:
  assumes "div_inv N D (Suc m) (quot, r, ovf)" "0 < D" "i = (N div 2 ^ m) mod 2"
    and "D \<le> 2 * unat r + i" "unat s = 2 * unat r + i - D"
  shows "N div 2 ^ m div D = 2 * (N div 2 ^ Suc m div D) + 1" and "N div 2 ^ m mod D = unat s"
proof -
  note step = div_step_nat [OF assms(2), of N m]
  from assms(1) have r: "unat r = N div 2 ^ Suc m mod D" by (simp only: div_inv_def prod.case)
  have lt: "2 * unat r + i < 2 * D" using step(4) by (simp only: r assms(3))
  have "(2 * unat r + i) div D = 1" using assms(2,4) lt by (intro div_nat_eqI) simp_all
  then show "N div 2 ^ m div D = 2 * (N div 2 ^ Suc m div D) + 1" using step(2) by (simp only: r assms(3))
  have "(2 * unat r + i) mod D = 2 * unat r + i - D" using assms(4) lt by (simp add: le_mod_geq)
  then show "N div 2 ^ m mod D = unat s" using step(3) assms(5) by (simp only: r assms(3))
qed

lemma div_inv_overflow:
  assumes "div_inv N D (Suc m) (quot, r, ovf)" "0 < D" "i = (N div 2 ^ m) mod 2"
    and "D \<le> 2 * unat r + i" "unat s = 2 * unat r + i - D" and big: "256 \<le> m"
  shows "div_inv N D m (quot, s, True)"
proof -
  let ?Q = "N div 2 ^ Suc m div D"
  note QR = div_inv_subtract [OF assms(1-5)]
  from assms(1) have "length quot = 4" "limb_val quot = 0"
    using shifted_quotient_big(1) [of "Suc m" ?Q] big by (simp_all add: div_inv_def)
  then show ?thesis
    unfolding div_inv_def prod.case QR
    using shifted_quotient_big [OF big, of ?Q] shifted_quotient_big(1) [OF big, of "2 * ?Q + 1"] by simp
qed

lemma div_inv_set_bit:
  assumes "div_inv N D (Suc m) (quot, r, ovf)" "0 < D" "i = (N div 2 ^ m) mod 2"
    and "D \<le> 2 * unat r + i" "unat s = 2 * unat r + i - D" and m: "m < 256"
  shows "div_inv N D m (quot[m div 64 := quot ! (m div 64) OR push_bit (m mod 64) 1], s, ovf)"
proof -
  let ?Q = "N div 2 ^ Suc m div D"
  note QR = div_inv_subtract [OF assms(1-5)] and shifted = shifted_quotient [OF m, of ?Q]
  from assms(1) have q: "length quot = 4" "limb_val quot = (?Q * 2 ^ Suc m) mod 2 ^ 256"
    "ovf \<longleftrightarrow> 2 ^ 256 \<le> ?Q * 2 ^ Suc m"
    by (simp_all only: div_inv_def prod.case)
  have "limb_val (quot[m div 64 := quot ! (m div 64) OR push_bit (m mod 64) 1]) = limb_val quot + 2 ^ m"
    using q(1) m shifted(3) by (intro set_quotient_bit) (simp_all only: q)
  then show ?thesis unfolding div_inv_def prod.case QR shifted(1,2) using q by simp
qed

lemma divide_loop_inv:
  assumes len: "length num = 5" and d: "d \<noteq> 0" and n: "n \<le> 320"
    and inv: "div_inv (limb_val num) (unat d) n st"
  shows "div_inv (limb_val num) (unat d) 0 (divide_loop num d n st)"
  using n inv
proof (induction n arbitrary: st)
  case (Suc m)
  obtain quot r ovf where st: "st = (quot, r, ovf)" by (cases st) auto
  define i where "i = drop_bit (m mod 64) (num ! (m div 64)) AND 1"
  define s where "s = push_bit 1 r OR ucast i"
  have D: "0 < unat d" using d by (simp add: unat_gt_0)
  have i: "unat i = (limb_val num div 2 ^ m) mod 2"
    unfolding i_def using Suc.prems(1) len by (intro input_bit_val) simp
  have rd: "unat r < unat d" and i2: "unat i < 2" using Suc.prems(2) D by (simp_all add: st div_inv_def i)
  note shift = remainder_shift [OF rd i2, folded s_def]
  note inv = Suc.prems(2) [unfolded st] D i
  have unfold: "divide_loop num d (Suc m) st =
      (if drop_bit 127 r \<noteq> 0 \<or> d \<le> s then
         if 256 \<le> m then divide_loop num d m (quot, s - d, True)
         else divide_loop num d m
           (quot[m div 64 := quot ! (m div 64) OR push_bit (m mod 64) 1], s - d, ovf)
       else divide_loop num d m (quot, s, ovf))"
    unfolding st divide_loop.simps Let_def i_def s_def by (rule refl)
  have IH: "div_inv (limb_val num) (unat d) m st' \<Longrightarrow> div_inv (limb_val num) (unat d) 0 (divide_loop num d m st')" for st'
    using Suc.prems(1) by (intro Suc.IH) simp_all
  consider "2 * unat r + unat i < unat d" | "unat d \<le> 2 * unat r + unat i" "256 \<le> m"
    | "unat d \<le> 2 * unat r + unat i" "m < 256" by linarith
  then show ?case
  proof cases
    case 1
    then show ?thesis using IH [OF div_inv_skip [OF inv 1 shift(3) [unfolded not_le, OF 1]]] unfolding unfold shift(1) by simp
  next
    case 2
    then show ?thesis
      using IH [OF div_inv_overflow [OF inv 2(1) shift(2) [OF 2(1)] 2(2)]] unfolding unfold shift(1) by simp
  next
    case 3
    then show ?thesis
      using IH [OF div_inv_set_bit [OF inv 3(1) shift(2) [OF 3(1)] 3(2)]] unfolding unfold shift(1) by simp
  qed
qed simp

lemma divide_320_by_128_spec:
  assumes len: "length num = 5" and d: "d \<noteq> 0"
  shows "length (divide_320_by_128 num d) = 4"
    and "limb_val (divide_320_by_128 num d) = min (2 ^ 256 - 1) (limb_val num div unat d)"
proof -
  obtain quot r ovf where run: "divide_loop num d 320 (replicate 4 0, 0, False) = (quot, r, ovf)"
    by (metis prod_cases3)
  have "limb_val num < 2 ^ 320" using limb_val_bound [of num] len by simp
  then have "limb_val num div 2 ^ 320 = 0" by (rule div_less)
  then have "div_inv (limb_val num) (unat d) 320 (replicate 4 0, 0, False)"
    by (simp add: div_inv_def replicate_4)
  then have "div_inv (limb_val num) (unat d) 0 (quot, r, ovf)"
    using divide_loop_inv [OF len d order.refl, of "(replicate 4 0, 0, False)"] by (simp only: run)
  then have q4: "length quot = 4" and q: "limb_val quot = (limb_val num div unat d) mod 2 ^ 256"
    and o: "ovf \<longleftrightarrow> 2 ^ 256 \<le> limb_val num div unat d"
    unfolding div_inv_def prod.case by simp_all
  have all: "limb_val (replicate 4 (- 1)) = 2 ^ 256 - 1" 
    by (simp add: replicate_4 unsigned_minus_1_eq_mask mask_eq_exp_minus_1)
  show "length (divide_320_by_128 num d) = 4"
    using q4 by (simp add: divide_320_by_128_def run)
  show "limb_val (divide_320_by_128 num d) = min (2 ^ 256 - 1) (limb_val num div unat d)"
  proof (cases ovf)
    case True
    then show ?thesis using o all unfolding divide_320_by_128_def run by (simp add: min_def)
  next
    case False
    then show ?thesis using o q unfolding divide_320_by_128_def run by (simp add: min_def)
  qed
qed

subsection \<open>Saturating arithmetic on targets\<close>

lemma scale_target_spec:
  assumes "wf_target t" "d \<noteq> 0"
  shows "wf_target (scale_target t m d)"
    and "target_val (scale_target t m d) = max 1 (min (2 ^ 256 - 1) (target_val t * unat m div unat d))"
proof -
  let ?p = "multiply_limbs (to_little_limbs t) m"
  from assms(1) have t: "length (to_little_limbs t) = 4" "limb_val (to_little_limbs t) = target_val t"
    by (simp_all add: to_little_limbs_spec)
  have p: "length ?p = 5" "limb_val ?p = target_val t * unat m"
    using multiply_limbs_spec [OF t(1), of m] t(2) by simp_all
  note q = divide_320_by_128_spec [OF p(1) assms(2)]
  show "wf_target (scale_target t m d)"
    unfolding scale_target_def by (rule from_little_limbs_spec(1) [OF q(1)])
  show "target_val (scale_target t m d) = max 1 (min (2 ^ 256 - 1) (target_val t * unat m div unat d))"
    unfolding scale_target_def from_little_limbs_spec(2) [OF q(1)] q(2) p(2) by (rule refl)
qed

lemma divide_target_spec:
  assumes "wf_target t" "f \<noteq> 0"
  shows "wf_target (divide_target t f)"
    and "target_val (divide_target t f) = max 1 (target_val t div unat f)"
proof -
  have u: "unat (ucast f :: u128) = unat f" by (simp add: unat_ucast_up)
  with assms(2) have d: "(ucast f :: u128) \<noteq> 0" by (metis unat_eq_zero)
  show "wf_target (divide_target t f)"
    unfolding divide_target_def by (rule scale_target_spec(1) [OF assms(1) d])
  have "target_val t div unat f \<le> target_val t" by simp
  then have "target_val t div unat f \<le> 2 ^ 256 - 1" using target_val_bound [OF assms(1)] by linarith
  then show "target_val (divide_target t f) = max 1 (target_val t div unat f)"
    unfolding divide_target_def scale_target_spec(2) [OF assms(1) d] u by (simp add: min_absorb2)
qed

lemma be_val_replicate_max: "be_val (replicate n (255 :: byte)) = 256 ^ n - 1"
proof (induction n)
  case (Suc n)
  have "(1 :: nat) \<le> 256 ^ n" by simp
  with Suc show ?case by (simp add: be_val_Cons)
qed simp

lemma ShareTarget_MAX_spec: "wf_target ShareTarget_MAX" "target_val ShareTarget_MAX = 2 ^ 256 - 1"
proof -
  show val: "target_val ShareTarget_MAX = 2 ^ 256 - 1"
    by (simp add: ShareTarget_MAX_def target_val_def be_val_replicate_max)
  show "wf_target ShareTarget_MAX"
    using val by (simp add: wf_target_def) (simp add: ShareTarget_MAX_def)
qed

lemma multiply_target_spec:
  assumes "wf_target t"
  shows "wf_target (multiply_target t f)"
    and "target_val (multiply_target t f) = max 1 (min (2 ^ 256 - 1) (target_val t * unat f))"
proof -
  let ?p = "multiply_limbs (to_little_limbs t) f"
  from assms have t: "length (to_little_limbs t) = 4" "limb_val (to_little_limbs t) = target_val t"
    by (simp_all add: to_little_limbs_spec)
  have p: "length ?p = 5" "limb_val ?p = target_val t * unat f"
    using multiply_limbs_spec [OF t(1), of f] t(2) by simp_all
  from p(1) obtain a b c d e where abc: "?p = [a, b, c, d, e]" by (rule length_5_cases)
  have v: "target_val t * unat f = limb_val [a, b, c, d] + 2 ^ 256 * unat e"
    using p(2) by (simp add: abc)
  have "wf_target (multiply_target t f) \<and>
      target_val (multiply_target t f) = max 1 (min (2 ^ 256 - 1) (target_val t * unat f))"
  proof (cases "e = 0")
    case True
    have "limb_val [a, b, c, d] \<le> 2 ^ 256 - 1" using limb_val_bound [of "[a, b, c, d]"] by simp
    then have m: "min (2 ^ 256 - 1) (target_val t * unat f) = limb_val [a, b, c, d]"
      using True v by (simp add: min_absorb2 del: limb_val.simps)
    have "multiply_target t f = from_little_limbs [a, b, c, d]"
      using True unfolding multiply_target_def abc by simp
    then show ?thesis
      unfolding m using from_little_limbs_spec [of "[a, b, c, d]"] by (simp del: limb_val.simps)
  next
    case False
    then have "1 \<le> unat e" by (simp add: Suc_leI unat_gt_0)
    then have "2 ^ 256 * 1 \<le> 2 ^ 256 * unat e" by (rule mult_le_mono2)
    then have "2 ^ 256 - 1 \<le> target_val t * unat f" unfolding v by linarith
    moreover have "multiply_target t f = ShareTarget_MAX"
      using False unfolding multiply_target_def abc by simp
    ultimately show ?thesis using ShareTarget_MAX_spec by (simp add: min_absorb1)
  qed
  then show "wf_target (multiply_target t f)"
    and "target_val (multiply_target t f) = max 1 (min (2 ^ 256 - 1) (target_val t * unat f))"
    by simp_all
qed

section \<open>Properties\<close>

text \<open>C29 The limb arithmetic is exact saturating integer arithmetic: on well-formed targets and non-zero
  divisors, scaling is \<open>t * m div d\<close>, multiplication is \<open>t * f\<close> and division is \<open>t div f\<close>, each
  clamped to the representable non-zero 256-bit targets, and every result is a well-formed target.\<close>

theorem target_arithmetic_exact:
  assumes "wf_target t" "d \<noteq> 0" "f \<noteq> 0"
  shows "target_val (scale_target t m d) = max 1 (min (2 ^ 256 - 1) (target_val t * unat m div unat d)) \<and>
    target_val (multiply_target t f) = max 1 (min (2 ^ 256 - 1) (target_val t * unat f)) \<and>
    target_val (divide_target t f) = max 1 (target_val t div unat f) \<and>
    wf_target (scale_target t m d) \<and> wf_target (multiply_target t f) \<and> wf_target (divide_target t f)"
  using scale_target_spec [OF assms(1,2)] multiply_target_spec [OF assms(1)] divide_target_spec [OF assms(1,3)]
  by simp

theorem target_arithmetic_exact_witness:
  "target_val (scale_target (example_target 100) 3 7) = 42 \<and>
   target_val (multiply_target (example_target 100) 5) = 500 \<and> target_val (divide_target (example_target 100) 5) = 20"
  using target_arithmetic_exact [OF wf_example_target [of 100], of 7 5 3] by (simp add: target_val_example)

end
