(* ===== verification/Vardiff.thy ===== *)
theory Vardiff
  imports Target_Arith
begin

text \<open>
  \<open>crates/wcash-pool-core/src/vardiff.rs\<close>: the integer variable-difficulty policy and the
  per-connection controller that adapts the share target to the observed share rate. Methods
  taking \<open>&mut self\<close> return the result with the controller they leave behind, also on an error.
\<close>

section \<open>The policy\<close>

definition BASIS_POINTS :: u128 where "BASIS_POINTS = 10000"
definition MINIMUM_SAMPLE_INTERVALS :: u32 where "MINIMUM_SAMPLE_INTERVALS = 8"
definition MINIMUM_SAMPLE_WINDOW_MS :: u64 where "MINIMUM_SAMPLE_WINDOW_MS = 60000"
definition MINIMUM_HYSTERESIS_BPS :: u16 where "MINIMUM_HYSTERESIS_BPS = 2500"
definition MAXIMUM_ADJUSTMENT_FACTOR :: u32 where "MAXIMUM_ADJUSTMENT_FACTOR = 4"

named_theorems vardiff_consts \<open>the policy constants\<close>

lemmas [vardiff_consts] = BASIS_POINTS_def MINIMUM_SAMPLE_INTERVALS_def MINIMUM_SAMPLE_WINDOW_MS_def
  MINIMUM_HYSTERESIS_BPS_def MAXIMUM_ADJUSTMENT_FACTOR_def

record vardiff_config =
  sample_intervals :: u32
  sample_window_ms :: u64
  hysteresis_bps :: u16
  maximum_adjustment_factor :: u32
  operator_easiest :: share_target

datatype vardiff_error =
    InvalidConfig
  | TargetPolicy target_policy_error
  | ClockMovedBackwards
  | IntervalOverflow
  | SampleCounterOverflow
  | RevisionOverflow

definition VardiffConfig_new ::
  "u64 \<Rightarrow> u32 \<Rightarrow> u16 \<Rightarrow> u32 \<Rightarrow> share_target \<Rightarrow> (vardiff_error, vardiff_config) result" where
  "VardiffConfig_new target_interval_ms intervals hysteresis factor easiest =
     and_then (ok_or (checked_mul target_interval_ms (ucast intervals)) IntervalOverflow) (\<lambda>window.
     if intervals < MINIMUM_SAMPLE_INTERVALS
        \<or> window < MINIMUM_SAMPLE_WINDOW_MS
        \<or> \<not> (MINIMUM_HYSTERESIS_BPS \<le> hysteresis \<and> hysteresis < ucast BASIS_POINTS)
        \<or> \<not> (1 \<le> factor \<and> factor \<le> MAXIMUM_ADJUSTMENT_FACTOR)
     then Err InvalidConfig
     else Ok \<lparr>sample_intervals = intervals, sample_window_ms = window, hysteresis_bps = hysteresis,
              maximum_adjustment_factor = factor, operator_easiest = easiest\<rparr>)"

section \<open>The controller\<close>

record vardiff_controller =
  config :: vardiff_config
  binding :: target_binding
  window_start_ms :: "u64 option"
  observed_intervals :: u32
  last_now_ms :: "u64 option"

datatype vardiff_update =
    Sampling u32 u32
  | IgnoredStaleBinding
  | Unchanged target_binding
  | Changed target_binding target_binding

definition VardiffController_new ::
  "vardiff_config \<Rightarrow> share_target \<Rightarrow> share_target \<Rightarrow> share_target \<Rightarrow> u64 \<Rightarrow>
   (vardiff_error, vardiff_controller) result" where
  "VardiffController_new cfg wcash_network zcash_network initial initial_revision =
     and_then (map_err TargetPolicy
       (TargetBounds_new wcash_network zcash_network (operator_easiest cfg))) (\<lambda>bounds.
     and_then (map_err TargetPolicy
       (TargetBinding_new initial_revision (TargetBounds_clamp bounds initial) bounds)) (\<lambda>b.
     Ok \<lparr>config = cfg, binding = b, window_start_ms = None, observed_intervals = 0,
         last_now_ms = None\<rparr>))"

definition next_revision :: "vardiff_controller \<Rightarrow> (vardiff_error, u64) result" where
  "next_revision c = ok_or (checked_add (bd_revision (binding c)) 1) RevisionOverflow"

definition reset_sample :: "vardiff_controller \<Rightarrow> vardiff_controller" where
  "reset_sample c = c\<lparr>window_start_ms := None, observed_intervals := 0\<rparr>"

definition reset_sample_at :: "vardiff_controller \<Rightarrow> u64 \<Rightarrow> vardiff_controller" where
  "reset_sample_at c now_ms = c\<lparr>window_start_ms := Some now_ms, observed_intervals := 0\<rparr>"

definition update_network_targets ::
  "vardiff_controller \<Rightarrow> share_target \<Rightarrow> share_target \<Rightarrow>
   (vardiff_error, target_binding) result \<times> vardiff_controller" where
  "update_network_targets c wcash_network zcash_network =
     (case map_err TargetPolicy
        (TargetBounds_new wcash_network zcash_network (operator_easiest (config c))) of
        Err e \<Rightarrow> (Err e, c)
      | Ok bounds \<Rightarrow>
          if bounds \<noteq> bd_bounds (binding c) then
            (case and_then (next_revision c) (\<lambda>revision.
               map_err TargetPolicy
                 (TargetBinding_new revision (TargetBounds_clamp bounds (bd_target (binding c))) bounds)) of
               Err e \<Rightarrow> (Err e, c)
             | Ok b \<Rightarrow> (Ok b, reset_sample (c\<lparr>binding := b\<rparr>)))
          else (Ok (binding c), c))"

text \<open>\<open>u128::abs_diff\<close>.\<close>

definition abs_diff :: "'a::len word \<Rightarrow> 'a word \<Rightarrow> 'a word" where
  "abs_diff a b = (if a < b then b - a else a - b)"

text \<open>The tail both retargeting methods share: install the next revision and restart the sample.\<close>

definition install_target ::
  "vardiff_controller \<Rightarrow> share_target \<Rightarrow> u64 \<Rightarrow> (vardiff_error, vardiff_update) result \<times> vardiff_controller" where
  "install_target c next_target now_ms =
     (let previous = binding c in
      if next_target = bd_target previous then (Ok (Unchanged previous), reset_sample_at c now_ms)
      else case next_revision c of
          Err e \<Rightarrow> (Err e, c)
        | Ok revision \<Rightarrow>
           (case map_err TargetPolicy (TargetBinding_new revision next_target (bd_bounds previous)) of
              Err e \<Rightarrow> (Err e, c)
            | Ok b \<Rightarrow> (Ok (Changed previous b), reset_sample_at (c\<lparr>binding := b\<rparr>) now_ms)))"

definition observe_share ::
  "vardiff_controller \<Rightarrow> target_binding \<Rightarrow> u64 \<Rightarrow> (vardiff_error, vardiff_update) result \<times> vardiff_controller" where
  "observe_share c submitted_binding now_ms =
     (if submitted_binding \<noteq> binding c then (Ok IgnoredStaleBinding, c)
      else if (case last_now_ms c of Some earlier \<Rightarrow> now_ms < earlier | None \<Rightarrow> False) then (Err ClockMovedBackwards, c)
      else let c = c\<lparr>last_now_ms := Some now_ms\<rparr> in
      case window_start_ms c of
        None \<Rightarrow> (Ok (Sampling 0 (sample_intervals (config c))), c\<lparr>window_start_ms := Some now_ms\<rparr>)
      | Some window_start \<Rightarrow>
      (case checked_add (observed_intervals c) 1 of
        None \<Rightarrow> (Err SampleCounterOverflow, c)
      | Some observed \<Rightarrow>
      let c = c\<lparr>observed_intervals := observed\<rparr> in
      if observed < sample_intervals (config c) then
        (Ok (Sampling observed (sample_intervals (config c))), c)
      else
      (case checked_sub now_ms window_start of
        None \<Rightarrow> (Err ClockMovedBackwards, c)
      | Some elapsed_ms \<Rightarrow>
      let expected_ms = ucast (sample_window_ms (config c)) :: u128;
          elapsed = ucast elapsed_ms :: u128;
          delta = abs_diff elapsed expected_ms;
          inside_hysteresis = delta * BASIS_POINTS \<le> expected_ms * ucast (hysteresis_bps (config c))
      in if inside_hysteresis then (Ok (Unchanged (binding c)), reset_sample_at c now_ms)
      else
      let previous = binding c;
          factor = ucast (maximum_adjustment_factor (config c)) :: u64;
          raw = scale_target (bd_target previous) elapsed_ms expected_ms;
          hardest_step = divide_target (bd_target previous) factor;
          easiest_step = multiply_target (bd_target previous) factor;
          stepped = ord_clamp raw hardest_step easiest_step
      in install_target c (TargetBounds_clamp (bd_bounds previous) stepped) now_ms)))"

definition tick ::
  "vardiff_controller \<Rightarrow> u64 \<Rightarrow> (vardiff_error, vardiff_update) result \<times> vardiff_controller" where
  "tick c now_ms =
     (if (case last_now_ms c of Some earlier \<Rightarrow> now_ms < earlier | None \<Rightarrow> False) then (Err ClockMovedBackwards, c)
      else let c = c\<lparr>last_now_ms := Some now_ms\<rparr>;
               sampling = Sampling (observed_intervals c) (sample_intervals (config c)) in
      case window_start_ms c of
        None \<Rightarrow> (Ok sampling, c\<lparr>window_start_ms := Some now_ms\<rparr>)
      | Some window_start \<Rightarrow>
      (case checked_sub now_ms window_start of
        None \<Rightarrow> (Err ClockMovedBackwards, c)
      | Some elapsed_ms \<Rightarrow>
      let expected_ms = ucast (sample_window_ms (config c)) :: u128;
          elapsed = ucast elapsed_ms :: u128
      in if elapsed \<le> expected_ms \<or>
            (elapsed - expected_ms) * BASIS_POINTS \<le> expected_ms * ucast (hysteresis_bps (config c))
      then (Ok sampling, c)
      else
      let previous = binding c;
          raw = scale_target (bd_target previous) elapsed_ms expected_ms;
          easiest_step = multiply_target (bd_target previous) (ucast (maximum_adjustment_factor (config c)))
      in install_target c
           (TargetBounds_clamp (bd_bounds previous) (ord_clamp raw (bd_target previous) easiest_step)) now_ms))"

section \<open>The controller's invariant\<close>

definition wf_config :: "vardiff_config \<Rightarrow> bool" where
  "wf_config cfg \<longleftrightarrow> MINIMUM_SAMPLE_INTERVALS \<le> sample_intervals cfg \<and>
     MINIMUM_SAMPLE_WINDOW_MS \<le> sample_window_ms cfg \<and>
     MINIMUM_HYSTERESIS_BPS \<le> hysteresis_bps cfg \<and> unat (hysteresis_bps cfg) < 10000 \<and>
     1 \<le> maximum_adjustment_factor cfg \<and> maximum_adjustment_factor cfg \<le> MAXIMUM_ADJUSTMENT_FACTOR \<and>
     wf_target (operator_easiest cfg)"

text \<open>A sample window never starts after the last observation, so its length never underflows.\<close>

definition wf_controller :: "vardiff_controller \<Rightarrow> bool" where
  "wf_controller c \<longleftrightarrow> wf_config (config c) \<and> wf_binding (binding c) \<and>
     tb_easiest_allowed (bd_bounds (binding c)) = operator_easiest (config c) \<and>
     (case window_start_ms c of
        None \<Rightarrow> True
      | Some start \<Rightarrow> (case last_now_ms c of None \<Rightarrow> False | Some now \<Rightarrow> start \<le> now))"

lemma VardiffConfig_new_wf:
  assumes "VardiffConfig_new i n h f e = Ok cfg" "wf_target e"
  shows "wf_config cfg"
proof -
  have "(ucast BASIS_POINTS :: u16) = 10000" by (simp add: vardiff_consts)
  then have "h < ucast BASIS_POINTS \<longleftrightarrow> unat h < 10000" by (simp add: word_less_nat_alt)
  with assms show ?thesis
    by (auto simp: VardiffConfig_new_def wf_config_def not_less split: if_splits)
qed

lemma wf_config_factor:
  assumes "wf_config cfg"
  shows "1 \<le> unat (ucast (maximum_adjustment_factor cfg) :: u64)" and
    "unat (ucast (maximum_adjustment_factor cfg) :: u64) = unat (maximum_adjustment_factor cfg)" and
    "unat (maximum_adjustment_factor cfg) \<le> 4" and "(ucast (maximum_adjustment_factor cfg) :: u64) \<noteq> 0"
proof -
  show u: "unat (ucast (maximum_adjustment_factor cfg) :: u64) = unat (maximum_adjustment_factor cfg)"
    by (simp add: unat_ucast_up)
  show "unat (maximum_adjustment_factor cfg) \<le> 4"
    using assms by (simp add: wf_config_def vardiff_consts word_le_nat_alt)
  show "1 \<le> unat (ucast (maximum_adjustment_factor cfg) :: u64)"
    using assms unfolding u by (simp add: wf_config_def word_le_nat_alt)
  then show "(ucast (maximum_adjustment_factor cfg) :: u64) \<noteq> 0" by auto
qed

lemma wf_config_window:
  assumes "wf_config cfg"
  shows "unat (ucast (sample_window_ms cfg) :: u128) = unat (sample_window_ms cfg)"
    and "(ucast (sample_window_ms cfg) :: u128) \<noteq> 0"
proof -
  show u: "unat (ucast (sample_window_ms cfg) :: u128) = unat (sample_window_ms cfg)"
    by (simp add: unat_ucast_up)
  have "60000 \<le> unat (sample_window_ms cfg)"
    using assms by (simp add: wf_config_def vardiff_consts word_le_nat_alt)
  with u show "(ucast (sample_window_ms cfg) :: u128) \<noteq> 0" by (metis not_numeral_le_zero unat_0)
qed

text \<open>The one-step limits bracket the current target, so both \<open>clamp\<close> calls have ordered arguments.\<close>

lemma divide_target_le:
  assumes "wf_target t" "f \<noteq> 0"
  shows "divide_target t f \<le> t"
proof -
  have "max 1 (target_val t div unat f) \<le> target_val t"
    using assms(1) by (simp add: wf_target_def)
  then show ?thesis
    using assms by (simp add: target_le_iff divide_target_spec)
qed

lemma multiply_target_ge:
  assumes "wf_target t" "1 \<le> unat f"
  shows "t \<le> multiply_target t f"
proof -
  have "target_val t \<le> target_val t * unat f" using assms(2) by simp
  moreover have "target_val t \<le> 2 ^ 256 - 1" using target_val_bound [OF assms(1)] by simp
  ultimately show ?thesis
    using assms by (simp add: target_le_iff multiply_target_spec le_max_iff_disj)
qed

text \<open>Clamping a step to bounds that contain the current target keeps it inside the step.\<close>

lemma clamp_within_step:
  assumes "TargetBounds_contains b t" "lo \<le> t" "t \<le> hi"
  shows "lo \<le> TargetBounds_clamp b (ord_clamp x lo hi)" "TargetBounds_clamp b (ord_clamp x lo hi) \<le> hi"
  using assms by (auto simp: TargetBounds_contains_def TargetBounds_clamp_def ord_clamp_def)

lemma install_target_wf:
  assumes "wf_controller c" "last_now_ms c = Some now" "wf_target t" "TargetBounds_contains (bd_bounds (binding c)) t"
  shows "wf_controller (snd (install_target c t now))"
  using assms
  by (auto simp: install_target_def wf_controller_def reset_sample_at_def TargetBinding_new_def
      next_revision_def wf_binding_def Let_def split: result.splits option.splits)

lemma install_target_result:
  assumes "TargetBounds_contains (bd_bounds (binding c)) t"
  shows "install_target c t now =
    (if t = bd_target (binding c) then (Ok (Unchanged (binding c)), reset_sample_at c now)
     else case checked_add (bd_revision (binding c)) 1 of
         None \<Rightarrow> (Err RevisionOverflow, c)
       | Some r \<Rightarrow> let b = \<lparr>bd_revision = r, bd_target = t, bd_bounds = bd_bounds (binding c)\<rparr>
           in (Ok (Changed (binding c) b), reset_sample_at (c\<lparr>binding := b\<rparr>) now))"
  using assms
  by (auto simp: install_target_def next_revision_def TargetBinding_new_def Let_def split: option.splits)

text \<open>The hysteresis test is exact: no product of the \<open>u128\<close> comparison wraps.\<close>

definition nat_diff :: "nat \<Rightarrow> nat \<Rightarrow> nat" where
  "nat_diff a b = (if a < b then b - a else a - b)"

lemma unat_abs_diff: "unat (abs_diff a b) = nat_diff (unat a) (unat b)"
  by (auto simp: abs_diff_def nat_diff_def unat_sub word_less_nat_alt word_le_nat_alt)

lemma hysteresis_exact:
  fixes e w :: u64 and h :: u16
  shows "abs_diff (ucast e :: u128) (ucast w) * BASIS_POINTS \<le> ucast w * ucast h \<longleftrightarrow>
    nat_diff (unat e) (unat w) * 10000 \<le> unat w * unat h"
proof -
  have u: "unat (ucast x :: u128) = unat x" for x :: u64 by (simp add: unat_ucast_up)
  have uh: "unat (ucast h :: u128) = unat h" by (simp add: unat_ucast_up)
  have e: "unat e < 2 ^ 64" and w: "unat w < 2 ^ 64" and h: "unat h < 2 ^ 16"
    using unat_bound [of e] unat_bound [of w] unat_bound [of h] by simp_all
  have "nat_diff (unat e) (unat w) < 2 ^ 64" using e w by (simp add: nat_diff_def less_imp_diff_less)
  then have "nat_diff (unat e) (unat w) * 10000 < 2 ^ 128" by simp
  then have l: "unat (abs_diff (ucast e :: u128) (ucast w) * BASIS_POINTS) = nat_diff (unat e) (unat w) * 10000"
    by (subst unat_mult_of_less) (simp_all add: unat_abs_diff u vardiff_consts)
  have "unat w * unat h < 2 ^ 64 * 2 ^ 16" using w h by (intro mult_strict_mono) simp_all
  then have "unat w * unat h < 2 ^ 128" by simp
  then have r: "unat (ucast w * ucast h :: u128) = unat w * unat h"
    by (subst unat_mult_of_less) (simp_all add: u uh)
  show ?thesis by (simp add: word_le_nat_alt l r)
qed

lemma tick_hysteresis_exact:
  fixes e w :: u64 and h :: u16
  shows "((ucast e :: u128) \<le> ucast w \<or> (ucast e - ucast w) * BASIS_POINTS \<le> (ucast w :: u128) * ucast h) \<longleftrightarrow>
    unat e \<le> unat w \<or> (unat e - unat w) * 10000 \<le> unat w * unat h"
proof (cases "unat e \<le> unat w")
  case True
  then show ?thesis by (simp add: word_le_nat_alt unat_ucast_up)
next
  case False
  then have "\<not> (ucast e :: u128) \<le> ucast w" "\<not> (ucast e :: u128) < ucast w"
    by (simp_all add: word_le_nat_alt word_less_nat_alt unat_ucast_up)
  with False show ?thesis
    using hysteresis_exact [of e w h] by (simp add: abs_diff_def nat_diff_def)
qed

definition within_step :: "vardiff_controller \<Rightarrow> share_target \<Rightarrow> bool" where
  "within_step c t \<longleftrightarrow> wf_target t \<and> TargetBounds_contains (bd_bounds (binding c)) t \<and>
     divide_target (bd_target (binding c)) (ucast (maximum_adjustment_factor (config c))) \<le> t \<and>
     t \<le> multiply_target (bd_target (binding c)) (ucast (maximum_adjustment_factor (config c)))"

text \<open>Both retargeting methods either leave the binding alone or install one bounded step.\<close>

lemma observed_within_step:
  assumes "wf_controller c" "lo = divide_target (bd_target (binding c)) (ucast (maximum_adjustment_factor (config c)))
      \<or> lo = bd_target (binding c)"
  shows "within_step c (TargetBounds_clamp (bd_bounds (binding c))
    (ord_clamp (scale_target (bd_target (binding c)) e (ucast (sample_window_ms (config c)))) lo
      (multiply_target (bd_target (binding c)) (ucast (maximum_adjustment_factor (config c))))))"
    (is "within_step c (TargetBounds_clamp ?b (ord_clamp ?raw lo ?hi))")
proof -
  let ?t = "bd_target (binding c)" and ?f = "ucast (maximum_adjustment_factor (config c)) :: u64"
  from assms(1) have cfg: "wf_config (config c)" and b: "wf_target ?t" "wf_bounds ?b" "TargetBounds_contains ?b ?t"
    by (simp_all add: wf_controller_def wf_binding_def)
  note f = wf_config_factor [OF cfg]
  have lo: "divide_target ?t ?f \<le> lo" "lo \<le> ?t" "wf_target lo"
    using assms(2) b(1) f(4) by (auto simp: divide_target_le divide_target_spec)
  have hi: "?t \<le> ?hi" "wf_target ?hi"
    using b(1) f(1) by (simp_all add: multiply_target_ge multiply_target_spec)
  have raw: "wf_target ?raw" by (rule scale_target_spec(1) [OF b(1) wf_config_window(2) [OF cfg]])
  show ?thesis
    using clamp_within_step [OF b(3) lo(2) hi(1), of ?raw] lo hi raw b
    by (auto simp: within_step_def TargetBounds_clamp_wf wf_target_clamp TargetBounds_clamp_contains)
qed

text \<open>The method on each path through its guards, with the hysteresis test read as integers.\<close>

definition retarget_target :: "vardiff_controller \<Rightarrow> u64 \<Rightarrow> share_target" where
  "retarget_target c e = TargetBounds_clamp (bd_bounds (binding c))
     (ord_clamp (scale_target (bd_target (binding c)) e (ucast (sample_window_ms (config c))))
       (divide_target (bd_target (binding c)) (ucast (maximum_adjustment_factor (config c))))
       (multiply_target (bd_target (binding c)) (ucast (maximum_adjustment_factor (config c)))))"

definition clock_ok :: "vardiff_controller \<Rightarrow> u64 \<Rightarrow> bool" where
  "clock_ok c now \<longleftrightarrow> (case last_now_ms c of None \<Rightarrow> True | Some l \<Rightarrow> l \<le> now)"

definition outside_hysteresis :: "vardiff_config \<Rightarrow> nat \<Rightarrow> bool" where
  "outside_hysteresis cfg e \<longleftrightarrow>
     unat (sample_window_ms cfg) * unat (hysteresis_bps cfg)
       < nat_diff e (unat (sample_window_ms cfg)) * 10000"

lemma observe_share_early:
  "b \<noteq> binding c \<Longrightarrow> observe_share c b now = (Ok IgnoredStaleBinding, c)"
  "\<not> clock_ok c now \<Longrightarrow> observe_share c (binding c) now = (Err ClockMovedBackwards, c)"
  "clock_ok c now \<Longrightarrow> window_start_ms c = None \<Longrightarrow> observe_share c (binding c) now =
     (Ok (Sampling 0 (sample_intervals (config c))), c\<lparr>last_now_ms := Some now, window_start_ms := Some now\<rparr>)"
  "clock_ok c now \<Longrightarrow> window_start_ms c = Some w \<Longrightarrow> checked_add (observed_intervals c) 1 = None \<Longrightarrow>
     observe_share c (binding c) now = (Err SampleCounterOverflow, c\<lparr>last_now_ms := Some now\<rparr>)"
  by (auto simp: observe_share_def clock_ok_def Let_def split: option.splits)

lemma observe_share_counted:
  assumes "clock_ok c now" "window_start_ms c = Some w" "checked_add (observed_intervals c) 1 = Some n"
    "checked_sub now w = Some e"
  shows "observe_share c (binding c) now =
    (let c' = c\<lparr>last_now_ms := Some now, observed_intervals := n\<rparr> in
     if n < sample_intervals (config c) then (Ok (Sampling n (sample_intervals (config c))), c')
     else if \<not> outside_hysteresis (config c) (unat e) then (Ok (Unchanged (binding c)), reset_sample_at c' now)
     else install_target c' (retarget_target c e) now)"
  using assms
  by (auto simp: observe_share_def clock_ok_def Let_def hysteresis_exact retarget_target_def
      outside_hysteresis_def not_less split: option.splits)

lemma clock_ok_wf: "wf_controller c \<Longrightarrow> clock_ok c now \<Longrightarrow> wf_controller (c\<lparr>last_now_ms := Some now\<rparr>)"
  by (auto simp: wf_controller_def clock_ok_def split: option.splits)

lemma wf_controller_observed [simp]:
  "wf_controller (c\<lparr>observed_intervals := n\<rparr>) \<longleftrightarrow> wf_controller c"
  "wf_controller (c\<lparr>last_now_ms := Some now, window_start_ms := Some now\<rparr>) \<longleftrightarrow>
     wf_config (config c) \<and> wf_binding (binding c) \<and>
     tb_easiest_allowed (bd_bounds (binding c)) = operator_easiest (config c)"
  by (auto simp: wf_controller_def split: option.splits)

lemma window_elapsed:
  assumes "wf_controller c" "clock_ok c now" "window_start_ms c = Some w"
  obtains e where "checked_sub now w = Some e" "w \<le> now" "unat e = unat now - unat w"
proof -
  have "w \<le> now" using assms by (auto simp: wf_controller_def clock_ok_def split: option.splits)
  then show thesis using that [of "now - w"] by (simp add: checked_sub_def unat_sub)
qed

definition quiet_outcome ::
  "vardiff_controller \<Rightarrow> (vardiff_error, vardiff_update) result \<times> vardiff_controller \<Rightarrow> bool" where
  "quiet_outcome c out \<longleftrightarrow> wf_controller (snd out) \<and> binding (snd out) = binding c \<and> config (snd out) = config c \<and>
     (case fst out of Err e \<Rightarrow> e \<in> {ClockMovedBackwards, SampleCounterOverflow} | Ok u \<Rightarrow> (\<forall>p q. u \<noteq> Changed p q))"

lemma quiet_reset:
  "wf_controller c \<Longrightarrow> last_now_ms c = Some now \<Longrightarrow> wf_controller (reset_sample_at c now)"
  by (simp add: wf_controller_def reset_sample_at_def split: option.splits)

lemma observe_share_cases:
  assumes "wf_controller c"
  obtains (quiet) "quiet_outcome c (observe_share c b now)"
  | (install) n w e where
      "observe_share c b now =
         install_target (c\<lparr>last_now_ms := Some now, observed_intervals := n\<rparr>) (retarget_target c e) now"
      "b = binding c" "clock_ok c now" "window_start_ms c = Some w" "w \<le> now" "unat e = unat now - unat w"
      "unat (sample_intervals (config c)) \<le> unat (observed_intervals c) + 1" "outside_hysteresis (config c) (unat e)"
proof (cases "b = binding c \<and> clock_ok c now \<and> window_start_ms c \<noteq> None \<and> checked_add (observed_intervals c) 1 \<noteq> None")
  case False
  have "quiet_outcome c (observe_share c b now)"
  proof (cases "b = binding c \<and> clock_ok c now")
    case True
    then show ?thesis
      using False assms clock_ok_wf [of c now]
      by (cases "window_start_ms c") (auto simp: quiet_outcome_def observe_share_early wf_controller_def)
  next
    case False
    then show ?thesis
      using assms by (cases "b = binding c") (auto simp: quiet_outcome_def observe_share_early)
  qed
  then show thesis by (rule quiet)
next
  case True
  then obtain w n where w: "window_start_ms c = Some w" and n: "checked_add (observed_intervals c) 1 = Some n"
    and ok: "clock_ok c now" and b: "b = binding c" by auto
  obtain e where e: "checked_sub now w = Some e" "w \<le> now" "unat e = unat now - unat w"
    by (rule window_elapsed [OF assms ok w])
  have wf: "wf_controller (c\<lparr>last_now_ms := Some now, observed_intervals := n\<rparr>)"
    using clock_ok_wf [OF assms ok] by simp
  note eq = observe_share_counted [OF ok w n e(1)]
  show thesis
  proof (cases "sample_intervals (config c) \<le> n \<and> outside_hysteresis (config c) (unat e)")
    case False
    then have "quiet_outcome c (observe_share c b now)"
      using wf quiet_reset [OF wf, of now] unfolding b eq
      by (auto simp: quiet_outcome_def Let_def reset_sample_at_def not_le)
    then show thesis by (rule quiet)
  next
    case True
    then have "observe_share c b now =
        install_target (c\<lparr>last_now_ms := Some now, observed_intervals := n\<rparr>) (retarget_target c e) now"
      unfolding b eq by (simp add: Let_def not_less [symmetric])
    moreover from n have "unat n = unat (observed_intervals c) + 1" by (simp add: checked_add_Some)
    ultimately show thesis
      using True b ok w e by (intro install [of n e w]) (simp_all add: word_le_nat_alt)
  qed
qed

definition tick_target :: "vardiff_controller \<Rightarrow> u64 \<Rightarrow> share_target" where
  "tick_target c e = TargetBounds_clamp (bd_bounds (binding c))
     (ord_clamp (scale_target (bd_target (binding c)) e (ucast (sample_window_ms (config c))))
       (bd_target (binding c))
       (multiply_target (bd_target (binding c)) (ucast (maximum_adjustment_factor (config c)))))"

lemma tick_early:
  "\<not> clock_ok c now \<Longrightarrow> tick c now = (Err ClockMovedBackwards, c)"
  "clock_ok c now \<Longrightarrow> window_start_ms c = None \<Longrightarrow> tick c now =
     (Ok (Sampling (observed_intervals c) (sample_intervals (config c))),
      c\<lparr>last_now_ms := Some now, window_start_ms := Some now\<rparr>)"
  by (auto simp: tick_def clock_ok_def Let_def split: option.splits)

lemma tick_sampled:
  assumes "clock_ok c now" "window_start_ms c = Some w" "checked_sub now w = Some e"
  shows "tick c now =
    (let c' = c\<lparr>last_now_ms := Some now\<rparr> in
     if unat e \<le> unat (sample_window_ms (config c)) \<or> \<not> outside_hysteresis (config c) (unat e)
     then (Ok (Sampling (observed_intervals c) (sample_intervals (config c))), c')
     else install_target c' (tick_target c e) now)"
  using assms
  by (auto simp: tick_def clock_ok_def Let_def tick_hysteresis_exact tick_target_def
      outside_hysteresis_def nat_diff_def not_less split: option.splits)

lemma tick_cases:
  assumes "wf_controller c"
  obtains (quiet) "quiet_outcome c (tick c now)"
  | (install) w e where "tick c now = install_target (c\<lparr>last_now_ms := Some now\<rparr>) (tick_target c e) now"
      "clock_ok c now" "window_start_ms c = Some w" "w \<le> now" "unat e = unat now - unat w"
      "unat (sample_window_ms (config c)) < unat e" "outside_hysteresis (config c) (unat e)"
proof (cases "clock_ok c now \<and> window_start_ms c \<noteq> None")
  case False
  then have "quiet_outcome c (tick c now)"
    using assms by (cases "clock_ok c now") (auto simp: quiet_outcome_def tick_early wf_controller_def)
  then show thesis by (rule quiet)
next
  case True
  then obtain w where w: "window_start_ms c = Some w" and ok: "clock_ok c now" by auto
  obtain e where e: "checked_sub now w = Some e" "w \<le> now" "unat e = unat now - unat w"
    by (rule window_elapsed [OF assms ok w])
  note eq = tick_sampled [OF ok w e(1)]
  show thesis
  proof (cases "unat (sample_window_ms (config c)) < unat e \<and> outside_hysteresis (config c) (unat e)")
    case False
    then have "quiet_outcome c (tick c now)"
      using clock_ok_wf [OF assms ok] unfolding eq by (auto simp: quiet_outcome_def Let_def)
    then show thesis by (rule quiet)
  next
    case True
    then have "tick c now = install_target (c\<lparr>last_now_ms := Some now\<rparr>) (tick_target c e) now"
      unfolding eq by (simp add: Let_def not_less [symmetric])
    with True show thesis using ok w e by (intro install [of e w]) simp_all
  qed
qed

lemma retarget_within_step: "wf_controller c \<Longrightarrow> within_step c (retarget_target c e)"
  unfolding retarget_target_def by (rule observed_within_step) simp_all

lemma tick_within_step: "wf_controller c \<Longrightarrow> within_step c (tick_target c e)"
  unfolding tick_target_def by (rule observed_within_step) simp_all

section \<open>Reachable controllers\<close>

definition vardiff_start :: "vardiff_controller \<Rightarrow> bool" where
  "vardiff_start c \<longleftrightarrow> (\<exists>i n h f e cfg w z t r. VardiffConfig_new i n h f e = Ok cfg \<and>
     wf_target e \<and> wf_target w \<and> wf_target z \<and> wf_target t \<and> VardiffController_new cfg w z t r = Ok c)"

inductive vardiff_step :: "vardiff_controller \<Rightarrow> vardiff_controller \<Rightarrow> bool" where
  observe: "observe_share c b now = (r, c') \<Longrightarrow> vardiff_step c c'"
| tick: "tick c now = (r, c') \<Longrightarrow> vardiff_step c c'"
| rebind: "update_network_targets c w z = (r, c') \<Longrightarrow> wf_target w \<Longrightarrow> wf_target z \<Longrightarrow> vardiff_step c c'"

lemma VardiffController_new_wf:
  assumes "VardiffController_new cfg w z t r = Ok c" "wf_config cfg" "wf_target w" "wf_target z" "wf_target t"
  shows "wf_controller c"
proof -
  from assms(1) obtain bounds b where bounds: "TargetBounds_new w z (operator_easiest cfg) = Ok bounds"
    and b: "TargetBinding_new r (TargetBounds_clamp bounds t) bounds = Ok b"
    and c: "c = \<lparr>config = cfg, binding = b, window_start_ms = None, observed_intervals = 0, last_now_ms = None\<rparr>"
    by (auto simp: VardiffController_new_def)
  have "wf_bounds bounds" using TargetBounds_new_wf [OF bounds] assms by (simp add: wf_config_def)
  then have "wf_binding b" using TargetBinding_new_wf [OF b] assms(5) by (simp add: TargetBounds_clamp_wf)
  then show ?thesis
    using assms(2) bounds b c by (auto simp: wf_controller_def TargetBounds_new_Ok TargetBinding_new_Ok)
qed

lemma update_network_targets_cases:
  assumes "wf_controller c" "wf_target w" "wf_target z"
  obtains (quiet) r where "update_network_targets c w z = (r, c)"
    "r = Ok (binding c) \<or> r = Err RevisionOverflow \<or> (\<exists>e. r = Err (TargetPolicy e))"
  | (rebind) b where "update_network_targets c w z = (Ok b, reset_sample (c\<lparr>binding := b\<rparr>))"
      "wf_binding b" "unat (bd_revision b) = unat (bd_revision (binding c)) + 1"
      "tb_easiest_allowed (bd_bounds b) = operator_easiest (config c)"
proof (cases "TargetBounds_new w z (operator_easiest (config c))")
  case (Err e)
  then show thesis by (intro quiet [of "Err (TargetPolicy e)"]) (simp_all add: update_network_targets_def)
next
  case (Ok bounds)
  have wf: "wf_bounds bounds" using TargetBounds_new_wf [OF Ok] assms by (simp add: wf_controller_def wf_config_def)
  have easiest: "tb_easiest_allowed bounds = operator_easiest (config c)" using Ok by (simp add: TargetBounds_new_Ok)
  have t: "wf_target (bd_target (binding c))" using assms(1) by (simp add: wf_controller_def wf_binding_def)
  let ?t = "TargetBounds_clamp bounds (bd_target (binding c))"
  have contains: "TargetBounds_contains bounds ?t" by (rule TargetBounds_clamp_contains [OF wf])
  show thesis
  proof (cases "checked_add (bd_revision (binding c)) 1")
    case None
    with Ok show thesis
      by (intro quiet [of "if bounds = bd_bounds (binding c) then Ok (binding c) else Err RevisionOverflow"])
        (auto simp: update_network_targets_def next_revision_def)
  next
    case (Some r)
    let ?b = "\<lparr>bd_revision = r, bd_target = ?t, bd_bounds = bounds\<rparr>"
    have eq: "update_network_targets c w z =
        (if bounds = bd_bounds (binding c) then (Ok (binding c), c) else (Ok ?b, reset_sample (c\<lparr>binding := ?b\<rparr>)))"
      using Ok Some contains by (simp add: update_network_targets_def next_revision_def TargetBinding_new_def)
    have "wf_binding ?b" using contains wf t by (simp add: wf_binding_def TargetBounds_clamp_wf)
    moreover have "unat r = unat (bd_revision (binding c)) + 1" using Some by (simp add: checked_add_Some)
    ultimately show thesis
      using eq easiest quiet [of "Ok (binding c)"] rebind [of ?b] by (cases "bounds = bd_bounds (binding c)") simp_all
  qed
qed

text \<open>Revisions only grow, and a revision names one binding.\<close>

definition revision_le :: "vardiff_controller \<Rightarrow> vardiff_controller \<Rightarrow> bool" where
  "revision_le c c' \<longleftrightarrow> config c' = config c \<and> bd_revision (binding c) \<le> bd_revision (binding c') \<and>
     (bd_revision (binding c) = bd_revision (binding c') \<longrightarrow> binding c = binding c')"

lemma install_target_revision:
  assumes "TargetBounds_contains (bd_bounds (binding c)) t"
  shows "revision_le c (snd (install_target c t now))"
  unfolding install_target_result [OF assms]
  by (auto simp: revision_le_def reset_sample_at_def checked_add_Some word_le_nat_alt Let_def split: option.splits)

lemma quiet_revision: "quiet_outcome c out \<Longrightarrow> revision_le c (snd out)"
  by (simp add: quiet_outcome_def revision_le_def)

lemma retarget_install:
  assumes "wf_controller c" "clock_ok c now" "within_step c t"
  shows "wf_controller (snd (install_target (c\<lparr>last_now_ms := Some now, observed_intervals := n\<rparr>) t now)) \<and>
    revision_le c (snd (install_target (c\<lparr>last_now_ms := Some now, observed_intervals := n\<rparr>) t now))"
  using clock_ok_wf [OF assms(1,2)] assms(3)
    install_target_revision [of "c\<lparr>last_now_ms := Some now, observed_intervals := n\<rparr>" t now]
  by (auto simp: within_step_def revision_le_def intro!: install_target_wf)

lemma observe_share_step:
  assumes "wf_controller c"
  shows "wf_controller (snd (observe_share c b now)) \<and> revision_le c (snd (observe_share c b now))"
proof (rule observe_share_cases [OF assms, of b now])
  assume "quiet_outcome c (observe_share c b now)"
  then show ?thesis using quiet_revision quiet_outcome_def by blast
next
  fix n w e
  assume "observe_share c b now =
      install_target (c\<lparr>last_now_ms := Some now, observed_intervals := n\<rparr>) (retarget_target c e) now"
    and "clock_ok c now"
  then show ?thesis using retarget_install [OF assms _ retarget_within_step [OF assms]] by simp
qed

lemma tick_step:
  assumes "wf_controller c"
  shows "wf_controller (snd (tick c now)) \<and> revision_le c (snd (tick c now))"
proof (rule tick_cases [OF assms, of now])
  assume "quiet_outcome c (tick c now)"
  then show ?thesis using quiet_revision quiet_outcome_def by blast
next
  fix w e
  assume "tick c now = install_target (c\<lparr>last_now_ms := Some now\<rparr>) (tick_target c e) now" and "clock_ok c now"
  then show ?thesis
    using retarget_install [OF assms _ tick_within_step [OF assms], of now "observed_intervals c" e] by simp
qed

lemma update_network_targets_step:
  assumes "wf_controller c" "wf_target w" "wf_target z"
  shows "wf_controller (snd (update_network_targets c w z)) \<and> revision_le c (snd (update_network_targets c w z))"
  by (rule update_network_targets_cases [OF assms])
    (use assms(1) in \<open>auto simp: wf_controller_def revision_le_def reset_sample_def word_le_nat_alt\<close>)

lemma vardiff_step_facts:
  assumes "vardiff_step c c'" "wf_controller c"
  shows "wf_controller c' \<and> revision_le c c'"
  using assms
proof (induction rule: vardiff_step.induct)
  case (observe c b now r c')
  then show ?case using observe_share_step [of c b now] by simp
next
  case (tick c now r c')
  then show ?case using tick_step [of c now] by simp
next
  case (rebind c w z r c')
  then show ?case using update_network_targets_step [of c w z] by simp
qed

interpretation vardiff: monotone_system vardiff_start vardiff_step wf_controller revision_le
proof
  show "wf_controller c" if "vardiff_start c" for c
    using that VardiffController_new_wf VardiffConfig_new_wf by (fastforce simp: vardiff_start_def)
  show "wf_controller c'" if "vardiff_step c c'" "wf_controller c" for c c'
    using vardiff_step_facts that by blast
  show "revision_le c c" for c by (simp add: revision_le_def)
  show "revision_le c d" if "revision_le c c'" "revision_le c' d" for c c' d
    using that by (auto simp: revision_le_def)
  show "revision_le c c'" if "vardiff_step c c'" "wf_controller c" for c c'
    using vardiff_step_facts that by blast
qed

section \<open>What one retarget does\<close>

lemma install_target_Changed:
  assumes "install_target c t now = (Ok (Changed p q), c')" "TargetBounds_contains (bd_bounds (binding c)) t"
  shows "p = binding c" and "q = binding c'" and "bd_target q = t" and "t \<noteq> bd_target p"
    and "bd_bounds q = bd_bounds p" and "unat (bd_revision q) = unat (bd_revision p) + 1"
  using assms(1) unfolding install_target_result [OF assms(2)]
  by (auto simp: checked_add_Some reset_sample_at_def Let_def split: if_splits option.splits)

lemma within_step_val:
  assumes "wf_controller c" "within_step c t"
  shows "target_val (bd_target (binding c)) div unat (maximum_adjustment_factor (config c)) \<le> target_val t"
    and "target_val t \<le> target_val (bd_target (binding c)) * unat (maximum_adjustment_factor (config c))"
proof -
  let ?t = "bd_target (binding c)"
  from assms(1) have t: "wf_target ?t" and cfg: "wf_config (config c)"
    by (simp_all add: wf_controller_def wf_binding_def)
  note f = wf_config_factor [OF cfg] and d = divide_target_spec [OF t] and m = multiply_target_spec [OF t]
  from assms(2) have wf: "wf_target t" by (simp add: within_step_def)
  show "target_val ?t div unat (maximum_adjustment_factor (config c)) \<le> target_val t"
    using assms(2) f d wf by (simp add: within_step_def target_le_iff)
  have "1 \<le> target_val ?t * unat (maximum_adjustment_factor (config c))"
    using t f by (simp add: wf_target_def)
  then show "target_val t \<le> target_val ?t * unat (maximum_adjustment_factor (config c))"
    using assms(2) f m wf by (simp add: within_step_def target_le_iff)
qed

lemma scale_target_direction:
  assumes "wf_target t" "d \<noteq> 0"
  shows "unat m \<le> unat d \<Longrightarrow> scale_target t m d \<le> t" and "unat d \<le> unat m \<Longrightarrow> t \<le> scale_target t m d"
proof -
  have t: "1 \<le> target_val t" "target_val t \<le> 2 ^ 256 - 1"
    using assms(1) target_val_bound [OF assms(1)] by (simp_all add: wf_target_def)
  have d: "0 < unat d" using assms(2) by (simp add: unat_gt_0)
  note s = scale_target_spec [OF assms]
  show "scale_target t m d \<le> t" if "unat m \<le> unat d"
  proof -
    have "target_val t * unat m div unat d \<le> target_val t"
      using that by (metis d div_le_mono mult_le_mono2 nonzero_mult_div_cancel_right not_gr_zero)
    then show ?thesis using t assms(1) s by (simp add: target_le_iff min.coboundedI2)
  qed
  show "t \<le> scale_target t m d" if "unat d \<le> unat m"
  proof -
    have "target_val t \<le> target_val t * unat m div unat d"
      using that by (metis d div_le_mono mult_le_mono2 nonzero_mult_div_cancel_right not_gr_zero)
    then show ?thesis using t assms(1) s by (simp add: target_le_iff max.coboundedI2)
  qed
qed

lemma retarget_direction:
  assumes "wf_controller c"
  shows "unat e \<le> unat (sample_window_ms (config c)) \<Longrightarrow> retarget_target c e \<le> bd_target (binding c)"
    and "unat (sample_window_ms (config c)) \<le> unat e \<Longrightarrow> bd_target (binding c) \<le> retarget_target c e"
proof -
  from assms have t: "wf_target (bd_target (binding c))" and cfg: "wf_config (config c)"
    and b: "TargetBounds_contains (bd_bounds (binding c)) (bd_target (binding c))"
    by (simp_all add: wf_controller_def wf_binding_def)
  note f = wf_config_factor [OF cfg] and w = wf_config_window [OF cfg]
  note lo = divide_target_le [OF t f(4)] and hi = multiply_target_ge [OF t f(1)]
  note dir = scale_target_direction [OF t w(2), of e]
  show "retarget_target c e \<le> bd_target (binding c)" if "unat e \<le> unat (sample_window_ms (config c))"
    using dir(1) that w(1) lo b
    by (auto simp: retarget_target_def TargetBounds_clamp_def TargetBounds_contains_def ord_clamp_def)
  show "bd_target (binding c) \<le> retarget_target c e" if "unat (sample_window_ms (config c)) \<le> unat e"
    using dir(2) that w(1) hi b
    by (auto simp: retarget_target_def TargetBounds_clamp_def TargetBounds_contains_def ord_clamp_def)
qed

lemma tick_target_eases: "wf_controller c \<Longrightarrow> bd_target (binding c) \<le> tick_target c e"
  using multiply_target_ge [of "bd_target (binding c)" "ucast (maximum_adjustment_factor (config c))"]
    wf_config_factor(1) [of "config c"]
  by (auto simp: tick_target_def TargetBounds_clamp_def TargetBounds_contains_def ord_clamp_def
      wf_controller_def wf_binding_def)

section \<open>Properties\<close>

text \<open>C4 No reachable controller advertises a target that would reject a network winner or exceed the
  operator's load ceiling: the target is at least as easy as both network targets and at most
  the configured easiest target.\<close>

theorem vardiff_never_excludes_winner:
  assumes "reach vardiff_start vardiff_step c"
  shows "target_val (tb_wcash_network (bd_bounds (binding c))) \<le> target_val (bd_target (binding c)) \<and>
    target_val (tb_zcash_network (bd_bounds (binding c))) \<le> target_val (bd_target (binding c)) \<and>
    target_val (bd_target (binding c)) \<le> target_val (operator_easiest (config c))"
proof -
  from vardiff.reach_inv [OF assms] have "wf_binding (binding c)"
    and e: "tb_easiest_allowed (bd_bounds (binding c)) = operator_easiest (config c)"
    by (simp_all add: wf_controller_def)
  then have wf: "wf_target (bd_target (binding c))" "wf_bounds (bd_bounds (binding c))"
    and c: "TargetBounds_contains (bd_bounds (binding c)) (bd_target (binding c))"
    by (simp_all add: wf_binding_def)
  with e show ?thesis
    by (auto simp: wf_bounds_def TargetBounds_contains_def simp flip: target_le_iff)
qed

text \<open>A revision number identifies one immutable binding: along every run the revision never
  decreases, and two states with the same revision carry the same target and bounds.\<close>

lemma vardiff_revision_immutable:
  assumes "reach vardiff_start vardiff_step c" "vardiff_step\<^sup>*\<^sup>* c c'"
  shows "bd_revision (binding c) \<le> bd_revision (binding c') \<and>
    (bd_revision (binding c) = bd_revision (binding c') \<longrightarrow> binding c = binding c')"
  using vardiff.steps_le [OF assms(2) vardiff.reach_inv [OF assms(1)]] by (simp add: revision_le_def)

text \<open>C27 An accepted share retargets only with a full sample outside the hysteresis band and by one bounded
  step: the new target is within the configured factor of the old one and inside the network
  bounds, it is strictly harder when the sample was shorter than the window and strictly easier when
  it was longer, and it carries the next revision.\<close>

theorem observe_share_bounded_step:
  assumes "reach vardiff_start vardiff_step c" "observe_share c b now = (Ok (Changed p q), c')"
  shows "b = binding c \<and> p = binding c \<and> q = binding c' \<and>
    unat (bd_revision q) = unat (bd_revision p) + 1 \<and> bd_bounds q = bd_bounds p \<and>
    TargetBounds_contains (bd_bounds p) (bd_target q) \<and>
    target_val (bd_target p) div unat (maximum_adjustment_factor (config c)) \<le> target_val (bd_target q) \<and>
    target_val (bd_target q) \<le> target_val (bd_target p) * unat (maximum_adjustment_factor (config c)) \<and>
    unat (sample_intervals (config c)) \<le> unat (observed_intervals c) + 1 \<and>
    (\<exists>w. window_start_ms c = Some w \<and> w \<le> now \<and> outside_hysteresis (config c) (unat now - unat w) \<and>
      (if unat now - unat w \<le> unat (sample_window_ms (config c)) then bd_target q < bd_target p
       else bd_target p < bd_target q))"
proof -
  from assms(1) have wf: "wf_controller c" by (rule vardiff.reach_inv)
  show ?thesis
  proof (rule observe_share_cases [OF wf, of b now])
    assume "quiet_outcome c (observe_share c b now)"
    with assms(2) show ?thesis by (simp add: quiet_outcome_def)
  next
    fix n w e
    assume i: "observe_share c b now =
        install_target (c\<lparr>last_now_ms := Some now, observed_intervals := n\<rparr>) (retarget_target c e) now"
      and w: "b = binding c" "window_start_ms c = Some w" "w \<le> now" "unat e = unat now - unat w"
        "unat (sample_intervals (config c)) \<le> unat (observed_intervals c) + 1" "outside_hysteresis (config c) (unat e)"
    note step = retarget_within_step [OF wf, of e]
    then have "TargetBounds_contains (bd_bounds (binding c)) (retarget_target c e)" by (simp add: within_step_def)
    note q = install_target_Changed [OF i [symmetric, unfolded assms(2)], simplified, OF this]
    have "if unat now - unat w \<le> unat (sample_window_ms (config c)) then bd_target q < bd_target p
        else bd_target p < bd_target q"
      using q(1,3,4) w(4) retarget_direction [OF wf, of e] by (simp add: less_le)
    with w q step within_step_val [OF wf step] show ?thesis by (simp add: within_step_def)
  qed
qed

text \<open>A tick never makes a target harder: whatever it changes is strictly easier, by at most the
  configured factor and inside the bounds.\<close>

lemma tick_only_eases:
  assumes "reach vardiff_start vardiff_step c" "tick c now = (Ok (Changed p q), c')"
  shows "p = binding c \<and> q = binding c' \<and> bd_target p < bd_target q \<and>
    target_val (bd_target q) \<le> target_val (bd_target p) * unat (maximum_adjustment_factor (config c)) \<and>
    TargetBounds_contains (bd_bounds p) (bd_target q) \<and> unat (bd_revision q) = unat (bd_revision p) + 1"
proof -
  from assms(1) have wf: "wf_controller c" by (rule vardiff.reach_inv)
  show ?thesis
  proof (rule tick_cases [OF wf, of now])
    assume "quiet_outcome c (tick c now)"
    with assms(2) show ?thesis by (simp add: quiet_outcome_def)
  next
    fix w e
    assume i: "tick c now = install_target (c\<lparr>last_now_ms := Some now\<rparr>) (tick_target c e) now"
    note step = tick_within_step [OF wf, of e]
    then have "TargetBounds_contains (bd_bounds (binding c)) (tick_target c e)" by (simp add: within_step_def)
    note q = install_target_Changed [OF i [symmetric, unfolded assms(2)], simplified, OF this]
    have "bd_target p < bd_target q"
      using q(1,3,4) tick_target_eases [OF wf, of e] by (simp add: less_le)
    with q step within_step_val [OF wf step] show ?thesis by (simp add: within_step_def)
  qed
qed

lemma scale_target_strictly_eases:
  assumes "wf_target t" "wf_target hi" "t < hi" "d \<noteq> 0" "4 \<le> target_val t" "5 * unat d < 4 * unat m"
  shows "t < scale_target t m d"
proof -
  have d: "0 < unat d" using assms(4) by (simp add: unat_gt_0)
  have "4 * ((target_val t + 1) * unat d) \<le> target_val t * (5 * unat d)"
    using mult_le_mono1 [OF assms(5), of "unat d"] by (simp add: algebra_simps)
  also have "\<dots> \<le> target_val t * (4 * unat m)" using assms(6) by simp
  finally have "(target_val t + 1) * unat d \<le> target_val t * unat m" by simp
  then have "target_val t + 1 \<le> target_val t * unat m div unat d" using d by (simp add: less_eq_div_iff_mult_less_eq)
  moreover have "target_val t + 1 \<le> 2 ^ 256 - 1"
    using assms(1-3) target_val_bound [OF assms(2)] by (simp add: target_less_iff)
  ultimately have "target_val t + 1 \<le> target_val (scale_target t m d)"
    unfolding scale_target_spec(2) [OF assms(1,4)] by (intro max.coboundedI2 min.boundedI)
  then show ?thesis using scale_target_spec(1) [OF assms(1,4)] assms(1) by (simp add: target_less_iff)
qed

lemma multiply_target_strictly_eases:
  assumes "wf_target t" "wf_target hi" "t < hi" "2 \<le> unat f"
  shows "t < multiply_target t f"
proof -
  have "1 \<le> target_val t" using assms(1) by (simp add: wf_target_def)
  then have "target_val t + 1 \<le> target_val t * 2" by simp
  also have "\<dots> \<le> target_val t * unat f" using assms(4) by (rule mult_le_mono2)
  finally have "target_val t + 1 \<le> target_val t * unat f" .
  moreover have "target_val t + 1 \<le> 2 ^ 256 - 1"
    using assms(1-3) target_val_bound [OF assms(2)] by (simp add: target_less_iff)
  ultimately have "target_val t + 1 \<le> target_val (multiply_target t f)"
    unfolding multiply_target_spec(2) [OF assms(1)] by (intro max.coboundedI2 min.boundedI)
  then show ?thesis using multiply_target_spec(1) [OF assms(1)] assms(1) by (simp add: target_less_iff)
qed


lemma install_target_failure:
  assumes "TargetBounds_contains (bd_bounds (binding c)) t" "install_target c t now = (Err e, c')"
  shows "e = RevisionOverflow \<and> bd_revision (binding c) = - 1 \<and> c' = c"
  using assms(2) unfolding install_target_result [OF assms(1)]
  by (auto simp: Let_def checked_add_1_None split: if_splits option.splits)

lemma observe_share_failure:
  assumes "wf_controller c" "observe_share c b now = (Err e, c')"
  shows "binding c' = binding c \<and>
    (e = ClockMovedBackwards \<and> \<not> clock_ok c now \<or> e = SampleCounterOverflow \<and> observed_intervals c = - 1 \<or>
     e = RevisionOverflow \<and> bd_revision (binding c) = - 1)"
proof (cases "b = binding c \<and> clock_ok c now \<and> window_start_ms c \<noteq> None \<and> checked_add (observed_intervals c) 1 \<noteq> None")
  case False
  with assms(2) show ?thesis
    by (cases "b = binding c"; cases "clock_ok c now"; cases "window_start_ms c")
      (auto simp: observe_share_early checked_add_1_None)
next
  case True
  then obtain w n where w: "window_start_ms c = Some w" and n: "checked_add (observed_intervals c) 1 = Some n"
    and ok: "clock_ok c now" and b: "b = binding c" by auto
  obtain d where d: "checked_sub now w = Some d" by (rule window_elapsed [OF assms(1) ok w])
  have "TargetBounds_contains (bd_bounds (binding c)) (retarget_target c d)"
    using retarget_within_step [OF assms(1)] by (simp add: within_step_def)
  then show ?thesis
    using assms(2) install_target_failure [of "c\<lparr>last_now_ms := Some now, observed_intervals := n\<rparr>" "retarget_target c d" now e c']
    unfolding b observe_share_counted [OF ok w n d] by (auto simp: Let_def split: if_splits)
qed

lemma tick_failure:
  assumes "wf_controller c" "tick c now = (Err e, c')"
  shows "binding c' = binding c \<and>
    (e = ClockMovedBackwards \<and> \<not> clock_ok c now \<or> e = RevisionOverflow \<and> bd_revision (binding c) = - 1)"
proof (cases "clock_ok c now \<and> window_start_ms c \<noteq> None")
  case False
  with assms(2) show ?thesis by (cases "clock_ok c now"; cases "window_start_ms c") (auto simp: tick_early)
next
  case True
  then obtain w where w: "window_start_ms c = Some w" and ok: "clock_ok c now" by auto
  obtain d where d: "checked_sub now w = Some d" by (rule window_elapsed [OF assms(1) ok w])
  have "TargetBounds_contains (bd_bounds (binding c)) (tick_target c d)"
    using tick_within_step [OF assms(1)] by (simp add: within_step_def)
  then show ?thesis
    using assms(2) install_target_failure [of "c\<lparr>last_now_ms := Some now\<rparr>" "tick_target c d" now e c']
    unfolding tick_sampled [OF ok w d] by (auto simp: Let_def split: if_splits)
qed

text \<open>The retargeting methods fail only for a clock that moved backwards or an exhausted counter,
  never with a policy error or a window underflow, and a failure leaves the advertised binding.\<close>

lemma vardiff_failures:
  assumes "reach vardiff_start vardiff_step c"
  shows "(case observe_share c b now of (Ok u, c') \<Rightarrow> True | (Err e, c') \<Rightarrow> binding c' = binding c \<and>
      (e = ClockMovedBackwards \<and> \<not> clock_ok c now \<or> e = SampleCounterOverflow \<and> observed_intervals c = - 1 \<or>
       e = RevisionOverflow \<and> bd_revision (binding c) = - 1)) \<and>
    (case tick c now of (Ok u, c') \<Rightarrow> True | (Err e, c') \<Rightarrow> binding c' = binding c \<and>
      (e = ClockMovedBackwards \<and> \<not> clock_ok c now \<or> e = RevisionOverflow \<and> bd_revision (binding c) = - 1))"
  using observe_share_failure [of c b now] tick_failure [of c now] vardiff.reach_inv [OF assms]
  by (auto split: prod.splits result.splits)

section \<open>A concrete controller\<close>

definition example_config :: vardiff_config where
  "example_config = \<lparr>sample_intervals = 8, sample_window_ms = 80000, hysteresis_bps = 2500,
     maximum_adjustment_factor = 4, operator_easiest = example_target 200\<rparr>"

definition example_controller :: vardiff_controller where
  "example_controller = \<lparr>config = example_config,
     binding = \<lparr>bd_revision = 7, bd_target = example_target 100,
       bd_bounds = \<lparr>tb_wcash_network = example_target 9, tb_zcash_network = example_target 5,
         tb_hardest_allowed = example_target 9, tb_easiest_allowed = example_target 200\<rparr>\<rparr>,
     window_start_ms = None, observed_intervals = 0, last_now_ms = None\<rparr>"

lemma vardiff_start_example: "vardiff_start example_controller"
proof -
  have "VardiffConfig_new 10000 8 2500 4 (example_target 200) = Ok example_config" by code_simp
  moreover have "VardiffController_new example_config (example_target 9) (example_target 5) (example_target 100) 7
      = Ok example_controller" by code_simp
  ultimately show ?thesis
    unfolding vardiff_start_def using wf_example_target [of 200] wf_example_target [of 9] wf_example_target [of 5]
      wf_example_target [of 100] by fastforce
qed

text \<open>Running the controller from its start state: eight shares 2.5 s apart, each for the current binding.\<close>

definition observe_at :: "vardiff_controller \<Rightarrow> u64 \<Rightarrow> vardiff_controller" where
  "observe_at c now = snd (observe_share c (binding c) now)"

definition example_fast :: vardiff_controller where
  "example_fast = foldl observe_at example_controller [0, 2500, 5000, 7500, 10000, 12500, 15000, 17500]"

lemma observe_at_steps: "vardiff_step\<^sup>*\<^sup>* c (foldl observe_at c nows)"
proof (induction nows rule: rev_induct)
  case (snoc now nows)
  have "vardiff_step (foldl observe_at c nows) (observe_at (foldl observe_at c nows) now)"
    unfolding observe_at_def by (rule vardiff_step.observe [OF prod.collapse [symmetric]])
  with snoc show ?case by simp
qed simp

lemma reach_example: "reach vardiff_start vardiff_step (foldl observe_at example_controller nows)"
proof -
  have "reach vardiff_start vardiff_step example_controller" by (rule reach.start) (rule vardiff_start_example)
  then show ?thesis using observe_at_steps by (rule reach_steps)
qed

lemma example_fast_eq:
  "example_fast = example_controller\<lparr>window_start_ms := Some 0, observed_intervals := 7, last_now_ms := Some 17500\<rparr>"
  by code_simp

lemma example_scaled:
  "scale_target (example_target 100) 20000 80000 = example_target 25" (is ?scaled)
  "divide_target (example_target 100) 4 = example_target 25" (is ?divided)
proof -
  have t: "wf_target (example_target 100)" "wf_target (example_target 25)" by (simp_all add: wf_example_target)
  show ?scaled
    by (rule target_val_inj) (use t scale_target_spec [OF t(1), of 80000 20000] in \<open>simp_all add: target_val_example\<close>)
  show ?divided
    by (rule target_val_inj) (use t divide_target_spec [OF t(1), of 4] in \<open>simp_all add: target_val_example\<close>)
qed

theorem vardiff_never_excludes_winner_witness:
  "target_val (tb_wcash_network (bd_bounds (binding example_controller))) \<le> target_val (bd_target (binding example_controller))"
  using vardiff_never_excludes_winner [OF reach_example [of "[]"]] by simp

lemma example_retarget: "retarget_target example_fast 20000 = example_target 25"
proof -
  have "example_target 25 \<le> multiply_target (example_target 100) 4"
    using multiply_target_ge [of "example_target 100" 4]
    by (simp add: wf_example_target target_le_iff multiply_target_spec target_val_example)
  then have "ord_clamp (example_target 25) (example_target 25) (multiply_target (example_target 100) 4) = example_target 25"
    by (simp add: ord_clamp_id)
  moreover have "TargetBounds_clamp (bd_bounds (binding example_controller)) (example_target 25) = example_target 25"
    by code_simp
  ultimately show ?thesis
    by (simp add: retarget_target_def example_fast_eq)
      (simp add: example_controller_def example_config_def example_scaled)
qed

theorem observe_share_bounded_step_witness:
  "\<exists>p q c'. observe_share example_fast (binding example_fast) 20000 = (Ok (Changed p q), c') \<and>
     bd_target q = example_target 25 \<and> bd_target q < bd_target p"
proof -
  have contains: "TargetBounds_contains (bd_bounds (binding example_controller)) (example_target 25)" by code_simp
  have "observe_share example_fast (binding example_fast) 20000 =
      install_target (example_fast\<lparr>last_now_ms := Some 20000, observed_intervals := 8\<rparr>) (example_target 25) 20000"
  proof -
    have "clock_ok example_fast 20000" "window_start_ms example_fast = Some 0"
      "checked_add (observed_intervals example_fast) 1 = Some 8" "checked_sub 20000 (0 :: u64) = Some 20000"
      and "\<not> 8 < sample_intervals (config example_fast)" "outside_hysteresis (config example_fast) (unat (20000 :: u64))"
      by (simp_all add: example_fast_eq example_controller_def example_config_def
        clock_ok_def checked_add_def checked_sub_def outside_hysteresis_def nat_diff_def)
    then show ?thesis by (simp only: observe_share_counted example_retarget Let_def if_False not_not simp_thms)
  qed
  moreover have "\<exists>p q c'. install_target (example_fast\<lparr>last_now_ms := Some 20000, observed_intervals := 8\<rparr>)
      (example_target 25) 20000 = (Ok (Changed p q), c') \<and> bd_target q = example_target 25"
    using contains
    by (subst install_target_result) (simp_all add: example_fast_eq example_controller_def checked_add_def
        example_target_def Let_def)
  ultimately obtain p q c' where run: "observe_share example_fast (binding example_fast) 20000 = (Ok (Changed p q), c')"
    and q: "bd_target q = example_target 25" by auto
  have "unat (20000 :: u64) - unat (0 :: u64) \<le> unat (sample_window_ms (config example_fast))"
    and "window_start_ms example_fast = Some 0"
    by (simp_all add: example_fast_eq example_controller_def example_config_def)
  then have "bd_target q < bd_target p"
    using observe_share_bounded_step [OF reach_example [of "[0, 2500, 5000, 7500, 10000, 12500, 15000, 17500]",
        folded example_fast_def] run] by auto
  with run q show ?thesis by blast
qed

definition example_silent :: vardiff_controller where
  "example_silent = foldl observe_at example_controller [0]"

lemma example_silent_eq:
  "example_silent = example_controller\<lparr>window_start_ms := Some 0, last_now_ms := Some 0\<rparr>"
  by code_simp

lemma reach_silent: "reach vardiff_start vardiff_step example_silent"
  unfolding example_silent_def by (rule reach_example)

lemma example_target_less: "example_target 100 < example_target 200"
  by code_simp


lemma example_tick: "tick_target example_silent 200000 = example_target 200"
proof -
  have t: "wf_target (example_target 100)" "wf_target (example_target 200)" by (simp_all add: wf_example_target)
  have raw: "wf_target (scale_target (example_target 100) 200000 80000)"
      "target_val (scale_target (example_target 100) 200000 80000) = 250"
    using scale_target_spec [OF t(1), of 80000 200000] by (simp_all add: target_val_example)
  have hi: "wf_target (multiply_target (example_target 100) 4)" "target_val (multiply_target (example_target 100) 4) = 400"
    using multiply_target_spec [OF t(1), of 4] by (simp_all add: target_val_example)
  have "ord_clamp (scale_target (example_target 100) 200000 80000) (example_target 100)
      (multiply_target (example_target 100) 4) = scale_target (example_target 100) 200000 80000"
    by (rule ord_clamp_id) (simp_all add: target_le_iff raw hi t target_val_example)
  moreover have "TargetBounds_clamp (bd_bounds (binding example_controller)) (scale_target (example_target 100) 200000 80000)
      = example_target 200"
    by (simp add: TargetBounds_clamp_def ord_clamp_def example_controller_def target_less_iff raw t target_val_example
        wf_example_target)
  ultimately show ?thesis
    by (simp add: tick_target_def example_silent_eq) (simp add: example_controller_def example_config_def)
qed

end
