(* ===== verification/Backend_Types.thy ===== *)
theory Backend_Types
  imports Fixed_Hex
begin

text \<open>
  The data of \<open>crates/wcash-pool-protocol/src/backend.rs\<close>: jobs, winners, receipts and journal events,
  with the validators that run on every frame, and the canonical identifiers. SHA-256 (crate \<open>sha2\<close>)
  is a parameter \<open>sha256\<close>. \<open>Hex32\<close>, \<open>Hex108\<close> and \<open>Hex1344\<close> values are byte lists; a \<open>wf_\<close> predicate
  states their lengths where a lemma needs them.
\<close>

section \<open>Constants and primitive validators\<close>

definition BACKEND_PROTOCOL_VERSION :: u16 where "BACKEND_PROTOCOL_VERSION = 2"
definition MAX_BACKEND_PAYLOAD_BYTES :: nat where "MAX_BACKEND_PAYLOAD_BYTES = 64 * 1024"
definition BACKEND_LENGTH_PREFIX_BYTES :: nat where "BACKEND_LENGTH_PREFIX_BYTES = 4"
definition MAX_EVENT_PAGE_ITEMS :: u16 where "MAX_EVENT_PAGE_ITEMS = 1024"
definition MAX_CHAIN_VALUE_ZAT :: u64 where "MAX_CHAIN_VALUE_ZAT = 2100000000000000"
definition MAX_MATURITY_CONFIRMATIONS :: u32 where "MAX_MATURITY_CONFIRMATIONS = 1000000"

definition EQUIHASH_SOLUTION_COMPACT_SIZE :: bytes where
  "EQUIHASH_SOLUTION_COMPACT_SIZE = [0xfd, 0x40, 0x05]"

text \<open>The bytes of an ASCII string.\<close>

definition ascii_bytes :: "string \<Rightarrow> bytes" where
  "ascii_bytes s = map (\<lambda>c. of_nat (of_char c)) s"

definition SHARE_ID_DOMAIN :: bytes where
  "SHARE_ID_DOMAIN = ascii_bytes ''wcash-pool/share-id/v1''"

definition ATTRIBUTION_ID_DOMAIN :: bytes where
  "ATTRIBUTION_ID_DOMAIN = ascii_bytes ''wcash-pool/attribution-id/v1''"

definition is_ascii_alphanumeric :: "char \<Rightarrow> bool" where
  "is_ascii_alphanumeric c =
     (let n = of_char c :: nat in (48 \<le> n \<and> n \<le> 57) \<or> (65 \<le> n \<and> n \<le> 90) \<or> (97 \<le> n \<and> n \<le> 122))"

definition is_ascii_control :: "char \<Rightarrow> bool" where
  "is_ascii_control c = (let n = of_char c :: nat in n < 32 \<or> n = 127)"

definition validate_bounded_text :: "string \<Rightarrow> nat \<Rightarrow> nat \<Rightarrow> string \<Rightarrow> (protocol_error, unit) result" where
  "validate_bounded_text value minimum maximum field =
     (if \<not> (minimum \<le> length value \<and> length value \<le> maximum) then
        Err (invalid field (''must contain '' @ decimal minimum @ ''..='' @ decimal maximum @ '' bytes''))
      else if list_ex is_ascii_control value then Err (invalid field ''must not contain control bytes'')
      else Ok ())"

definition quoted :: "string \<Rightarrow> string" where
  "quoted s = [CHR 0x27] @ s @ [CHR 0x27]"

definition validate_worker_label :: "string \<Rightarrow> (protocol_error, unit) result" where
  "validate_worker_label label = try_all
     [validate_bounded_text label 1 128 ''worker.label'',
      ensure (list_all (\<lambda>c. is_ascii_alphanumeric c \<or> c \<in> {CHR ''.'', CHR ''-'', CHR ''_'', CHR '':''}) label)
        (invalid ''worker.label'' (''must use ASCII letters, digits, '' @ quoted ''.'' @ '', '' @ quoted ''-'' @ '', '' @
           quoted ''_'' @ '', or '' @ quoted '':''))]"

definition require_nonzero_hex :: "bytes \<Rightarrow> string \<Rightarrow> (protocol_error, unit) result" where
  "require_nonzero_hex value field = ensure (\<not> FixedHex_is_zero value) (invalid field ''must be nonzero'')"

definition require_nonzero_id :: "u64 \<Rightarrow> (protocol_error, unit) result" where
  "require_nonzero_id rid = ensure (rid \<noteq> 0) (invalid ''backend.id'' ''must be nonzero'')"

definition require_non_nil_uuid :: "uuid \<Rightarrow> string \<Rightarrow> (protocol_error, unit) result" where
  "require_non_nil_uuid value field = ensure (\<not> uuid_is_nil value) (invalid field ''must not be the nil UUID'')"

definition require_nonzero_target :: "target_le \<Rightarrow> string \<Rightarrow> (protocol_error, unit) result" where
  "require_nonzero_target value field = ensure (\<not> TargetLe_is_zero value) (invalid field ''must be nonzero'')"

definition validate_reward :: "u64 \<Rightarrow> string \<Rightarrow> (protocol_error, unit) result" where
  "validate_reward value field = ensure (value \<le> MAX_CHAIN_VALUE_ZAT)
     (invalid field (''must be no greater than '' @ decimal (unat MAX_CHAIN_VALUE_ZAT) @ '' zatoshi''))"

definition validate_maturity :: "u32 \<Rightarrow> string \<Rightarrow> (protocol_error, unit) result" where
  "validate_maturity value field = ensure (1 \<le> value \<and> value \<le> MAX_MATURITY_CONFIRMATIONS)
     (invalid field (''must be in 1..='' @ decimal (unat MAX_MATURITY_CONFIRMATIONS)))"

definition validate_backend_header :: "u16 \<Rightarrow> u64 \<Rightarrow> (protocol_error, unit) result" where
  "validate_backend_header version rid = try_all
     [ensure (version = BACKEND_PROTOCOL_VERSION)
        (invalid ''backend.v'' (''must equal '' @ decimal (unat BACKEND_PROTOCOL_VERSION))),
      require_nonzero_id rid]"

definition validate_v4_header_input :: "bytes \<Rightarrow> string \<Rightarrow> string \<Rightarrow> (protocol_error, unit) result" where
  "validate_v4_header_input header_input version_field time_field = try_all
     [ensure (take 4 header_input = [4, 0, 0, 0])
        (invalid version_field ''must be the exact little-endian version bytes 04000000''),
      ensure (\<not> list_all (\<lambda>b. b = 0) (take 4 (drop 100 header_input))) (invalid time_field ''must be nonzero'')]"

section \<open>Workers, jobs and winners\<close>

record worker_identity =
  wi_account_id :: uuid
  wi_worker_id :: uuid
  wi_label :: string

definition WorkerIdentity_validate :: "worker_identity \<Rightarrow> (protocol_error, unit) result" where
  "WorkerIdentity_validate w = try_all
     [require_non_nil_uuid (wi_account_id w) ''worker.account_id'',
      require_non_nil_uuid (wi_worker_id w) ''worker.worker_id'',
      validate_worker_label (wi_label w)]"

record job_descriptor =
  jd_job_id :: bytes
  jd_wcash_candidate_hash_le :: bytes
  jd_header_input :: bytes
  jd_wcash_previous_hash_le :: bytes
  jd_zcash_previous_hash_le :: bytes
  jd_wcash_coinbase_txid_le :: bytes
  jd_zcash_coinbase_txid_le :: bytes
  jd_wcash_target_le :: target_le
  jd_zcash_target_le :: target_le
  jd_wcash_height :: u32
  jd_zcash_height :: u32
  jd_wcash_reward_zat :: u64
  jd_zcash_reward_zat :: u64
  jd_wcash_maturity_confirmations :: u32
  jd_zcash_maturity_confirmations :: u32
  jd_max_age_ms :: u32

definition JobDescriptor_validate :: "job_descriptor \<Rightarrow> (protocol_error, unit) result" where
  "JobDescriptor_validate j = try_all
     [require_nonzero_hex (jd_job_id j) ''job.job_id'',
      require_nonzero_hex (jd_wcash_candidate_hash_le j) ''job.wcash_candidate_hash_le'',
      validate_v4_header_input (jd_header_input j) ''job.header_input.version'' ''job.header_input.time'',
      require_nonzero_hex (jd_wcash_previous_hash_le j) ''job.wcash_previous_hash_le'',
      require_nonzero_hex (jd_zcash_previous_hash_le j) ''job.zcash_previous_hash_le'',
      require_nonzero_hex (jd_wcash_coinbase_txid_le j) ''job.wcash_coinbase_txid_le'',
      require_nonzero_hex (jd_zcash_coinbase_txid_le j) ''job.zcash_coinbase_txid_le'',
      ensure (take 32 (drop 4 (jd_header_input j)) = jd_zcash_previous_hash_le j)
        (invalid ''job.zcash_previous_hash_le'' ''must match the predecessor bytes in header_input''),
      require_nonzero_target (jd_wcash_target_le j) ''job.wcash_target_le'',
      require_nonzero_target (jd_zcash_target_le j) ''job.zcash_target_le'',
      ensure (jd_wcash_height j \<noteq> 0) (invalid ''job.wcash_height'' ''must be positive''),
      ensure (jd_zcash_height j \<noteq> 0) (invalid ''job.zcash_height'' ''must be positive''),
      validate_reward (jd_wcash_reward_zat j) ''job.wcash_reward_zat'',
      validate_reward (jd_zcash_reward_zat j) ''job.zcash_reward_zat'',
      validate_maturity (jd_wcash_maturity_confirmations j) ''job.wcash_maturity_confirmations'',
      validate_maturity (jd_zcash_maturity_confirmations j) ''job.zcash_maturity_confirmations'',
      ensure (1 \<le> jd_max_age_ms j \<and> jd_max_age_ms j \<le> 600000)
        (invalid ''job.max_age_ms'' ''must be in 1..=600000'')]"

record acceptable_job =
  aj_job :: job_descriptor
  aj_accept_for_ms :: u32

definition AcceptableJob_validate :: "acceptable_job \<Rightarrow> (protocol_error, unit) result" where
  "AcceptableJob_validate a = try_all
     [JobDescriptor_validate (aj_job a),
      ensure (aj_accept_for_ms a \<noteq> 0 \<and> aj_accept_for_ms a \<le> jd_max_age_ms (aj_job a))
        (invalid ''acceptable_job.accept_for_ms''
          ''must be positive and no greater than the job's maximum age'')]"

datatype job_invalidation_reason = WcashTipChanged | ZcashTipChanged | Superseded | Age

datatype backend_error_code =
    InvalidRequest
  | StaleJob
  | LowDifficulty
  | InvalidEquihash
  | TargetOutOfRange
  | AttributionConflict
  | Overloaded
  | BackendUnhealthy
  | RecoveryDeferred

datatype backend_capability =
    JobStreamV1
  | DurableShareReceiptsV1
  | EventReplayV1
  | DualTargetV1
  | WinnerLifecycleV1
  | WinnerSideChainV1

definition REQUIRED_BACKEND_CAPABILITIES :: "backend_capability list" where
  "REQUIRED_BACKEND_CAPABILITIES =
     [JobStreamV1, DurableShareReceiptsV1, EventReplayV1, DualTargetV1, WinnerLifecycleV1, WinnerSideChainV1]"

datatype merged_chain = Wcash | Zcash

text \<open>The derived order of the enum: \<open>Wcash\<close> before \<open>Zcash\<close>.\<close>

fun chain_rank :: "merged_chain \<Rightarrow> nat" where
  "chain_rank Wcash = 0"
| "chain_rank Zcash = 1"

lemma chain_rank_inj: "chain_rank a = chain_rank b \<Longrightarrow> a = b"
  by (cases a; cases b) auto

instantiation merged_chain :: linorder
begin

definition less_eq_merged_chain :: "merged_chain \<Rightarrow> merged_chain \<Rightarrow> bool" where
  "less_eq_merged_chain a b \<longleftrightarrow> chain_rank a \<le> chain_rank b"

definition less_merged_chain :: "merged_chain \<Rightarrow> merged_chain \<Rightarrow> bool" where
  "less_merged_chain a b \<longleftrightarrow> chain_rank a < chain_rank b"

instance
  by standard (auto simp: less_eq_merged_chain_def less_merged_chain_def intro: chain_rank_inj)

end

record winner_descriptor =
  wd_chain :: merged_chain
  wd_block_hash_le :: bytes
  wd_height :: u32
  wd_coinbase_txid_le :: bytes
  wd_reward_zat :: u64
  wd_maturity_confirmations :: u32

definition WinnerDescriptor_validate :: "winner_descriptor \<Rightarrow> (protocol_error, unit) result" where
  "WinnerDescriptor_validate w = try_all
     [require_nonzero_hex (wd_block_hash_le w) ''winner.block_hash_le'',
      ensure (wd_height w \<noteq> 0) (invalid ''winner.height'' ''must be positive''),
      require_nonzero_hex (wd_coinbase_txid_le w) ''winner.coinbase_txid_le'',
      validate_reward (wd_reward_zat w) ''winner.reward_zat'',
      validate_maturity (wd_maturity_confirmations w) ''winner.maturity_confirmations'']"

definition WinnerDescriptor_validate_for_job ::
  "winner_descriptor \<Rightarrow> job_descriptor \<Rightarrow> (protocol_error, unit) result" where
  "WinnerDescriptor_validate_for_job w job =
     (let (height, reward, maturity, coinbase_txid) =
        (case wd_chain w of
           Wcash \<Rightarrow> (jd_wcash_height job, jd_wcash_reward_zat job, jd_wcash_maturity_confirmations job,
             jd_wcash_coinbase_txid_le job)
         | Zcash \<Rightarrow> (jd_zcash_height job, jd_zcash_reward_zat job, jd_zcash_maturity_confirmations job,
             jd_zcash_coinbase_txid_le job))
      in try_all
        [JobDescriptor_validate job,
         WinnerDescriptor_validate w,
         ensure (\<not> (wd_chain w = Wcash \<and> wd_block_hash_le w \<noteq> jd_wcash_candidate_hash_le job))
           (invalid ''winner.block_hash_le'' ''must match the proof-independent Wcash candidate hash in its job''),
         ensure (wd_coinbase_txid_le w = coinbase_txid)
           (invalid ''winner.coinbase_txid_le'' ''must match the winning chain coinbase transaction ID in its job''),
         ensure (wd_height w = height) (invalid ''winner.height'' ''must match the winning chain height in its job''),
         ensure (wd_reward_zat w = reward)
           (invalid ''winner.reward_zat'' ''must match the winning chain reward in its job''),
         ensure (wd_maturity_confirmations w = maturity)
           (invalid ''winner.maturity_confirmations'' ''must match the winning chain maturity in its job'')])"

record chain_tip =
  ct_block_hash_le :: bytes
  ct_height :: u32

definition ChainTip_validate :: "chain_tip \<Rightarrow> (protocol_error, unit) result" where
  "ChainTip_validate t = require_nonzero_hex (ct_block_hash_le t) ''winner_tip.block_hash_le''"

section \<open>Canonical identifiers\<close>

definition canonical_parent_header_hash_le :: "(bytes \<Rightarrow> bytes) \<Rightarrow> bytes \<Rightarrow> bytes \<Rightarrow> bytes \<Rightarrow> bytes" where
  "canonical_parent_header_hash_le sha256 header_input nonce solution =
     sha256 (sha256 (header_input @ nonce @ EQUIHASH_SOLUTION_COMPACT_SIZE @ solution))"

definition canonical_share_id :: "(bytes \<Rightarrow> bytes) \<Rightarrow> bytes \<Rightarrow> bytes \<Rightarrow> bytes \<Rightarrow> bytes \<Rightarrow> bytes" where
  "canonical_share_id sha256 job_id time nonce solution =
     sha256 (SHARE_ID_DOMAIN @ job_id @ time @ nonce @ solution)"

definition canonical_attribution_id ::
  "(bytes \<Rightarrow> bytes) \<Rightarrow> worker_identity \<Rightarrow> target_le \<Rightarrow> (protocol_error, bytes) result" where
  "canonical_attribution_id sha256 identity target_le =
     and_then (WorkerIdentity_validate identity) (\<lambda>_.
     and_then (require_nonzero_target target_le ''attribution.target_le'') (\<lambda>_.
     and_then (ensure (length (wi_label identity) < 2 ^ 16)
       (invalid ''worker.label'' ''length cannot be represented canonically'')) (\<lambda>_.
     let label_len = of_nat (length (wi_label identity)) :: u16 in
     Ok (sha256 (ATTRIBUTION_ID_DOMAIN @ to_be_bytes 16 (wi_account_id identity) @
       to_be_bytes 16 (wi_worker_id identity) @ to_be_bytes 2 label_len @ ascii_bytes (wi_label identity) @
       TargetLe_as_bytes target_le)))))"

section \<open>Receipts\<close>

record share_receipt =
  sr_event_seq :: u64
  sr_job_id :: bytes
  sr_share_id :: bytes
  sr_attribution_id :: bytes
  sr_parent_hash_le :: bytes
  sr_winners :: "winner_descriptor list"

text \<open>The loop over the winners, with \<open>previous\<close> the chain of the one before.\<close>

fun validate_receipt_winners ::
  "bytes \<Rightarrow> merged_chain option \<Rightarrow> winner_descriptor list \<Rightarrow> (protocol_error, unit) result" where
  "validate_receipt_winners parent_hash_le previous [] = Ok ()"
| "validate_receipt_winners parent_hash_le previous (winner # winners) =
     and_then (WinnerDescriptor_validate winner) (\<lambda>_.
     if (case previous of None \<Rightarrow> False | Some chain \<Rightarrow> chain \<ge> wd_chain winner) then
       Err (invalid ''share_receipt.winners'' ''must be unique and ordered wcash before zcash'')
     else if wd_chain winner = Zcash \<and> wd_block_hash_le winner \<noteq> parent_hash_le then
       Err (invalid ''share_receipt.winners'' ''zcash winner hash must equal the validated parent header hash'')
     else validate_receipt_winners parent_hash_le (Some (wd_chain winner)) winners)"

definition ShareReceipt_validate :: "share_receipt \<Rightarrow> (protocol_error, unit) result" where
  "ShareReceipt_validate r = try_all
     [ensure (sr_event_seq r \<noteq> 0) (invalid ''share_receipt.event_seq'' ''must be positive''),
      require_nonzero_hex (sr_job_id r) ''share_receipt.job_id'',
      require_nonzero_hex (sr_share_id r) ''share_receipt.share_id'',
      require_nonzero_hex (sr_attribution_id r) ''share_receipt.attribution_id'',
      require_nonzero_hex (sr_parent_hash_le r) ''share_receipt.parent_hash_le'',
      ensure (length (sr_winners r) \<le> 2)
        (invalid ''share_receipt.winners'' ''must contain at most one winner per merged chain''),
      validate_receipt_winners (sr_parent_hash_le r) None (sr_winners r)]"

definition ShareReceipt_validate_for_job :: "share_receipt \<Rightarrow> job_descriptor \<Rightarrow> (protocol_error, unit) result" where
  "ShareReceipt_validate_for_job r job = try_all
     ([JobDescriptor_validate job,
       ShareReceipt_validate r,
       ensure (sr_job_id r = jd_job_id job)
         (invalid ''share_receipt.job_id'' ''must match the submitted backend generation'')] @
      map (\<lambda>winner. WinnerDescriptor_validate_for_job winner job) (sr_winners r))"

section \<open>Lemmas on the validators\<close>

lemma FixedHex_is_zero_replicate [simp]: "FixedHex_is_zero (replicate n b) \<longleftrightarrow> n = 0 \<or> b = 0"
  by (auto simp: FixedHex_is_zero_def list_all_iff)

lemma is_ok_bounded_text [simp]:
  "is_ok (validate_bounded_text v lo hi f) \<longleftrightarrow> lo \<le> length v \<and> length v \<le> hi \<and> \<not> list_ex is_ascii_control v"
  by (auto simp: validate_bounded_text_def)

lemma is_ok_nonzero_hex [simp]: "is_ok (require_nonzero_hex v f) \<longleftrightarrow> \<not> FixedHex_is_zero v"
  by (simp add: require_nonzero_hex_def)

lemma is_ok_nonzero_target [simp]: "is_ok (require_nonzero_target v f) \<longleftrightarrow> \<not> TargetLe_is_zero v"
  by (simp add: require_nonzero_target_def)

lemma is_ok_non_nil [simp]: "is_ok (require_non_nil_uuid v f) \<longleftrightarrow> v \<noteq> 0"
  by (simp add: require_non_nil_uuid_def uuid_is_nil_def)

lemma is_ok_nonzero_id [simp]: "is_ok (require_nonzero_id v) \<longleftrightarrow> v \<noteq> 0"
  by (simp add: require_nonzero_id_def)

lemma is_ok_reward [simp]: "is_ok (validate_reward v f) \<longleftrightarrow> v \<le> MAX_CHAIN_VALUE_ZAT"
  by (simp add: validate_reward_def)

lemma is_ok_maturity [simp]: "is_ok (validate_maturity v f) \<longleftrightarrow> 1 \<le> v \<and> v \<le> MAX_MATURITY_CONFIRMATIONS"
  by (simp add: validate_maturity_def)

lemma worker_label_length: "is_ok (validate_worker_label l) \<Longrightarrow> length l \<le> 128"
  by (simp add: validate_worker_label_def)

lemma worker_identity_label: "is_ok (WorkerIdentity_validate w) \<Longrightarrow> length (wi_label w) \<le> 128"
  by (simp add: WorkerIdentity_validate_def worker_label_length)

text \<open>The receipt's winner list holds each chain at most once, Wcash first.\<close>

lemma receipt_winners_sorted:
  assumes "is_ok (validate_receipt_winners parent previous winners)"
  shows "sorted_wrt (<) ((case previous of None \<Rightarrow> [] | Some c \<Rightarrow> [c]) @ map wd_chain winners)" (is "?sorted previous winners")
    and "\<forall>w \<in> set winners. is_ok (WinnerDescriptor_validate w) \<and> (wd_chain w = Zcash \<longrightarrow> wd_block_hash_le w = parent)"
proof -
  have "?sorted previous winners \<and>
      (\<forall>w \<in> set winners. is_ok (WinnerDescriptor_validate w) \<and> (wd_chain w = Zcash \<longrightarrow> wd_block_hash_le w = parent))"
    using assms
  proof (induction parent previous winners rule: validate_receipt_winners.induct)
    case (2 parent previous w ws)
    then have "?sorted (Some (wd_chain w)) ws" and
      "\<forall>w \<in> set ws. is_ok (WinnerDescriptor_validate w) \<and> (wd_chain w = Zcash \<longrightarrow> wd_block_hash_le w = parent)"
      by (auto simp: is_ok_iff split: if_splits)
    with 2(2) show ?case by (auto simp: is_ok_iff not_le split: if_splits option.splits intro: less_trans)
  qed (auto split: option.splits)
  then show "?sorted previous winners"
    and "\<forall>w \<in> set winners. is_ok (WinnerDescriptor_validate w) \<and> (wd_chain w = Zcash \<longrightarrow> wd_block_hash_le w = parent)"
    by blast+
qed

text \<open>Fixed-width encodings are injective.\<close>

lemma to_be_bytes_inj:
  assumes "to_be_bytes n (x :: 'a::len word) = to_be_bytes n y" "(2 :: nat) ^ LENGTH('a) \<le> 256 ^ n"
  shows "x = y"
proof -
  have "unat x < 256 ^ n" "unat y < 256 ^ n"
    using order.strict_trans2 [OF unat_bound assms(2)] by blast+
  moreover have "be_val (to_be_bytes n x) = be_val (to_be_bytes n y)" using assms(1) by simp
  ultimately show ?thesis by (simp add: be_val_to_be_bytes word_unat_eq_iff)
qed

lemma ascii_bytes_inj: "ascii_bytes s = ascii_bytes t \<Longrightarrow> s = t"
proof -
  have "c = d" if "(of_nat (of_char c) :: byte) = of_nat (of_char d)" for c d
  proof -
    have "(of_char c :: nat) < 256" "(of_char d :: nat) < 256" by simp_all
    then have "unat (of_nat (of_char c) :: byte) = of_char c" "unat (of_nat (of_char d) :: byte) = of_char d"
      by (simp_all add: unat_of_nat)
    with that have "(of_char c :: nat) = of_char d" by metis
    then show ?thesis by simp
  qed
  then have "inj (\<lambda>c. of_nat (of_char c) :: byte)" by (rule injI)
  then show "ascii_bytes s = ascii_bytes t \<Longrightarrow> s = t" by (simp add: ascii_bytes_def)
qed

section \<open>Properties\<close>

definition collision :: "(bytes \<Rightarrow> bytes) \<Rightarrow> bool" where
  "collision h \<longleftrightarrow> (\<exists>x y. x \<noteq> y \<and> h x = h y)"

lemma collision_free: "\<not> collision h \<Longrightarrow> h x = h y \<Longrightarrow> x = y"
  by (auto simp: collision_def)

lemma label_length_bytes:
  assumes "to_be_bytes 2 (of_nat m :: u16) = to_be_bytes 2 (of_nat n :: u16)" "m < 2 ^ 16" "n < 2 ^ 16"
  shows "m = n"
proof -
  have "(of_nat m :: u16) = of_nat n" by (rule to_be_bytes_inj [OF assms(1)]) simp
  then have "unat (of_nat m :: u16) = unat (of_nat n :: u16)" by simp
  then show ?thesis using assms(2,3) by (simp add: unat_of_nat)
qed

definition attribution_fields :: "worker_identity \<Rightarrow> target_le \<Rightarrow> bytes" where
  "attribution_fields w t = to_be_bytes 16 (wi_account_id w) @ to_be_bytes 16 (wi_worker_id w) @
     to_be_bytes 2 (of_nat (length (wi_label w)) :: u16) @ ascii_bytes (wi_label w) @ TargetLe_as_bytes t"

lemma canonical_attribution_id_Ok:
  "canonical_attribution_id h w t = Ok d \<longleftrightarrow> is_ok (WorkerIdentity_validate w) \<and> \<not> TargetLe_is_zero t \<and>
     d = h (ATTRIBUTION_ID_DOMAIN @ attribution_fields w t)"
proof -
  have "length (wi_label w) < 2 ^ 16" if "is_ok (WorkerIdentity_validate w)"
    using worker_identity_label [OF that] by simp
  then show ?thesis
    by (auto simp: canonical_attribution_id_def unit_result_is_ok Let_def attribution_fields_def)
qed


definition example_worker :: worker_identity where
  "example_worker = \<lparr>wi_account_id = 7, wi_worker_id = 9, wi_label = ''rig-1''\<rparr>"

lemma example_worker_valid: "is_ok (WorkerIdentity_validate example_worker)"
  by code_simp


text \<open>The share identifier and the parent-header hash bind the exact proof: for fields of the wire lengths,
  equal identifiers mean the same job, time, nonce and solution (equal header hashes the same header,
  nonce and solution), or a collision of SHA-256.\<close>

lemma share_id_binding:
  assumes "length job = length job'" "length time = length time'" "length nonce = length nonce'"
    and "length header = length header'"
  shows "(canonical_share_id sha256 job time nonce solution = canonical_share_id sha256 job' time' nonce' solution' \<longrightarrow>
      job = job' \<and> time = time' \<and> nonce = nonce' \<and> solution = solution' \<or> collision sha256) \<and>
    (canonical_parent_header_hash_le sha256 header nonce solution =
       canonical_parent_header_hash_le sha256 header' nonce' solution' \<longrightarrow>
      header = header' \<and> nonce = nonce' \<and> solution = solution' \<or> collision sha256)"
proof -
  note inj = collision_free [rotated]
  show ?thesis
  proof (intro conjI impI)
    assume eq: "canonical_share_id sha256 job time nonce solution = canonical_share_id sha256 job' time' nonce' solution'"
    have "job @ time @ nonce @ solution = job' @ time' @ nonce' @ solution'" if "\<not> collision sha256"
      using inj [OF eq [unfolded canonical_share_id_def] that] by simp
    then show "job = job' \<and> time = time' \<and> nonce = nonce' \<and> solution = solution' \<or> collision sha256"
      using assms by auto
  next
    assume eq: "canonical_parent_header_hash_le sha256 header nonce solution =
      canonical_parent_header_hash_le sha256 header' nonce' solution'"
    have "header @ nonce @ EQUIHASH_SOLUTION_COMPACT_SIZE @ solution =
        header' @ nonce' @ EQUIHASH_SOLUTION_COMPACT_SIZE @ solution'" if "\<not> collision sha256"
      using inj [OF inj [OF eq [unfolded canonical_parent_header_hash_le_def] that] that] .
    then show "header = header' \<and> nonce = nonce' \<and> solution = solution' \<or> collision sha256"
      using assms by auto
  qed
qed

end
