(* ===== verification/Pplns.thy ===== *)
theory Pplns
  imports Backend_Types "HOL-Library.Product_Lexorder"
begin

text \<open>
  \<open>crates/wcash-pool-store/src/accounting.rs\<close>: integer PPLNS accounting. \<open>BigUint\<close> is \<open>nat\<close>, a
  \<open>BTreeMap<Uuid, BigUint>\<close> an association list in strictly ascending key order, the \<open>HashSet\<close> of seen
  share identifiers a list. Monetary amounts stay \<open>u64\<close> words with the code's checked operations.
\<close>

section \<open>Types\<close>

definition MAX_POOL_FEE_BPS :: u16 where "MAX_POOL_FEE_BPS = 1000"
definition PPLNS_BASIS_POINTS :: u64 where "PPLNS_BASIS_POINTS = 10000"

record weighted_share =
  ws_share_id :: bytes
  ws_account_id :: uuid
  ws_work :: nat

record account_allocation =
  aa_account_id :: uuid
  aa_work :: nat
  aa_amount_zat :: u64

record allocation_plan =
  ap_selected_work :: nat
  ap_pool_fee_zat :: u64
  ap_accounts :: "account_allocation list"

datatype pplns_error =
    PplnsZeroTarget
  | ZeroWindow
  | InvalidReward u64
  | FeeTooHigh u16
  | NoEligibleWork
  | NilAccount
  | ZeroShareId
  | DuplicateShare
  | ZeroWork
  | ArithmeticOverflow
  | ConservationFailure

definition miner_total_zat :: "allocation_plan \<Rightarrow> u64" where
  "miner_total_zat plan = sum_list (map aa_amount_zat (ap_accounts plan))"

section \<open>Operations\<close>

definition target_work :: "target_le \<Rightarrow> (pplns_error, nat) result" where
  "target_work target =
     (let numeric_target = le_val (TargetLe_as_bytes target)
      in if numeric_target = 0 then Err PplnsZeroTarget else Ok (2 ^ 256 div (numeric_target + 1)))"

text \<open>\<open>*map.entry(key).or_default() += value\<close> on a \<open>BTreeMap\<close>.\<close>

fun entry_add :: "'k::linorder \<Rightarrow> nat \<Rightarrow> ('k \<times> nat) list \<Rightarrow> ('k \<times> nat) list" where
  "entry_add k v [] = [(k, v)]"
| "entry_add k v ((k', v') # m) =
     (if k < k' then (k, v) # (k', v') # m
      else if k = k' then (k', v' + v) # m
      else (k', v') # entry_add k v m)"

fun select_window ::
  "weighted_share list \<Rightarrow> nat \<Rightarrow> bytes list \<Rightarrow> (uuid \<times> nat) list \<Rightarrow> (pplns_error, (uuid \<times> nat) list) result" where
  "select_window [] remaining seen by_account = Ok by_account"
| "select_window (share # shares) remaining seen by_account =
     (if uuid_is_nil (ws_account_id share) then Err NilAccount
      else if ws_share_id share = replicate 32 0 then Err ZeroShareId
      else if ws_share_id share \<in> set seen then Err DuplicateShare
      else if ws_work share = 0 then Err ZeroWork
      else if remaining = 0 then Ok by_account
      else let selected = min (ws_work share) remaining
           in select_window shares (remaining - selected) (ws_share_id share # seen)
                (entry_add (ws_account_id share) selected by_account))"

text \<open>\<open>BigUint::to_u64\<close>.\<close>

definition to_u64 :: "nat \<Rightarrow> u64 option" where
  "to_u64 n = (if n < 2 ^ 64 then Some (of_nat n) else None)"

text \<open>The floor allocations, in account order: \<open>(account_id, work, amount_zat, remainder)\<close>.\<close>

type_synonym provisional = "uuid \<times> nat \<times> u64 \<times> nat"

fun floor_allocations ::
  "nat \<Rightarrow> nat \<Rightarrow> (uuid \<times> nat) list \<Rightarrow> u64 \<Rightarrow> (pplns_error, provisional list \<times> u64) result" where
  "floor_allocations reward selected_work [] floor_total = Ok ([], floor_total)"
| "floor_allocations reward selected_work ((account_id, work) # rest) floor_total =
     (let numerator = reward * work in
      and_then (ok_or (to_u64 (numerator div selected_work)) ArithmeticOverflow) (\<lambda>amount_zat.
      and_then (ok_or (checked_add floor_total amount_zat) ArithmeticOverflow) (\<lambda>floor_total.
      and_then (floor_allocations reward selected_work rest floor_total) (\<lambda>(provisional, total).
      Ok ((account_id, work, amount_zat, numerator mod selected_work) # provisional, total)))))"

text \<open>The order in which leftover units are given out: larger remainder first, then the smaller account
  (\<open>sort_by\<close> is stable, as \<open>sort_key\<close> is).\<close>

definition remainder_order :: "provisional list \<Rightarrow> nat list" where
  "remainder_order provisional =
     sort_key (\<lambda>i. case provisional ! i of (account_id, _, _, remainder) \<Rightarrow> (- int remainder, account_id))
       [0 ..< length provisional]"

fun give_leftover :: "provisional list \<Rightarrow> nat list \<Rightarrow> (pplns_error, provisional list) result" where
  "give_leftover provisional [] = Ok provisional"
| "give_leftover provisional (i # is) =
     (case provisional ! i of (account_id, work, amount_zat, remainder) \<Rightarrow>
      and_then (ok_or (checked_add amount_zat 1) ArithmeticOverflow) (\<lambda>amount_zat.
      give_leftover (provisional[i := (account_id, work, amount_zat, remainder)]) is))"

definition allocate_pplns ::
  "weighted_share list \<Rightarrow> nat \<Rightarrow> u64 \<Rightarrow> u16 \<Rightarrow> (pplns_error, allocation_plan) result" where
  "allocate_pplns newest_first window_work reward_zat fee_bps =
     (if window_work = 0 then Err ZeroWindow
      else if reward_zat = 0 \<or> reward_zat > MAX_CHAIN_VALUE_ZAT then Err (InvalidReward reward_zat)
      else if fee_bps > MAX_POOL_FEE_BPS then Err (FeeTooHigh fee_bps)
      else
      and_then (select_window newest_first window_work [] []) (\<lambda>by_account.
      if by_account = [] then Err NoEligibleWork
      else let selected_work = sum_list (map snd by_account) in
      and_then (ok_or (checked_mul reward_zat (ucast fee_bps)) ArithmeticOverflow) (\<lambda>fee_numerator.
      let pool_fee_zat = fee_numerator div PPLNS_BASIS_POINTS in
      and_then (ok_or (checked_sub reward_zat pool_fee_zat) ArithmeticOverflow) (\<lambda>miner_reward_zat.
      and_then (floor_allocations (unat miner_reward_zat) selected_work by_account 0) (\<lambda>(provisional, floor_total).
      and_then (ok_or (checked_sub miner_reward_zat floor_total) ArithmeticOverflow) (\<lambda>leftover.
      let order = remainder_order provisional; leftover_usize = unat leftover in
      if leftover_usize > length order then Err ArithmeticOverflow
      else
      and_then (give_leftover provisional (take leftover_usize order)) (\<lambda>provisional.
      let accounts = map (\<lambda>(account_id, work, amount_zat, _).
            \<lparr>aa_account_id = account_id, aa_work = work, aa_amount_zat = amount_zat\<rparr>) provisional;
          plan = \<lparr>ap_selected_work = selected_work, ap_pool_fee_zat = pool_fee_zat, ap_accounts = accounts\<rparr>
      in if checked_add (miner_total_zat plan) (ap_pool_fee_zat plan) \<noteq> Some reward_zat then Err ConservationFailure
         else Ok plan)))))))"

section \<open>The selected window\<close>

abbreviation ascending :: "('k::linorder \<times> 'v) list \<Rightarrow> bool" where
  "ascending m \<equiv> sorted_wrt (<) (map fst m)"

text \<open>The work a map holds for an account, zero if it has no entry.\<close>

definition account_work :: "('k \<times> nat) list \<Rightarrow> 'k \<Rightarrow> nat" where
  "account_work m a = (case map_of m a of None \<Rightarrow> 0 | Some v \<Rightarrow> v)"

lemma entry_add_keys: "fst ` set (entry_add k v m) = insert k (fst ` set m)"
  by (induction k v m rule: entry_add.induct) auto

lemma entry_add_ascending: "ascending m \<Longrightarrow> ascending (entry_add k v m)"
proof (induction k v m rule: entry_add.induct)
  case (2 k v k' v' m)
  have "set (map fst (entry_add k v m)) = insert k (set (map fst m))" using entry_add_keys [of k v m] by simp
  with 2 show ?case by (auto simp del: set_map)
qed simp

lemma entry_add_sum: "sum_list (map snd (entry_add k v m)) = sum_list (map snd m) + v"
  by (induction k v m rule: entry_add.induct) auto

lemma entry_add_positive: "\<forall>e \<in> set m. 0 < snd e \<Longrightarrow> 0 < v \<Longrightarrow> \<forall>e \<in> set (entry_add k v m). 0 < snd e"
  by (induction k v m rule: entry_add.induct) auto

lemma account_work_fresh: "a \<notin> fst ` set m \<Longrightarrow> account_work m a = 0"
  by (simp add: account_work_def map_of_eq_None_iff [symmetric] image_image split: option.splits)

lemma account_work_Cons: "account_work ((k, v) # m) a = (if a = k then v else account_work m a)"
  by (simp add: account_work_def)

lemma entry_add_work: "ascending m \<Longrightarrow> account_work (entry_add k v m) a = account_work m a + (if a = k then v else 0)"
proof (induction k v m rule: entry_add.induct)
  case (2 k v k' v' m)
  have "account_work m k = 0" if "k < k'" using 2(2) that by (intro account_work_fresh) fastforce
  with 2 show ?case by (auto simp: account_work_Cons)
qed (simp add: account_work_def)

text \<open>What the policy promises: the newest shares count in full until the window is filled, the share
  that crosses the boundary counts for the part inside it, older shares do not count.\<close>

definition window_part :: "weighted_share list \<Rightarrow> nat \<Rightarrow> nat \<Rightarrow> nat" where
  "window_part shares window i = min (ws_work (shares ! i)) (window - (\<Sum>j<i. ws_work (shares ! j)))"

definition window_work_of :: "weighted_share list \<Rightarrow> nat \<Rightarrow> uuid \<Rightarrow> nat" where
  "window_work_of shares window a =
     (\<Sum>i<length shares. if ws_account_id (shares ! i) = a then window_part shares window i else 0)"

lemma window_part_Suc:
  "window_part (s # ss) w (Suc i) = window_part ss (w - min (ws_work s) w) i"
  by (simp add: window_part_def sum.lessThan_Suc_shift del: sum.lessThan_Suc)

lemma window_work_of_Cons:
  "window_work_of (s # ss) w a =
     (if ws_account_id s = a then min (ws_work s) w else 0) + window_work_of ss (w - min (ws_work s) w) a"
proof -
  have "window_part (s # ss) w 0 = min (ws_work s) w" by (simp add: window_part_def)
  then show ?thesis
    unfolding window_work_of_def
    by (simp add: sum.lessThan_Suc_shift del: sum.lessThan_Suc) (intro sum.cong refl, simp add: window_part_Suc)
qed

lemma window_work_of_zero: "window_work_of ss 0 a = 0"
  by (simp add: window_work_of_def window_part_def)

definition valid_share :: "bytes list \<Rightarrow> weighted_share \<Rightarrow> bool" where
  "valid_share seen s \<longleftrightarrow> \<not> uuid_is_nil (ws_account_id s) \<and> ws_share_id s \<noteq> replicate 32 0 \<and>
     ws_share_id s \<notin> set seen \<and> ws_work s \<noteq> 0"

lemma select_window_Ok:
  assumes "select_window shares w seen m = Ok m'" "ascending m" "\<forall>e \<in> set m. 0 < snd e"
  shows "ascending m' \<and> (\<forall>e \<in> set m'. 0 < snd e) \<and>
    (\<forall>a. account_work m' a = account_work m a + window_work_of shares w a) \<and>
    sum_list (map snd m') = sum_list (map snd m) + min w (sum_list (map ws_work shares))"
  using assms
proof (induction shares w seen m rule: select_window.induct)
  case (1 w seen m)
  then show ?case by (simp add: window_work_of_def)
next
  case (2 s ss w seen m)
  show ?case
  proof (cases "w = 0")
    case True
    then show ?thesis using 2(2-) by (auto simp: window_work_of_zero split: if_splits)
  next
    case False
    let ?sel = "min (ws_work s) w" and ?m = "entry_add (ws_account_id s) (min (ws_work s) w) m"
    have ok: "select_window ss (w - ?sel) (ws_share_id s # seen) ?m = Ok m'" and pos: "0 < ?sel"
      using 2(2) False by (auto simp: Let_def split: if_splits)
    have "ascending m' \<and> (\<forall>e \<in> set m'. 0 < snd e) \<and>
        (\<forall>a. account_work m' a = account_work ?m a + window_work_of ss (w - ?sel) a) \<and>
        sum_list (map snd m') = sum_list (map snd ?m) + min (w - ?sel) (sum_list (map ws_work ss))"
      using 2(1) [OF _ _ _ _ _ refl ok] 2(2-) False pos
      by (auto simp: entry_add_ascending entry_add_positive Let_def split: if_splits)
    then show ?thesis
      using 2(3) by (auto simp: entry_add_work window_work_of_Cons entry_add_sum)
  qed
qed

section \<open>Floors and leftovers\<close>

abbreviation works :: "('k \<times> nat) list \<Rightarrow> nat" where
  "works m \<equiv> sum_list (map snd m)"

definition floors :: "nat \<Rightarrow> nat \<Rightarrow> ('k \<times> nat) list \<Rightarrow> nat" where
  "floors R W m = sum_list (map (\<lambda>e. R * snd e div W) m)"

lemma sum_div_mod_list:
  "W * sum_list (map (\<lambda>e. R * f e div W) m) + sum_list (map (\<lambda>e. R * f e mod W) m) = R * sum_list (map f m)"
  for R W :: nat
proof (induction m)
  case (Cons e m)
  have "W * (R * f e div W) + R * f e mod W = R * f e" by simp
  with Cons show ?case by (simp add: algebra_simps)
qed simp

lemma floors_le: "0 < works m \<Longrightarrow> floors R (works m) m \<le> R"
proof -
  assume pos: "0 < works m"
  have "works m * floors R (works m) m \<le> R * works m"
    unfolding floors_def by (metis sum_div_mod_list le_add1)
  then have "works m * floors R (works m) m \<le> works m * R" by (simp only: mult.commute)
  then show ?thesis using pos by (simp only: mult_le_cancel1)
qed

lemma sum_mod_less: "m \<noteq> [] \<Longrightarrow> 0 < W \<Longrightarrow> sum_list (map (\<lambda>e. f e mod W) m) < W * length m" for W :: nat
proof (induction m)
  case (Cons e m)
  have "f e mod W < W" using Cons by simp
  with Cons show ?case by (cases m) (auto simp: add_strict_mono)
qed simp

text \<open>Fewer units are left over than there are accounts.\<close>

lemma leftover_less: "m \<noteq> [] \<Longrightarrow> 0 < works m \<Longrightarrow> R - floors R (works m) m < length m"
proof -
  assume m: "m \<noteq> []" "0 < works m"
  have "works m * (R - floors R (works m) m) = sum_list (map (\<lambda>e. R * snd e mod works m) m)"
    using sum_div_mod_list [of "works m" R snd m] floors_le [OF m(2), of R]
    by (simp add: floors_def algebra_simps diff_mult_distrib2)
  also have "\<dots> < works m * length m" by (rule sum_mod_less) (use m in auto)
  finally show ?thesis using m by simp
qed

definition provisional_of :: "nat \<Rightarrow> nat \<Rightarrow> (uuid \<times> nat) list \<Rightarrow> provisional list" where
  "provisional_of R W m = map (\<lambda>(a, w). (a, w, of_nat (R * w div W), R * w mod W)) m"

lemma floor_allocations_eq:
  assumes "unat t + floors R W m < 2 ^ 64"
  shows "floor_allocations R W m t = Ok (provisional_of R W m, t + of_nat (floors R W m))"
  using assms
proof (induction m arbitrary: t)
  case Nil
  then show ?case by (simp add: provisional_of_def floors_def)
next
  case (Cons e m)
  obtain a w where e: "e = (a, w)" by (cases e)
  let ?q = "R * w div W"
  have q: "?q < 2 ^ 64" and fit: "unat t + ?q + floors R W m < 2 ^ 64"
    using Cons.prems by (simp_all add: floors_def e)
  have uq: "unat (of_nat ?q :: u64) = ?q" using q by (simp add: unat_of_nat)
  have sum: "unat (t + of_nat ?q) = unat t + ?q"
    using fit uq by (subst unat_add_of_less) simp_all
  then have "checked_add t (of_nat ?q) = Some (t + of_nat ?q)" by (simp add: checked_add_Some uq)
  moreover have "floor_allocations R W m (t + of_nat ?q) =
      Ok (provisional_of R W m, (t + of_nat ?q) + of_nat (floors R W m))"
    using Cons.IH [of "t + of_nat ?q"] sum fit by simp
  ultimately show ?case
    using q by (simp add: e to_u64_def Let_def provisional_of_def floors_def add.assoc)
qed

fun bump :: "provisional \<Rightarrow> provisional" where
  "bump (a, w, z, r) = (a, w, z + 1, r)"

abbreviation amount :: "provisional \<Rightarrow> u64" where
  "amount p \<equiv> fst (snd (snd p))"

lemma give_leftover_eq:
  assumes "distinct is" "\<forall>i \<in> set is. i < length prov \<and> amount (prov ! i) \<noteq> - 1"
  shows "\<exists>prov'. give_leftover prov is = Ok prov' \<and> length prov' = length prov \<and>
    (\<forall>i < length prov. prov' ! i = (if i \<in> set is then bump (prov ! i) else prov ! i))"
  using assms
proof (induction "is" arbitrary: prov)
  case (Cons i "is")
  obtain a w z r where p: "prov ! i = (a, w, z, r)" by (cases "prov ! i") auto
  let ?prov = "prov[i := (a, w, z + 1, r)]"
  have "checked_add z 1 = Some (z + 1)"
    using Cons.prems(2) p checked_add_1_None [of z] by (cases "checked_add z 1") (auto simp: checked_add_def split: if_splits)
  then have step: "give_leftover prov (i # is) = give_leftover ?prov is" by (simp add: p)
  have "\<forall>j \<in> set is. j < length ?prov \<and> amount (?prov ! j) \<noteq> - 1"
    using Cons.prems by (auto simp: nth_list_update)
  then obtain prov' where "give_leftover ?prov is = Ok prov'" "length prov' = length prov"
    "\<forall>j < length prov. prov' ! j = (if j \<in> set is then bump (?prov ! j) else ?prov ! j)"
    using Cons.IH [of ?prov] Cons.prems(1) by auto
  with Cons.prems p show ?case unfolding step by (auto simp: nth_list_update)
qed simp

lemma sum_list_nth: "sum_list (map f xs) = (\<Sum>i<length xs. f (xs ! i))"
  by (simp add: sum_list_sum_nth atLeast0LessThan)

lemma sum_indicator: "S \<subseteq> {..<n} \<Longrightarrow> (\<Sum>i<n. f i + (if i \<in> S then 1 else 0)) = (\<Sum>i<n. f i) + card S" for n :: nat
  by (simp add: sum.distrib sum.If_cases Int_absorb1)

lemma unat_sum_list_words:
  "sum_list (map unat ws) < 2 ^ 64 \<Longrightarrow> unat (sum_list ws) = sum_list (map unat (ws :: u64 list))"
proof (induction ws)
  case (Cons w ws)
  then have "unat (sum_list ws) = sum_list (map unat ws)" by simp
  then show ?case using Cons.prems by (simp add: unat_add_of_less)
qed simp

definition fee_of :: "u64 \<Rightarrow> u16 \<Rightarrow> nat" where
  "fee_of reward bps = unat reward * unat bps div 10000"

lemma fee_arithmetic:
  assumes "reward \<le> MAX_CHAIN_VALUE_ZAT" "bps \<le> MAX_POOL_FEE_BPS"
  shows "checked_mul reward (ucast bps) = Some (reward * ucast bps)"
    and "unat (reward * ucast bps div PPLNS_BASIS_POINTS) = fee_of reward bps" and "10 * fee_of reward bps \<le> unat reward"
proof -
  have r: "unat reward \<le> 2100000000000000" and b: "unat bps \<le> 1000"
    using assms by (simp_all add: word_le_nat_alt MAX_CHAIN_VALUE_ZAT_def MAX_POOL_FEE_BPS_def)
  have ub: "unat (ucast bps :: u64) = unat bps" by (simp add: unat_ucast_up)
  have "unat reward * unat bps \<le> 2100000000000000 * 1000" using r b by (rule mult_le_mono)
  then have "unat reward * unat (ucast bps :: u64) < 2 ^ 64" by (simp add: ub)
  then have m: "unat (reward * ucast bps) = unat reward * unat bps" by (simp add: unat_mult_of_less ub)
  then show "checked_mul reward (ucast bps) = Some (reward * ucast bps)" by (simp add: checked_mul_Some ub)
  show "unat (reward * ucast bps div PPLNS_BASIS_POINTS) = fee_of reward bps"
    by (simp add: unat_div m fee_of_def PPLNS_BASIS_POINTS_def)
  have "10 * (unat reward * unat bps) \<le> 10 * (unat reward * 1000)" using b by simp
  then show "10 * fee_of reward bps \<le> unat reward" unfolding fee_of_def by linarith
qed

text \<open>The whole allocation, as a function of the selected map: every account gets its floor, and the
  accounts at the head of the remainder order one more unit.\<close>

definition extra_units :: "nat \<Rightarrow> (uuid \<times> nat) list \<Rightarrow> nat set" where
  "extra_units R m = set (take (R - floors R (works m) m) (remainder_order (provisional_of R (works m) m)))"

lemma set_remainder_order: "set (remainder_order prov) = {..<length prov}"
  by (simp add: remainder_order_def atLeast0LessThan)

lemma distinct_remainder_order: "distinct (remainder_order prov)"
  by (simp add: remainder_order_def)

lemma length_remainder_order: "length (remainder_order prov) = length prov"
  by (simp add: remainder_order_def)

lemma extra_units_facts:
  assumes "m \<noteq> []" "0 < works m"
  shows "extra_units R m \<subseteq> {..<length m}" "card (extra_units R m) = R - floors R (works m) m"
proof -
  let ?o = "remainder_order (provisional_of R (works m) m)"
  have len: "length ?o = length m" by (simp add: length_remainder_order provisional_of_def)
  show "extra_units R m \<subseteq> {..<length m}"
    using set_take_subset [of _ ?o] by (auto simp: extra_units_def set_remainder_order provisional_of_def)
  have "distinct (take (R - floors R (works m) m) ?o)" by (simp add: distinct_remainder_order)
  then show "card (extra_units R m) = R - floors R (works m) m"
    using leftover_less [OF assms, of R] len by (simp add: extra_units_def distinct_card)
qed

lemma floor_sum:
  assumes "m \<noteq> []" "0 < works m"
  shows "(\<Sum>i<length m. R * snd (m ! i) div works m + (if i \<in> extra_units R m then 1 else 0)) = R"
proof -
  have "(\<Sum>i<length m. R * snd (m ! i) div works m) = floors R (works m) m"
    by (simp add: floors_def sum_list_nth)
  then show ?thesis
    using extra_units_facts [OF assms, of R] floors_le [OF assms(2), of R] by (simp only: sum_indicator)
qed

lemma give_leftover_plan:
  assumes m: "m \<noteq> []" "0 < works m" and R: "R < 2 ^ 64"
  shows "\<exists>prov. give_leftover (provisional_of R (works m) m)
      (take (R - floors R (works m) m) (remainder_order (provisional_of R (works m) m))) = Ok prov \<and>
    length prov = length m \<and>
    (\<forall>i < length m. \<exists>z. prov ! i = (fst (m ! i), snd (m ! i), z, R * snd (m ! i) mod works m) \<and>
      unat z = R * snd (m ! i) div works m + (if i \<in> extra_units R m then 1 else 0))"
proof -
  let ?W = "works m" and ?prov = "provisional_of R (works m) m"
  let ?is = "take (R - floors R ?W m) (remainder_order ?prov)"
  have nth: "?prov ! i = (fst (m ! i), snd (m ! i), of_nat (R * snd (m ! i) div ?W), R * snd (m ! i) mod ?W)"
    if "i < length m" for i using that by (simp add: provisional_of_def split_beta)
  have len: "length ?prov = length m" by (simp add: provisional_of_def)
  have total: "R * snd (m ! i) div ?W + (if i \<in> extra_units R m then 1 else 0) \<le> R" if "i < length m" for i
    using member_le_sum [of i "{..<length m}" "\<lambda>i. R * snd (m ! i) div ?W + (if i \<in> extra_units R m then 1 else 0)"]
      floor_sum [OF m, of R] that by simp
  have u: "unat (of_nat (R * snd (m ! i) div ?W) :: u64) = R * snd (m ! i) div ?W" if "i < length m" for i
    using total [OF that] R by (simp add: unat_of_nat)
  have "i < length ?prov \<and> amount (?prov ! i) \<noteq> - 1" if "i \<in> set ?is" for i
  proof -
    have i: "i \<in> extra_units R m" "i < length m" using that extra_units_facts [OF m, of R] by (auto simp: extra_units_def)
    then have "unat (of_nat (R * snd (m ! i) div ?W) :: u64) < 2 ^ 64 - 1" using total [OF i(2)] u [OF i(2)] R by simp
    then have "of_nat (R * snd (m ! i) div ?W) \<noteq> (- 1 :: u64)" by (auto simp: unat_max_word)
    then show ?thesis using i(2) nth len by simp
  qed
  then obtain prov where prov: "give_leftover ?prov ?is = Ok prov" "length prov = length m"
    "\<forall>i < length m. prov ! i = (if i \<in> extra_units R m then bump (?prov ! i) else ?prov ! i)"
    using give_leftover_eq [of ?is ?prov] len distinct_remainder_order [of ?prov] by (auto simp: extra_units_def)
  have "unat (of_nat (R * snd (m ! i) div ?W) + 1 :: u64) = R * snd (m ! i) div ?W + 1"
    if "i < length m" "i \<in> extra_units R m" for i
    using total [OF that(1)] that(2) u [OF that(1)] R by (subst unat_add_of_less) simp_all
  with prov nth u show ?thesis by (intro exI [of _ prov]) auto
qed

definition plan_of :: "nat \<Rightarrow> u64 \<Rightarrow> provisional list \<Rightarrow> allocation_plan" where
  "plan_of W fee prov = \<lparr>ap_selected_work = W, ap_pool_fee_zat = fee,
     ap_accounts = map (\<lambda>(a, w, z, _). \<lparr>aa_account_id = a, aa_work = w, aa_amount_zat = z\<rparr>) prov\<rparr>"

lemma plan_total:
  assumes m: "m \<noteq> []" "0 < works m" and R: "R < 2 ^ 64" and len: "length prov = length m"
    and amt: "\<forall>i < length m. \<exists>z. prov ! i = (fst (m ! i), snd (m ! i), z, R * snd (m ! i) mod works m) \<and>
      unat z = R * snd (m ! i) div works m + (if i \<in> extra_units R m then 1 else 0)"
  shows "unat (miner_total_zat (plan_of W fee prov)) = R"
proof -
  have eq: "map aa_amount_zat (ap_accounts (plan_of W fee prov)) = map amount prov"
    by (simp add: plan_of_def split_beta)
  have "unat (amount (prov ! i)) = R * snd (m ! i) div works m + (if i \<in> extra_units R m then 1 else 0)"
    if "i < length m" for i using amt that by fastforce
  then have "(\<Sum>i<length m. unat (amount (prov ! i))) =
      (\<Sum>i<length m. R * snd (m ! i) div works m + (if i \<in> extra_units R m then 1 else 0))"
    by (intro sum.cong) simp_all
  then have "sum_list (map unat (map amount prov)) = R"
    using floor_sum [OF m, of R] len sum_list_nth [of "unat \<circ> amount" prov] by simp
  then show ?thesis unfolding miner_total_zat_def eq using R by (simp only: unat_sum_list_words)
qed

lemma allocate_pplns_plan:
  assumes "window \<noteq> 0" "reward \<noteq> 0" "reward \<le> MAX_CHAIN_VALUE_ZAT" "bps \<le> MAX_POOL_FEE_BPS"
    and sel: "select_window shares window [] [] = Ok m" and m: "m \<noteq> []"
  defines "R \<equiv> unat reward - fee_of reward bps"
  shows "\<exists>plan. allocate_pplns shares window reward bps = Ok plan \<and> ap_selected_work plan = works m \<and>
    unat (ap_pool_fee_zat plan) = fee_of reward bps \<and> length (ap_accounts plan) = length m \<and>
    (\<forall>i < length m. aa_account_id (ap_accounts plan ! i) = fst (m ! i) \<and> aa_work (ap_accounts plan ! i) = snd (m ! i) \<and>
      unat (aa_amount_zat (ap_accounts plan ! i)) =
        R * snd (m ! i) div works m + (if i \<in> extra_units R m then 1 else 0))"
proof -
  note fee = fee_arithmetic [OF assms(3,4)]
  let ?fee = "reward * ucast bps div PPLNS_BASIS_POINTS" and ?prov = "provisional_of R (works m) m"
  have pos: "0 < works m" using select_window_Ok [OF sel] m by (cases m) auto
  have R64: "R < 2 ^ 64" using unat_bound [of reward] by (simp add: R_def less_imp_diff_less)
  have sub: "checked_sub reward ?fee = Some (reward - ?fee)" and uR: "unat (reward - ?fee) = R"
    using fee(2,3) by (simp_all add: checked_sub_def word_le_nat_alt unat_sub R_def)
  have fl: "floor_allocations R (works m) m 0 = Ok (?prov, of_nat (floors R (works m) m))"
    using floor_allocations_eq [of 0 R "works m" m] floors_le [OF pos, of R] R64 by simp
  have ufl: "unat (of_nat (floors R (works m) m) :: u64) = floors R (works m) m"
    using floors_le [OF pos, of R] R64 by (simp add: unat_of_nat)
  obtain left where left: "checked_sub (reward - ?fee) (of_nat (floors R (works m) m)) = Some left"
    "unat left = R - floors R (works m) m"
    using floors_le [OF pos, of R] by (auto simp: checked_sub_def word_le_nat_alt unat_sub ufl uR)
  have few: "\<not> length (remainder_order ?prov) < R - floors R (works m) m"
    using leftover_less [OF m pos, of R] by (simp add: length_remainder_order provisional_of_def)
  obtain prov where prov: "give_leftover ?prov (take (R - floors R (works m) m) (remainder_order ?prov)) = Ok prov"
      "length prov = length m"
    and amt: "\<forall>i < length m. \<exists>z. prov ! i = (fst (m ! i), snd (m ! i), z, R * snd (m ! i) mod works m) \<and>
      unat z = R * snd (m ! i) div works m + (if i \<in> extra_units R m then 1 else 0)"
    using give_leftover_plan [OF m pos R64] by blast
  have "checked_add (miner_total_zat (plan_of (works m) ?fee prov)) ?fee = Some reward"
    using plan_total [OF m pos R64 prov(2) amt] fee(2,3) by (simp add: checked_add_Some R_def)
  then have "allocate_pplns shares window reward bps = Ok (plan_of (works m) ?fee prov)"
    using assms(1-4) sel m fee(1) sub fl left prov few
    by (simp add: allocate_pplns_def Let_def uR plan_of_def not_less)
  moreover have "unat (ap_pool_fee_zat (plan_of (works m) ?fee prov)) = fee_of reward bps" by (simp add: plan_of_def fee)
  ultimately show ?thesis
    using amt prov(2) by (intro exI [of _ "plan_of (works m) ?fee prov"]) (fastforce simp: plan_of_def)
qed

section \<open>Properties\<close>

lemma allocate_pplns_inputs:
  assumes "allocate_pplns shares window reward bps = r"
    "\<forall>e. r = Err e \<longrightarrow> e = ArithmeticOverflow \<or> e = ConservationFailure"
  obtains m where "window \<noteq> 0" "reward \<noteq> 0" "reward \<le> MAX_CHAIN_VALUE_ZAT" "bps \<le> MAX_POOL_FEE_BPS"
    "select_window shares window [] [] = Ok m" "m \<noteq> []"
proof -
  have "select_window shares w seen m = Err e \<Longrightarrow> e \<noteq> ArithmeticOverflow \<and> e \<noteq> ConservationFailure" for w seen m e
    by (induction shares w seen m rule: select_window.induct) (auto simp: Let_def split: if_splits)
  with assms show thesis
    using that by (cases "select_window shares window [] []") (auto simp: allocate_pplns_def not_less split: if_splits)
qed

lemma allocate_pplns_Ok:
  assumes "allocate_pplns shares window reward bps = Ok plan"
  obtains m where "select_window shares window [] [] = Ok m" "m \<noteq> []" "0 < works m" "ascending m"
    "\<forall>e \<in> set m. 0 < snd e" "reward \<le> MAX_CHAIN_VALUE_ZAT" "bps \<le> MAX_POOL_FEE_BPS"
    "ap_selected_work plan = works m" "unat (ap_pool_fee_zat plan) = fee_of reward bps"
    "length (ap_accounts plan) = length m"
    "\<And>i. i < length m \<Longrightarrow> aa_account_id (ap_accounts plan ! i) = fst (m ! i) \<and> aa_work (ap_accounts plan ! i) = snd (m ! i) \<and>
      unat (aa_amount_zat (ap_accounts plan ! i)) = (unat reward - fee_of reward bps) * snd (m ! i) div works m +
        (if i \<in> extra_units (unat reward - fee_of reward bps) m then 1 else 0)"
proof -
  obtain m where m: "window \<noteq> 0" "reward \<noteq> 0" "reward \<le> MAX_CHAIN_VALUE_ZAT" "bps \<le> MAX_POOL_FEE_BPS"
    "select_window shares window [] [] = Ok m" "m \<noteq> []"
    by (rule allocate_pplns_inputs [OF assms]) auto
  have w: "ascending m" "\<forall>e \<in> set m. 0 < snd e" using select_window_Ok [OF m(5)] by simp_all
  then have "0 < works m" using m(6) by (cases m) auto
  with w m allocate_pplns_plan [OF m] assms show thesis by (intro that [of m]) auto
qed

text \<open>C32 The internal guards of the allocation never fire: no input makes it report an arithmetic overflow
  or a conservation failure.\<close>

theorem pplns_no_internal_failure:
  "allocate_pplns shares window reward bps \<noteq> Err ArithmeticOverflow \<and>
   allocate_pplns shares window reward bps \<noteq> Err ConservationFailure"
proof -
  have "allocate_pplns shares window reward bps \<noteq> Err e" if internal: "e = ArithmeticOverflow \<or> e = ConservationFailure" for e
  proof
    assume err: "allocate_pplns shares window reward bps = Err e"
    obtain m where "window \<noteq> 0" "reward \<noteq> 0" "reward \<le> MAX_CHAIN_VALUE_ZAT" "bps \<le> MAX_POOL_FEE_BPS"
      "select_window shares window [] [] = Ok m" "m \<noteq> []"
      by (rule allocate_pplns_inputs [OF err]) (use internal in auto)
    from allocate_pplns_plan [OF this] err show False by auto
  qed
  then show ?thesis by blast
qed

text \<open>C1 Every zatoshi is accounted for: the miners' amounts and the pool fee add up to the block reward
  over the integers, and the fee is the floor of the disclosed basis points, at most a tenth.\<close>

theorem pplns_conserves_reward:
  assumes "allocate_pplns shares window reward bps = Ok plan"
  shows "sum_list (map (unat \<circ> aa_amount_zat) (ap_accounts plan)) + unat (ap_pool_fee_zat plan) = unat reward \<and>
    unat (ap_pool_fee_zat plan) = unat reward * unat bps div 10000 \<and> 10 * unat (ap_pool_fee_zat plan) \<le> unat reward"
proof -
  obtain m where m: "m \<noteq> []" "0 < works m" "reward \<le> MAX_CHAIN_VALUE_ZAT" "bps \<le> MAX_POOL_FEE_BPS"
    "unat (ap_pool_fee_zat plan) = fee_of reward bps" "length (ap_accounts plan) = length m"
    and amt: "\<And>i. i < length m \<Longrightarrow> unat (aa_amount_zat (ap_accounts plan ! i)) =
      (unat reward - fee_of reward bps) * snd (m ! i) div works m +
        (if i \<in> extra_units (unat reward - fee_of reward bps) m then 1 else 0)"
    by (rule allocate_pplns_Ok [OF assms]) blast
  have "sum_list (map (unat \<circ> aa_amount_zat) (ap_accounts plan)) = unat reward - fee_of reward bps"
    using floor_sum [OF m(1,2)] by (simp add: sum_list_nth m(6) amt)
  then show ?thesis using fee_arithmetic(3) [OF m(3,4)] m(5) by (simp add: fee_of_def)
qed

text \<open>C30 The window is what the policy says: accounts appear once, in ascending order, each with the work its
  newest shares put inside the window (the share crossing the boundary cut at it), an account without
  such work does not appear, and the total is the smaller of the window and all submitted work.\<close>

theorem pplns_selects_window:
  assumes "allocate_pplns shares window reward bps = Ok plan"
  shows "sorted_wrt (<) (map aa_account_id (ap_accounts plan)) \<and>
    (\<forall>e \<in> set (ap_accounts plan). aa_work e = window_work_of shares window (aa_account_id e) \<and> 0 < aa_work e) \<and>
    (\<forall>a. a \<notin> aa_account_id ` set (ap_accounts plan) \<longrightarrow> window_work_of shares window a = 0) \<and>
    ap_selected_work plan = min window (sum_list (map ws_work shares))"
proof -
  obtain m where m: "select_window shares window [] [] = Ok m" "ascending m" "\<forall>e \<in> set m. 0 < snd e"
    "ap_selected_work plan = works m" and len: "length (ap_accounts plan) = length m"
    and acc: "\<And>i. i < length m \<Longrightarrow> aa_account_id (ap_accounts plan ! i) = fst (m ! i) \<and> aa_work (ap_accounts plan ! i) = snd (m ! i)"
    by (rule allocate_pplns_Ok [OF assms]) blast
  have m_eq: "m = map (\<lambda>e. (aa_account_id e, aa_work e)) (ap_accounts plan)"
    by (rule nth_equalityI) (simp_all add: len acc)
  have dist: "distinct (map fst m)" using m(2) strict_sorted_iff by blast
  have work: "account_work m a = window_work_of shares window a" and tot: "works m = min window (sum_list (map ws_work shares))" for a
    using select_window_Ok [OF m(1)] by (simp_all add: account_work_def)
  have "\<forall>e \<in> set (ap_accounts plan). aa_work e = window_work_of shares window (aa_account_id e) \<and> 0 < aa_work e"
  proof
    fix e assume "e \<in> set (ap_accounts plan)"
    then have e: "(aa_account_id e, aa_work e) \<in> set m" by (subst m_eq) simp
    then have "map_of m (aa_account_id e) = Some (aa_work e)" using dist by simp
    then show "aa_work e = window_work_of shares window (aa_account_id e) \<and> 0 < aa_work e"
      using work [of "aa_account_id e"] m(3) e by (auto simp: account_work_def)
  qed
  moreover have "window_work_of shares window a = 0" if "a \<notin> aa_account_id ` set (ap_accounts plan)" for a
  proof -
    have "fst ` set m = aa_account_id ` set (ap_accounts plan)" by (subst m_eq) (simp add: image_image)
    then show ?thesis using that work [of a] account_work_fresh [of a m] by simp
  qed
  moreover have "sorted_wrt (<) (map aa_account_id (ap_accounts plan))" 
      and "ap_selected_work plan = min window (sum_list (map ws_work shares))"
    using m(2,4) tot arg_cong [OF m_eq, of "map fst"] by (simp_all add: comp_def)
  ultimately show ?thesis by blast
qed

text \<open>A prefix of a sorted list holds the smallest keys.\<close>

lemma take_sorted_le:
  assumes "i \<in> set (take k (sort_key f xs))" "j \<in> set xs" "j \<notin> set (take k (sort_key f xs))"
  shows "f i \<le> f j"
proof -
  let ?s = "sort_key f xs"
  have "j \<in> set ?s" using assms(2) by simp
  then have "j \<in> set (take k ?s) \<or> j \<in> set (drop k ?s)" by (metis append_take_drop_id Un_iff set_append)
  then have j: "j \<in> set (drop k ?s)" using assms(3) by blast
  have "sorted (map f (take k ?s) @ map f (drop k ?s))"
    by (simp only: map_append [symmetric] append_take_drop_id sorted_sort_key)
  then show ?thesis using assms(1) j by (auto simp: sorted_append)
qed

text \<open>C31 Rewards are proportional by the largest-remainder rule: each account gets the floor of its exact
  share of the post-fee reward or one unit more, and the extra units go to the largest remainders,
  ties to the smaller account identifier.\<close>

theorem pplns_largest_remainder:
  assumes "allocate_pplns shares window reward bps = Ok plan"
  shows "\<exists>extra \<subseteq> {..<length (ap_accounts plan)}.
    let R = unat reward - unat (ap_pool_fee_zat plan); W = ap_selected_work plan;
        acct = (\<lambda>i. ap_accounts plan ! i); rem = (\<lambda>i. R * aa_work (acct i) mod W)
    in (\<forall>i < length (ap_accounts plan).
          unat (aa_amount_zat (acct i)) = R * aa_work (acct i) div W + (if i \<in> extra then 1 else 0)) \<and>
       (\<forall>i < length (ap_accounts plan). \<forall>j < length (ap_accounts plan). i \<in> extra \<and> j \<notin> extra \<longrightarrow>
          rem j < rem i \<or> rem j = rem i \<and> aa_account_id (acct i) < aa_account_id (acct j))"
proof -
  obtain m where m: "m \<noteq> []" "0 < works m" "ascending m" "ap_selected_work plan = works m"
    "unat (ap_pool_fee_zat plan) = fee_of reward bps" "length (ap_accounts plan) = length m"
    and acc: "\<And>i. i < length m \<Longrightarrow> aa_account_id (ap_accounts plan ! i) = fst (m ! i) \<and> aa_work (ap_accounts plan ! i) = snd (m ! i) \<and>
      unat (aa_amount_zat (ap_accounts plan ! i)) = (unat reward - fee_of reward bps) * snd (m ! i) div works m +
        (if i \<in> extra_units (unat reward - fee_of reward bps) m then 1 else 0)"
    by (rule allocate_pplns_Ok [OF assms]) blast
  define R where "R = unat reward - fee_of reward bps"
  let ?E = "extra_units R m" and ?rem = "\<lambda>i. R * snd (m ! i) mod works m"
  have dist: "distinct (map fst m)" using m(3) strict_sorted_iff by blast
  have key: "(case provisional_of R (works m) m ! i of (a, _, _, r) \<Rightarrow> (- int r, a)) = (- int (?rem i), fst (m ! i))"
    if "i < length m" for i using that by (simp add: provisional_of_def split_beta)
  have order: "?rem j < ?rem i \<or> ?rem j = ?rem i \<and> fst (m ! i) < fst (m ! j)"
    if ij: "i < length m" "j < length m" "i \<in> ?E" "j \<notin> ?E" for i j
  proof -
    have "(case provisional_of R (works m) m ! i of (a, _, _, r) \<Rightarrow> (- int r, a))
        \<le> (case provisional_of R (works m) m ! j of (a, _, _, r) \<Rightarrow> (- int r, a))"
      using ij by (intro take_sorted_le) (auto simp: extra_units_def remainder_order_def provisional_of_def)
    moreover have "fst (m ! i) \<noteq> fst (m ! j)" using ij dist by (metis distinct_conv_nth length_map nth_map)
    ultimately show ?thesis using ij by (auto simp: key less_eq_prod_def)
  qed
  show ?thesis
    unfolding m(4,5,6) Let_def R_def [symmetric]
    by (rule exI [of _ ?E]) (use extra_units_facts(1) [OF m(1,2)] acc order in \<open>auto simp: R_def\<close>)
qed

lemma select_window_valid:
  assumes "\<forall>s \<in> set shares. valid_share seen s" "distinct (map ws_share_id shares)"
  shows "\<exists>m'. select_window shares w seen m = Ok m' \<and> (m \<noteq> [] \<or> shares \<noteq> [] \<and> w \<noteq> 0 \<longrightarrow> m' \<noteq> [])"
  using assms
proof (induction shares w seen m rule: select_window.induct)
  case (2 s ss w seen m)
  have "entry_add k v n \<noteq> []" for k :: uuid and v n by (cases "(k, v, n)" rule: entry_add.cases) auto
  moreover have "\<forall>s' \<in> set ss. valid_share (ws_share_id s # seen) s'"
    using 2(2,3) by (auto simp: valid_share_def image_iff)
  ultimately show ?case using 2 by (auto simp: valid_share_def Let_def)
qed simp

text \<open>Valid input always gets an allocation: a non-empty window of shares with distinct non-zero
  identifiers, real accounts and positive work, a reward within the supply and a fee within the ceiling.\<close>

lemma pplns_total:
  assumes "shares \<noteq> []" "\<forall>s \<in> set shares. valid_share [] s" "distinct (map ws_share_id shares)" "window \<noteq> 0"
    and "reward \<noteq> 0" "reward \<le> MAX_CHAIN_VALUE_ZAT" "bps \<le> MAX_POOL_FEE_BPS"
  shows "\<exists>plan. allocate_pplns shares window reward bps = Ok plan"
proof -
  obtain m where "select_window shares window [] [] = Ok m" "m \<noteq> []"
    using select_window_valid [OF assms(2,3), of window "[]"] assms(1,4) by auto
  from allocate_pplns_plan [OF assms(4-7) this] show ?thesis by blast
qed

section \<open>A concrete allocation\<close>

definition example_shares :: "weighted_share list" where
  "example_shares =
     [\<lparr>ws_share_id = replicate 32 1, ws_account_id = 1, ws_work = 6\<rparr>,
      \<lparr>ws_share_id = replicate 32 2, ws_account_id = 2, ws_work = 7\<rparr>]"

lemma example_select: "select_window example_shares 10 [] [] = Ok [(1, 6), (2, 4)]"
  by code_simp

lemma example_inputs: "(10 :: nat) \<noteq> 0" "(1001 :: u64) \<noteq> 0" "(1001 :: u64) \<le> MAX_CHAIN_VALUE_ZAT" "(100 :: u16) \<le> MAX_POOL_FEE_BPS"
  by (simp_all add: MAX_CHAIN_VALUE_ZAT_def MAX_POOL_FEE_BPS_def)

lemma example_plan: "\<exists>plan. allocate_pplns example_shares 10 1001 100 = Ok plan"
  using allocate_pplns_plan [OF example_inputs example_select] by blast

theorem pplns_conserves_reward_witness:
  "\<exists>plan. allocate_pplns example_shares 10 1001 100 = Ok plan \<and>
     sum_list (map (unat \<circ> aa_amount_zat) (ap_accounts plan)) + unat (ap_pool_fee_zat plan) = 1001 \<and>
     unat (ap_pool_fee_zat plan) = 10"
proof -
  obtain plan where plan: "allocate_pplns example_shares 10 1001 100 = Ok plan" using example_plan by blast
  from pplns_conserves_reward [OF plan] plan show ?thesis by (intro exI [of _ plan]) simp
qed

theorem pplns_selects_window_witness:
  "\<exists>plan. allocate_pplns example_shares 10 1001 100 = Ok plan \<and>
     (\<forall>e \<in> set (ap_accounts plan). aa_work e = window_work_of example_shares 10 (aa_account_id e)) \<and>
     ap_selected_work plan = min 10 (sum_list (map ws_work example_shares))"
  using example_plan pplns_selects_window [of example_shares 10 1001 100] by blast

theorem pplns_largest_remainder_witness:
  "\<exists>plan extra. allocate_pplns example_shares 10 1001 100 = Ok plan \<and> extra \<subseteq> {..<length (ap_accounts plan)} \<and>
     (\<forall>i < length (ap_accounts plan). unat (aa_amount_zat (ap_accounts plan ! i)) =
        (1001 - unat (ap_pool_fee_zat plan)) * aa_work (ap_accounts plan ! i) div ap_selected_work plan +
        (if i \<in> extra then 1 else 0))"
proof -
  obtain plan where plan: "allocate_pplns example_shares 10 1001 100 = Ok plan" using example_plan by blast
  from pplns_largest_remainder [OF plan] obtain extra where "extra \<subseteq> {..<length (ap_accounts plan)}"
    and "\<forall>i < length (ap_accounts plan). unat (aa_amount_zat (ap_accounts plan ! i)) =
      (unat (1001 :: u64) - unat (ap_pool_fee_zat plan)) * aa_work (ap_accounts plan ! i) div ap_selected_work plan +
      (if i \<in> extra then 1 else 0)"
    unfolding Let_def by blast
  moreover have "unat (1001 :: u64) = 1001" by simp
  ultimately show ?thesis using plan by metis
qed

end
