(* ===== verification/Rate_Limit.thy ===== *)
theory Rate_Limit
  imports Pool_Prelude
begin

text \<open>
  \<open>crates/wcash-pool-edge/src/rate_limit.rs\<close>: the fixed-window request budget of a connection. A
  \<open>std::time::Duration\<close> is its number of nanoseconds. The process-wide \<open>ConnectionCapacity\<close> only wraps
  a runtime semaphore; its argument check is modelled, the semaphore is not.
\<close>

section \<open>Policy and limiter\<close>

definition MAXIMUM_RATE_WINDOW :: nat where "MAXIMUM_RATE_WINDOW = 300 * 10 ^ 9"
definition MAXIMUM_BURST :: u32 where "MAXIMUM_BURST = 65535"

record rate_limit =
  maximum_requests :: u32
  rl_window_ms :: u64

datatype rate_limit_error =
    InvalidMaximum u32
  | InvalidWindow
  | InvalidConnectionCapacity nat
  | Exceeded
  | RateClockMovedBackwards
  | CounterOverflow
  | ConnectionCapacityExceeded

definition RateLimit_new :: "u32 \<Rightarrow> nat \<Rightarrow> (rate_limit_error, rate_limit) result" where
  "RateLimit_new maximum window =
     (if maximum = 0 \<or> maximum > MAXIMUM_BURST then Err (InvalidMaximum maximum)
      else if window = 0 \<or> window > MAXIMUM_RATE_WINDOW then Err InvalidWindow
      else let millis = window div 10 ^ 6 in
      if millis \<ge> 2 ^ 64 then Err InvalidWindow
      else let window_ms = of_nat millis :: u64 in
      if window_ms = 0 then Err InvalidWindow
      else Ok \<lparr>maximum_requests = maximum, rl_window_ms = window_ms\<rparr>)"

record request_rate_limiter =
  rl_policy :: rate_limit
  rl_window_start_ms :: u64
  rl_used :: u32
  rl_last_now_ms :: u64

definition RequestRateLimiter_new :: "rate_limit \<Rightarrow> u64 \<Rightarrow> request_rate_limiter" where
  "RequestRateLimiter_new policy now_ms =
     \<lparr>rl_policy = policy, rl_window_start_ms = now_ms, rl_used = 0, rl_last_now_ms = now_ms\<rparr>"

definition admit :: "request_rate_limiter \<Rightarrow> u64 \<Rightarrow> (rate_limit_error, unit) result \<times> request_rate_limiter" where
  "admit l now_ms =
     (if now_ms < rl_last_now_ms l then (Err RateClockMovedBackwards, l)
      else let l = l\<lparr>rl_last_now_ms := now_ms\<rparr> in
      case checked_sub now_ms (rl_window_start_ms l) of
        None \<Rightarrow> (Err RateClockMovedBackwards, l)
      | Some elapsed \<Rightarrow>
      let l = (if elapsed \<ge> rl_window_ms (rl_policy l) then l\<lparr>rl_window_start_ms := now_ms, rl_used := 0\<rparr> else l) in
      if rl_used l = maximum_requests (rl_policy l) then (Err Exceeded, l)
      else case checked_add (rl_used l) 1 of
          None \<Rightarrow> (Err CounterOverflow, l)
        | Some used \<Rightarrow> (Ok (), l\<lparr>rl_used := used\<rparr>))"

definition ConnectionCapacity_new :: "nat \<Rightarrow> (rate_limit_error, nat) result" where
  "ConnectionCapacity_new maximum_connections =
     (if maximum_connections = 0 \<or> maximum_connections > 65535
      then Err (InvalidConnectionCapacity maximum_connections) else Ok maximum_connections)"

section \<open>The limiter's invariant\<close>

definition wf_limit :: "rate_limit \<Rightarrow> bool" where
  "wf_limit p \<longleftrightarrow> maximum_requests p \<noteq> 0 \<and> maximum_requests p \<le> MAXIMUM_BURST \<and>
     0 < unat (rl_window_ms p) \<and> unat (rl_window_ms p) \<le> 300000"

definition wf_limiter :: "request_rate_limiter \<Rightarrow> bool" where
  "wf_limiter l \<longleftrightarrow> wf_limit (rl_policy l) \<and> rl_used l \<le> maximum_requests (rl_policy l) \<and>
     rl_window_start_ms l \<le> rl_last_now_ms l"

lemma RateLimit_new_wf:
  assumes "RateLimit_new m w = Ok p"
  shows "wf_limit p"
proof -
  have w: "w \<le> 300 * 10 ^ 9" and ms: "(of_nat (w div 10 ^ 6) :: u64) \<noteq> 0"
    and p: "p = \<lparr>maximum_requests = m, rl_window_ms = of_nat (w div 10 ^ 6)\<rparr>" "m \<noteq> 0" "m \<le> MAXIMUM_BURST"
    using assms by (auto simp: RateLimit_new_def Let_def MAXIMUM_RATE_WINDOW_def not_less split: if_splits)
  have le: "w div 10 ^ 6 \<le> 300000" using w by simp
  then have "unat (of_nat (w div 10 ^ 6) :: u64) = w div 10 ^ 6" by (simp add: unat_of_nat)
  with le have "unat (of_nat (w div 10 ^ 6) :: u64) \<le> 300000" by simp
  moreover have "0 < unat (of_nat (w div 10 ^ 6) :: u64)" using ms by (rule unat_gt_0 [THEN iffD2])
  ultimately show ?thesis using p by (simp add: wf_limit_def)
qed

text \<open>One call, on each path, for a limiter that satisfies the invariant.\<close>

lemma admit_backwards: "now < rl_last_now_ms l \<Longrightarrow> admit l now = (Err RateClockMovedBackwards, l)"
  by (simp add: admit_def)

lemma admit_forward:
  assumes "wf_limiter l" "rl_last_now_ms l \<le> now"
  defines "fresh \<equiv> unat (rl_window_ms (rl_policy l)) \<le> unat now - unat (rl_window_start_ms l)"
  shows "admit l now =
    (if fresh then (Ok (), l\<lparr>rl_last_now_ms := now, rl_window_start_ms := now, rl_used := 1\<rparr>)
     else if rl_used l = maximum_requests (rl_policy l) then (Err Exceeded, l\<lparr>rl_last_now_ms := now\<rparr>)
     else (Ok (), l\<lparr>rl_last_now_ms := now, rl_used := rl_used l + 1\<rparr>))"
proof -
  have start: "rl_window_start_ms l \<le> now" using assms(1,2) by (auto simp: wf_limiter_def)
  then have e: "checked_sub now (rl_window_start_ms l) = Some (now - rl_window_start_ms l)"
    "unat (now - rl_window_start_ms l) = unat now - unat (rl_window_start_ms l)"
    by (simp_all add: checked_sub_def unat_sub)
  have "rl_used l \<le> 65535" "maximum_requests (rl_policy l) \<noteq> 0"
    using assms(1) by (auto simp: wf_limiter_def wf_limit_def MAXIMUM_BURST_def)
  then have "checked_add (rl_used l) 1 = Some (rl_used l + 1)" "checked_add (0 :: u32) 1 = Some 1"
    by (simp_all add: checked_add_def word_le_nat_alt)
  then show ?thesis
    using assms(2) e \<open>maximum_requests (rl_policy l) \<noteq> 0\<close>
    by (auto simp: admit_def Let_def fresh_def word_le_nat_alt word_less_nat_alt)
qed

lemma admit_wf: "wf_limiter l \<Longrightarrow> wf_limiter (snd (admit l now)) \<and> rl_policy (snd (admit l now)) = rl_policy l"
proof (cases "now < rl_last_now_ms l")
  case False
  assume wf: "wf_limiter l"
  have "rl_used l + 1 \<le> maximum_requests (rl_policy l)" if "rl_used l \<noteq> maximum_requests (rl_policy l)"
    using wf that by (metis wf_limiter_def inc_le order.not_eq_order_implies_strict)
  moreover have "1 \<le> maximum_requests (rl_policy l)"
    using wf by (simp add: wf_limiter_def wf_limit_def word_le_nat_alt Suc_leI unat_gt_0)
  ultimately show ?thesis
    using False wf by (auto simp: admit_forward not_less) (auto simp: wf_limiter_def)
qed (simp add: admit_backwards)

section \<open>Admissions over time\<close>

fun admitted :: "request_rate_limiter \<Rightarrow> u64 list \<Rightarrow> u64 list" where
  "admitted l [] = []"
| "admitted l (now # nows) =
     (case admit l now of (Ok _, l') \<Rightarrow> now # admitted l' nows | (Err _, l') \<Rightarrow> admitted l' nows)"

text \<open>How many of the admitted times fall into \<open>[a, b)\<close>.\<close>

definition in_interval :: "u64 list \<Rightarrow> nat \<Rightarrow> nat \<Rightarrow> nat" where
  "in_interval xs a b = length (filter (\<lambda>x. a \<le> unat x \<and> unat x < b) xs)"

lemma in_interval_Nil [simp]: "in_interval [] a b = 0"
  by (simp add: in_interval_def)

lemma in_interval_Cons [simp]:
  "in_interval (x # xs) a b = (if a \<le> unat x \<and> unat x < b then 1 else 0) + in_interval xs a b"
  by (simp add: in_interval_def)

lemma in_interval_mono: "a' \<le> a \<Longrightarrow> b \<le> b' \<Longrightarrow> in_interval xs a b \<le> in_interval xs a' b'"
  by (induction xs) auto

lemma in_interval_split: "in_interval xs a b \<le> in_interval xs a c + in_interval xs c b"
  by (induction xs) auto

text \<open>Relative to the state a run starts in: nothing is admitted before the last observation, the current
  window admits at most what is left of the budget, the following window length at most one budget.\<close>

definition admission_bounds :: "request_rate_limiter \<Rightarrow> u64 list \<Rightarrow> bool" where
  "admission_bounds l xs \<longleftrightarrow>
     (let start = unat (rl_window_start_ms l); W = unat (rl_window_ms (rl_policy l));
          budget = unat (maximum_requests (rl_policy l))
      in (\<forall>x \<in> set xs. unat (rl_last_now_ms l) \<le> unat x) \<and>
         in_interval xs 0 (start + W) + unat (rl_used l) \<le> budget \<and>
         in_interval xs (start + W) (start + 2 * W) \<le> budget \<and>
         (\<forall>t. in_interval xs t (t + W) \<le> 2 * budget))"

lemma in_interval_below: "\<forall>x \<in> set xs. m \<le> unat x \<Longrightarrow> b \<le> m \<Longrightarrow> in_interval xs a b = 0"
  by (induction xs) auto

lemma bounds_quiet:
  assumes "admission_bounds (l\<lparr>rl_last_now_ms := now\<rparr>) xs" "rl_last_now_ms l \<le> now"
  shows "admission_bounds l xs"
  using assms by (fastforce simp: admission_bounds_def Let_def word_le_nat_alt)

lemma bounds_same_window:
  assumes b: "admission_bounds (l\<lparr>rl_last_now_ms := now, rl_used := rl_used l + 1\<rparr>) xs" and "rl_last_now_ms l \<le> now"
    and used: "unat (rl_used l + 1) = unat (rl_used l) + 1"
    and win: "unat now < unat (rl_window_start_ms l) + unat (rl_window_ms (rl_policy l))"
  shows "admission_bounds l (now # xs)"
proof -
  let ?s = "unat (rl_window_start_ms l)" and ?W = "unat (rl_window_ms (rl_policy l))"
  let ?B = "unat (maximum_requests (rl_policy l))"
  have x: "\<forall>x \<in> set xs. unat now \<le> unat x" and cur: "in_interval xs 0 (?s + ?W) + (unat (rl_used l) + 1) \<le> ?B"
    and nxt: "in_interval xs (?s + ?W) (?s + 2 * ?W) \<le> ?B" and any: "in_interval xs t (t + ?W) \<le> 2 * ?B" for t
    using b used by (simp_all add: admission_bounds_def Let_def)
  have "in_interval (now # xs) t (t + ?W) \<le> 2 * ?B" for t
  proof (cases "t \<le> unat now")
    case True
    have "in_interval xs t (t + ?W) \<le> in_interval xs t (?s + ?W) + in_interval xs (?s + ?W) (t + ?W)"
      by (rule in_interval_split)
    also have "\<dots> \<le> in_interval xs 0 (?s + ?W) + in_interval xs (?s + ?W) (?s + 2 * ?W)"
      by (rule add_mono [OF in_interval_mono in_interval_mono]) (use True win in simp_all)
    finally show ?thesis using cur nxt by simp
  qed (use any in simp)
  moreover have "\<forall>x \<in> set (now # xs). unat (rl_last_now_ms l) \<le> unat x"
    using x assms(2) by (auto simp: word_le_nat_alt intro: order.trans)
  ultimately show ?thesis using cur nxt win by (simp add: admission_bounds_def Let_def)
qed

lemma bounds_fresh_window:
  assumes b: "admission_bounds (l\<lparr>rl_last_now_ms := now, rl_window_start_ms := now, rl_used := 1\<rparr>) xs"
    and "rl_last_now_ms l \<le> now" and used: "rl_used l \<le> maximum_requests (rl_policy l)"
    and win: "unat (rl_window_start_ms l) + unat (rl_window_ms (rl_policy l)) \<le> unat now"
  shows "admission_bounds l (now # xs)"
proof -
  let ?s = "unat (rl_window_start_ms l)" and ?W = "unat (rl_window_ms (rl_policy l))"
  let ?B = "unat (maximum_requests (rl_policy l))"
  have x: "\<forall>x \<in> set xs. unat now \<le> unat x" and cur: "in_interval xs 0 (unat now + ?W) + 1 \<le> ?B"
    and any: "in_interval xs t (t + ?W) \<le> 2 * ?B" for t
    using b by (simp_all add: admission_bounds_def Let_def)
  have any': "in_interval (now # xs) t (t + ?W) \<le> 2 * ?B" for t
  proof (cases "t \<le> unat now")
    case True
    then have "in_interval xs t (t + ?W) \<le> in_interval xs 0 (unat now + ?W)" by (intro in_interval_mono) simp_all
    then show ?thesis using cur by simp
  qed (use any in simp)
  have "in_interval xs (?s + ?W) (?s + 2 * ?W) \<le> in_interval xs 0 (unat now + ?W)"
    using win by (intro in_interval_mono) simp_all
  then have "in_interval (now # xs) (?s + ?W) (?s + 2 * ?W) \<le> ?B" using cur by simp
  moreover have "in_interval (now # xs) 0 (?s + ?W) = 0"
    using in_interval_below [OF x win, of 0] win by simp
  moreover have "\<forall>x \<in> set (now # xs). unat (rl_last_now_ms l) \<le> unat x"
    using x assms(2) by (auto simp: word_le_nat_alt intro: order.trans)
  ultimately show ?thesis using any' used by (simp add: admission_bounds_def Let_def word_le_nat_alt)
qed

lemma admitted_bounds: "wf_limiter l \<Longrightarrow> admission_bounds l (admitted l nows)"
proof (induction nows arbitrary: l)
  case Nil
  then show ?case by (simp add: admission_bounds_def wf_limiter_def Let_def word_le_nat_alt)
next
  case (Cons now nows)
  note wf' = admit_wf [OF Cons.prems, of now]
  show ?case
  proof (cases "now < rl_last_now_ms l")
    case True
    then show ?thesis using Cons by (simp add: admit_backwards)
  next
    case False
    then have now: "rl_last_now_ms l \<le> now" by simp
    note eq = admit_forward [OF Cons.prems now]
    have start: "unat (rl_window_start_ms l) \<le> unat now"
      using Cons.prems now by (auto simp: wf_limiter_def word_le_nat_alt)
    have used: "rl_used l \<le> maximum_requests (rl_policy l)" using Cons.prems by (simp add: wf_limiter_def)
    show ?thesis
    proof (cases "unat (rl_window_ms (rl_policy l)) \<le> unat now - unat (rl_window_start_ms l)")
      case True
      then show ?thesis using Cons.IH wf' bounds_fresh_window [OF _ now used] start by (simp add: eq)
    next
      case same: False
      have "unat (rl_used l + 1) = unat (rl_used l) + 1"
        using Cons.prems by (subst unat_add_of_less)
          (simp_all add: wf_limiter_def wf_limit_def MAXIMUM_BURST_def word_le_nat_alt)
      then show ?thesis
        using Cons.IH wf' bounds_quiet [OF _ now] bounds_same_window [OF _ now] start same
        by (cases "rl_used l = maximum_requests (rl_policy l)") (simp_all add: eq)
    qed
  qed
qed

interpretation limiter: invariant_system "\<lambda>l. \<exists>m w p now. RateLimit_new m w = Ok p \<and> l = RequestRateLimiter_new p now"
  "\<lambda>l l'. \<exists>now. l' = snd (admit l now)" wf_limiter
proof
  show "wf_limiter l" if "\<exists>m w p now. RateLimit_new m w = Ok p \<and> l = RequestRateLimiter_new p now" for l
    using that RateLimit_new_wf by (auto simp: RequestRateLimiter_new_def wf_limiter_def)
  show "wf_limiter l'" if "\<exists>now. l' = snd (admit l now)" "wf_limiter l" for l l'
    using that admit_wf by blast
qed

section \<open>Properties\<close>

text \<open>C35 The request budget holds over every time interval of one window length, not only over the limiter's own
  windows: whatever the arrival times, at most twice the budget is admitted in it.\<close>

theorem rate_limit_sliding_bound:
  assumes "RateLimit_new m w = Ok policy"
  shows "in_interval (admitted (RequestRateLimiter_new policy start) nows) t (t + unat (rl_window_ms policy))
    \<le> 2 * unat (maximum_requests policy)"
proof -
  let ?l = "RequestRateLimiter_new policy start"
  have "wf_limiter ?l" using RateLimit_new_wf [OF assms] by (simp add: wf_limiter_def RequestRateLimiter_new_def)
  from admitted_bounds [OF this, of nows] show ?thesis
    by (simp add: admission_bounds_def RequestRateLimiter_new_def Let_def)
qed

theorem rate_limit_sliding_bound_witness:
  "in_interval (admitted (RequestRateLimiter_new \<lparr>maximum_requests = 2, rl_window_ms = 1\<rparr> 5) [5, 5, 5, 6, 7]) 5 (5 + 1) \<le> 4"
proof -
  have "RateLimit_new 2 1000000 = Ok \<lparr>maximum_requests = 2, rl_window_ms = 1\<rparr>"
    by (simp add: RateLimit_new_def MAXIMUM_BURST_def MAXIMUM_RATE_WINDOW_def)
  from rate_limit_sliding_bound [OF this, of 5 "[5, 5, 5, 6, 7]" 5] show ?thesis by simp
qed

text \<open>The outcome of each call on a reachable limiter: a clock that went back is refused without a change,
  a request in a new window is always admitted, one in the current window exactly while the budget lasts;
  the counter never overflows.\<close>

lemma admit_outcome:
  assumes "reach (\<lambda>l. \<exists>m w p now. RateLimit_new m w = Ok p \<and> l = RequestRateLimiter_new p now)
      (\<lambda>l l'. \<exists>now. l' = snd (admit l now)) l"
  shows "fst (admit l now) =
    (if now < rl_last_now_ms l then Err RateClockMovedBackwards
     else if unat now < unat (rl_window_start_ms l) + unat (rl_window_ms (rl_policy l)) \<and>
        rl_used l = maximum_requests (rl_policy l) then Err Exceeded
     else Ok ())"
proof (cases "now < rl_last_now_ms l")
  case False
  have wf: "wf_limiter l" by (rule limiter.reach_inv [OF assms])
  then have "rl_window_start_ms l \<le> rl_last_now_ms l" by (simp add: wf_limiter_def)
  with False have "unat (rl_window_start_ms l) \<le> unat now" by (auto simp: word_le_nat_alt word_less_nat_alt)
  with False show ?thesis by (auto simp: admit_forward [OF wf])
qed (simp add: admit_backwards)

end
