(* ===== verification/Backend_Messages.thy ===== *)
theory Backend_Messages
  imports Backend_Types
begin

text \<open>
  Journal events, requests and messages of \<open>crates/wcash-pool-protocol/src/backend.rs\<close> with their
  validators. A validator's early returns are the \<open>try_all\<close> chain in source order.
\<close>

section \<open>Winner events\<close>

definition validate_winner_reference ::
  "bytes \<Rightarrow> bytes \<Rightarrow> winner_descriptor \<Rightarrow> (protocol_error, unit) result" where
  "validate_winner_reference share_id job_id winner = try_all
     [require_nonzero_hex share_id ''winner_event.share_id'',
      require_nonzero_hex job_id ''winner_event.job_id'',
      WinnerDescriptor_validate winner]"

definition validate_winner_observation ::
  "bytes \<Rightarrow> bytes \<Rightarrow> winner_descriptor \<Rightarrow> chain_tip \<Rightarrow> u32 \<Rightarrow> bool \<Rightarrow> (protocol_error, unit) result" where
  "validate_winner_observation share_id job_id winner tip confirmations matured =
     and_then (validate_winner_reference share_id job_id winner) (\<lambda>_.
     and_then (ChainTip_validate tip) (\<lambda>_.
     let tip_is_winner = (ct_block_hash_le tip = wd_block_hash_le winner);
         tip_is_at_winner_height = (ct_height tip = wd_height winner)
     in if tip_is_winner \<noteq> tip_is_at_winner_height then
       Err (invalid ''winner_event.tip'' ''tip hash must equal the winner hash exactly at the winner height'')
     else and_then (ok_or (Option.bind (checked_sub (ct_height tip) (wd_height winner)) (\<lambda>depth. checked_add depth 1))
       (invalid ''winner_event.confirmations'' ''tip height must be at or above the winner height'')) (\<lambda>expected.
     if confirmations \<noteq> expected then
       Err (invalid ''winner_event.confirmations'' ''must equal tip height minus winner height plus one'')
     else if matured \<and> confirmations < wd_maturity_confirmations winner then
       Err (invalid ''winner_event.confirmations''
         ''matured winner has not reached its immutable confirmation requirement'')
     else Ok ())))"

definition validate_zcash_winner_side_chain ::
  "bytes \<Rightarrow> bytes \<Rightarrow> winner_descriptor \<Rightarrow> chain_tip \<Rightarrow> (protocol_error, unit) result" where
  "validate_zcash_winner_side_chain share_id job_id winner tip = try_all
     [validate_winner_reference share_id job_id winner,
      ChainTip_validate tip,
      ensure (wd_chain winner = Zcash) (invalid ''winner_event.chain'' ''side-chain monitoring requires Zcash''),
      ensure (ct_block_hash_le tip \<noteq> wd_block_hash_le winner)
        (invalid ''winner_event.tip'' ''side-chain tip must not be the candidate block'')]"

definition validate_winner_orphan ::
  "bytes \<Rightarrow> bytes \<Rightarrow> winner_descriptor \<Rightarrow> chain_tip \<Rightarrow> (protocol_error, unit) result" where
  "validate_winner_orphan share_id job_id winner tip = try_all
     [validate_winner_reference share_id job_id winner,
      ChainTip_validate tip,
      ensure (ct_block_hash_le tip \<noteq> wd_block_hash_le winner)
        (invalid ''winner_event.tip'' ''orphan replacement tip must not be the winning block'')]"

definition validate_wcash_winner_transition ::
  "bytes \<Rightarrow> bytes \<Rightarrow> winner_descriptor \<Rightarrow> chain_tip \<Rightarrow> (protocol_error, unit) result" where
  "validate_wcash_winner_transition share_id job_id winner tip = try_all
     [validate_winner_reference share_id job_id winner,
      ensure (wd_chain winner = Wcash)
        (invalid ''winner_event.winner.chain'' ''conflicting-witness quarantine is Wcash-only''),
      ChainTip_validate tip]"

definition validate_wcash_winner_quarantine ::
  "bytes \<Rightarrow> bytes \<Rightarrow> winner_descriptor \<Rightarrow> chain_tip \<Rightarrow> (protocol_error, unit) result" where
  "validate_wcash_winner_quarantine share_id job_id winner tip =
     (let tip_is_winner = (ct_block_hash_le tip = wd_block_hash_le winner);
          tip_is_at_winner_height = (ct_height tip = wd_height winner)
      in try_all
        [validate_wcash_winner_transition share_id job_id winner tip,
         ensure (wd_height winner \<le> ct_height tip)
           (invalid ''winner_event.tip'' ''quarantine tip must be at or above the Wcash winner height''),
         ensure (\<not> (tip_is_winner \<and> \<not> tip_is_at_winner_height))
           (invalid ''winner_event.tip'' ''the Wcash winner ID cannot appear at a different tip height'')])"

definition validate_wcash_winner_requeue ::
  "bytes \<Rightarrow> bytes \<Rightarrow> winner_descriptor \<Rightarrow> chain_tip \<Rightarrow> (protocol_error, unit) result" where
  "validate_wcash_winner_requeue share_id job_id winner tip = try_all
     [validate_wcash_winner_transition share_id job_id winner tip,
      ensure (ct_block_hash_le tip \<noteq> wd_block_hash_le winner)
        (invalid ''winner_event.tip'' ''requeue tip must not be the quarantined Wcash winner'')]"

section \<open>Journal events\<close>

text \<open>Constructor arguments in field order; winner events carry
  \<open>event_seq, share_id, job_id, winner, tip\<close> and, where the code has them, \<open>confirmations\<close>.\<close>

datatype backend_event =
    JobActivated u64 job_descriptor
  | JobInvalidated u64 bytes job_invalidation_reason u32
  | GenerationClosed u64 bytes
  | ShareCommittedEvent share_receipt bytes worker_identity target_le
  | WinnerObserved u64 bytes bytes winner_descriptor chain_tip u32
  | WinnerSideChain u64 bytes bytes winner_descriptor chain_tip
  | WinnerOrphaned u64 bytes bytes winner_descriptor chain_tip
  | WinnerQuarantined u64 bytes bytes winner_descriptor chain_tip
  | WinnerRequeued u64 bytes bytes winner_descriptor chain_tip
  | WinnerMatured u64 bytes bytes winner_descriptor chain_tip u32

fun BackendEvent_event_seq :: "backend_event \<Rightarrow> u64" where
  "BackendEvent_event_seq (JobActivated event_seq _) = event_seq"
| "BackendEvent_event_seq (JobInvalidated event_seq _ _ _) = event_seq"
| "BackendEvent_event_seq (GenerationClosed event_seq _) = event_seq"
| "BackendEvent_event_seq (ShareCommittedEvent receipt _ _ _) = sr_event_seq receipt"
| "BackendEvent_event_seq (WinnerObserved event_seq _ _ _ _ _) = event_seq"
| "BackendEvent_event_seq (WinnerSideChain event_seq _ _ _ _) = event_seq"
| "BackendEvent_event_seq (WinnerOrphaned event_seq _ _ _ _) = event_seq"
| "BackendEvent_event_seq (WinnerQuarantined event_seq _ _ _ _) = event_seq"
| "BackendEvent_event_seq (WinnerRequeued event_seq _ _ _ _) = event_seq"
| "BackendEvent_event_seq (WinnerMatured event_seq _ _ _ _ _) = event_seq"

definition validate_invalidation_grace :: "job_invalidation_reason \<Rightarrow> u32 \<Rightarrow> (protocol_error, unit) result" where
  "validate_invalidation_grace reason accept_for_ms =
     (case reason of
        WcashTipChanged \<Rightarrow> ensure (accept_for_ms = 0) (invalid ''event.accept_for_ms'' ''tip changes must be immediately stale'')
      | ZcashTipChanged \<Rightarrow> ensure (accept_for_ms = 0) (invalid ''event.accept_for_ms'' ''tip changes must be immediately stale'')
      | Superseded \<Rightarrow> ensure (1 \<le> accept_for_ms \<and> accept_for_ms \<le> 60000)
          (invalid ''event.accept_for_ms'' ''superseded work needs 1..=60000 milliseconds of grace'')
      | Age \<Rightarrow> ensure (accept_for_ms = 0)
          (invalid ''event.accept_for_ms'' ''age-expired work must be immediately stale''))"

definition BackendEvent_validate :: "(bytes \<Rightarrow> bytes) \<Rightarrow> backend_event \<Rightarrow> (protocol_error, unit) result" where
  "BackendEvent_validate sha256 event =
     and_then (ensure (BackendEvent_event_seq event \<noteq> 0) (invalid ''event.event_seq'' ''must be positive'')) (\<lambda>_.
     case event of
       JobActivated _ job \<Rightarrow> JobDescriptor_validate job
     | JobInvalidated _ job_id reason accept_for_ms \<Rightarrow> try_all
         [require_nonzero_hex job_id ''event.job_id'', validate_invalidation_grace reason accept_for_ms]
     | GenerationClosed _ job_id \<Rightarrow> require_nonzero_hex job_id ''event.job_id''
     | ShareCommittedEvent receipt job_id identity target_le \<Rightarrow>
         and_then (ShareReceipt_validate receipt) (\<lambda>_.
         and_then (require_nonzero_hex job_id ''event.job_id'') (\<lambda>_.
         and_then (ensure (sr_job_id receipt = job_id)
           (invalid ''event.job_id'' ''must match share_receipt.job_id'')) (\<lambda>_.
         and_then (canonical_attribution_id sha256 identity target_le) (\<lambda>attribution_id.
         and_then (ensure (sr_attribution_id receipt = attribution_id)
           (invalid ''event.attribution'' ''must match share_receipt.attribution_id'')) (\<lambda>_.
         and_then (WorkerIdentity_validate identity) (\<lambda>_.
         require_nonzero_target target_le ''event.target_le''))))))
     | WinnerObserved _ share_id job_id winner tip confirmations \<Rightarrow>
         validate_winner_observation share_id job_id winner tip confirmations False
     | WinnerSideChain _ share_id job_id winner tip \<Rightarrow> validate_zcash_winner_side_chain share_id job_id winner tip
     | WinnerOrphaned _ share_id job_id winner tip \<Rightarrow> validate_winner_orphan share_id job_id winner tip
     | WinnerQuarantined _ share_id job_id winner tip \<Rightarrow> validate_wcash_winner_quarantine share_id job_id winner tip
     | WinnerRequeued _ share_id job_id winner tip \<Rightarrow> validate_wcash_winner_requeue share_id job_id winner tip
     | WinnerMatured _ share_id job_id winner tip confirmations \<Rightarrow>
         validate_winner_observation share_id job_id winner tip confirmations True)"

section \<open>Requests\<close>

record submit_share =
  ss_version :: u16
  ss_id :: u64
  ss_job_id :: bytes
  ss_identity :: worker_identity
  ss_target_le :: target_le
  ss_time :: bytes
  ss_nonce :: bytes
  ss_solution :: bytes

text \<open>The variant \<open>SubmitShare\<close> carries the fields of the struct of the same name.\<close>

datatype backend_request =
    Hello u16 u64 uuid u64
  | SubscribeJobs u16 u64 u64
  | SubmitShare submit_share
  | ReadEvents u16 u64 u64 u16
  | Health u16 u64

fun BackendRequest_version :: "backend_request \<Rightarrow> u16" where
  "BackendRequest_version (Hello version _ _ _) = version"
| "BackendRequest_version (SubscribeJobs version _ _) = version"
| "BackendRequest_version (SubmitShare s) = ss_version s"
| "BackendRequest_version (ReadEvents version _ _ _) = version"
| "BackendRequest_version (Health version _) = version"

fun BackendRequest_id :: "backend_request \<Rightarrow> u64" where
  "BackendRequest_id (Hello _ rid _ _) = rid"
| "BackendRequest_id (SubscribeJobs _ rid _) = rid"
| "BackendRequest_id (SubmitShare s) = ss_id s"
| "BackendRequest_id (ReadEvents _ rid _ _) = rid"
| "BackendRequest_id (Health _ rid) = rid"

definition BackendRequest_validate :: "backend_request \<Rightarrow> (protocol_error, unit) result" where
  "BackendRequest_validate request =
     and_then (validate_backend_header (BackendRequest_version request) (BackendRequest_id request)) (\<lambda>_.
     case request of
       Hello _ _ pool_instance _ \<Rightarrow> require_non_nil_uuid pool_instance ''hello.pool_instance''
     | SubmitShare s \<Rightarrow> try_all
         [require_nonzero_hex (ss_job_id s) ''submit_share.job_id'',
          WorkerIdentity_validate (ss_identity s),
          require_nonzero_target (ss_target_le s) ''submit_share.target_le'',
          require_nonzero_hex (ss_time s) ''submit_share.time'']
     | ReadEvents _ _ _ limit \<Rightarrow> ensure (1 \<le> limit \<and> limit \<le> MAX_EVENT_PAGE_ITEMS)
         (invalid ''read_events.limit'' (''must be in 1..='' @ decimal (unat MAX_EVENT_PAGE_ITEMS)))
     | SubscribeJobs _ _ _ \<Rightarrow> Ok ()
     | Health _ _ \<Rightarrow> Ok ())"

definition SubmitShare_validate :: "submit_share \<Rightarrow> (protocol_error, unit) result" where
  "SubmitShare_validate s = try_all
     [validate_backend_header (ss_version s) (ss_id s),
      require_nonzero_hex (ss_job_id s) ''submit_share.job_id'',
      WorkerIdentity_validate (ss_identity s),
      require_nonzero_target (ss_target_le s) ''submit_share.target_le'',
      require_nonzero_hex (ss_time s) ''submit_share.time'']"

section \<open>Messages\<close>

record hello_ok =
  ho_id :: u64
  ho_backend_session :: uuid
  ho_backend_instance :: uuid
  ho_journal_stream :: uuid
  ho_capabilities :: "backend_capability list"
  ho_wcash_genesis :: bytes
  ho_zcash_genesis :: bytes
  ho_wcash_payout_commitment :: bytes
  ho_zcash_payout_commitment :: bytes
  ho_share_target_ceiling_be :: target_be
  ho_chain_id :: u32
  ho_current_event_seq :: u64

datatype backend_message =
    HelloOk u16 hello_ok
  | JobSnapshot u16 u64 u64 "acceptable_job option" "acceptable_job list"
  | ShareCommitted u16 u64 share_receipt bool
  | EventsPage u16 u64 u64 u64 bool "backend_event list"
  | HealthStatus u16 u64 u64 bool bool u32 u32 u32
  | BackendError u16 u64 backend_error_code string
  | BackendEventMessage u16 backend_event

fun BackendMessage_version :: "backend_message \<Rightarrow> u16" where
  "BackendMessage_version (HelloOk version _) = version"
| "BackendMessage_version (JobSnapshot version _ _ _ _) = version"
| "BackendMessage_version (ShareCommitted version _ _ _) = version"
| "BackendMessage_version (EventsPage version _ _ _ _ _) = version"
| "BackendMessage_version (HealthStatus version _ _ _ _ _ _ _) = version"
| "BackendMessage_version (BackendError version _ _ _) = version"
| "BackendMessage_version (BackendEventMessage version _) = version"

fun BackendMessage_correlation_id :: "backend_message \<Rightarrow> u64 option" where
  "BackendMessage_correlation_id (HelloOk _ h) = Some (ho_id h)"
| "BackendMessage_correlation_id (JobSnapshot _ rid _ _ _) = Some rid"
| "BackendMessage_correlation_id (ShareCommitted _ rid _ _) = Some rid"
| "BackendMessage_correlation_id (EventsPage _ rid _ _ _ _) = Some rid"
| "BackendMessage_correlation_id (HealthStatus _ rid _ _ _ _ _ _) = Some rid"
| "BackendMessage_correlation_id (BackendError _ rid _ _) = Some rid"
| "BackendMessage_correlation_id (BackendEventMessage _ _) = None"

text \<open>\<open>xs.iter().enumerate().any(|(index, x)| xs[..index].contains(x))\<close>.\<close>

definition contains_repeat :: "'a list \<Rightarrow> bool" where
  "contains_repeat xs = list_ex (\<lambda>index. xs ! index \<in> set (take index xs)) [0 ..< length xs]"

definition HelloOk_validate :: "hello_ok \<Rightarrow> (protocol_error, unit) result" where
  "HelloOk_validate h = try_all
     [require_nonzero_id (ho_id h),
      require_non_nil_uuid (ho_backend_session h) ''hello_ok.backend_session'',
      require_non_nil_uuid (ho_backend_instance h) ''hello_ok.backend_instance'',
      require_non_nil_uuid (ho_journal_stream h) ''hello_ok.journal_stream'',
      ensure (\<not> (ho_backend_session h = ho_backend_instance h \<or> ho_backend_session h = ho_journal_stream h \<or>
                 ho_backend_instance h = ho_journal_stream h))
        (invalid ''hello_ok identities'' ''session, backend instance, and journal stream must be distinct''),
      ensure (\<not> (length (ho_capabilities h) \<noteq> length REQUIRED_BACKEND_CAPABILITIES \<or>
                 contains_repeat (ho_capabilities h) \<or>
                 list_ex (\<lambda>required. required \<notin> set (ho_capabilities h)) REQUIRED_BACKEND_CAPABILITIES))
        (invalid ''hello_ok.capabilities'' ''must contain every required capability exactly once''),
      require_nonzero_hex (ho_wcash_genesis h) ''hello_ok.wcash_genesis'',
      require_nonzero_hex (ho_zcash_genesis h) ''hello_ok.zcash_genesis'',
      require_nonzero_hex (ho_wcash_payout_commitment h) ''hello_ok.wcash_payout_commitment'',
      require_nonzero_hex (ho_zcash_payout_commitment h) ''hello_ok.zcash_payout_commitment'',
      ensure (\<not> TargetBe_is_zero (ho_share_target_ceiling_be h))
        (invalid ''hello_ok.share_target_ceiling_be'' ''must be nonzero''),
      ensure (ho_chain_id h \<noteq> 0) (invalid ''hello_ok.chain_id'' ''must be nonzero'')]"

definition JobSnapshot_validate ::
  "u64 \<Rightarrow> acceptable_job option \<Rightarrow> acceptable_job list \<Rightarrow> (protocol_error, unit) result" where
  "JobSnapshot_validate rid current recent =
     (let ids = map (\<lambda>entry. jd_job_id (aj_job entry)) ((case current of None \<Rightarrow> [] | Some c \<Rightarrow> [c]) @ recent)
      in try_all
        ([require_nonzero_id rid,
          ensure (length recent \<le> 2) (invalid ''job_snapshot.recent'' ''must contain at most two jobs''),
          (case current of None \<Rightarrow> Ok () | Some c \<Rightarrow> AcceptableJob_validate c)] @
         map AcceptableJob_validate recent @
         [ensure (\<not> contains_repeat ids) (invalid ''job_snapshot'' ''contains the same job more than once'')]))"

text \<open>The loop over the events of a page; its value is the last sequence seen.\<close>

fun validate_page_events ::
  "(bytes \<Rightarrow> bytes) \<Rightarrow> u64 \<Rightarrow> backend_event list \<Rightarrow> (protocol_error, u64) result" where
  "validate_page_events sha256 previous [] = Ok previous"
| "validate_page_events sha256 previous (event # events) =
     and_then (BackendEvent_validate sha256 event) (\<lambda>_.
     and_then (ok_or (checked_add previous 1)
       (invalid ''events_page.events'' ''event sequence overflowed after the cursor'')) (\<lambda>expected.
     if BackendEvent_event_seq event \<noteq> expected then
       Err (invalid ''events_page.events'' ''event sequences must be contiguous after the cursor'')
     else validate_page_events sha256 (BackendEvent_event_seq event) events))"

definition EventsPage_validate ::
  "(bytes \<Rightarrow> bytes) \<Rightarrow> u64 \<Rightarrow> u64 \<Rightarrow> u64 \<Rightarrow> bool \<Rightarrow> backend_event list \<Rightarrow> (protocol_error, unit) result" where
  "EventsPage_validate sha256 rid after_event_seq next_event_seq complete events =
     and_then (require_nonzero_id rid) (\<lambda>_.
     if length events > unat MAX_EVENT_PAGE_ITEMS then
       Err (invalid ''events_page.events''
         (''must contain at most '' @ decimal (unat MAX_EVENT_PAGE_ITEMS) @ '' events''))
     else if \<not> complete \<and> events = [] then
       Err (invalid ''events_page.events'' ''an incomplete page must advance with at least one event'')
     else and_then (validate_page_events sha256 after_event_seq events) (\<lambda>previous.
     if next_event_seq \<noteq> previous then
       Err (invalid ''events_page.next_event_seq'' ''must equal the final event sequence or the empty-page cursor'')
     else Ok ()))"

definition HealthStatus_validate :: "u64 \<Rightarrow> bool \<Rightarrow> bool \<Rightarrow> u32 \<Rightarrow> u32 \<Rightarrow> (protocol_error, unit) result" where
  "HealthStatus_validate rid healthy recovery_only pending_wcash quarantined_wcash = try_all
     [require_nonzero_id rid,
      ensure (\<not> (healthy \<and> recovery_only))
        (invalid ''health_status.recovery_only'' ''cannot be combined with ordinary healthy admission''),
      ensure (quarantined_wcash \<le> pending_wcash)
        (invalid ''health_status.quarantined_wcash'' ''must not exceed pending_wcash'')]"

definition BackendMessage_validate :: "(bytes \<Rightarrow> bytes) \<Rightarrow> backend_message \<Rightarrow> (protocol_error, unit) result" where
  "BackendMessage_validate sha256 message =
     and_then (ensure (BackendMessage_version message = BACKEND_PROTOCOL_VERSION)
       (invalid ''backend.v'' (''must equal '' @ decimal (unat BACKEND_PROTOCOL_VERSION)))) (\<lambda>_.
     case message of
       HelloOk _ h \<Rightarrow> HelloOk_validate h
     | JobSnapshot _ rid _ current recent \<Rightarrow> JobSnapshot_validate rid current recent
     | ShareCommitted _ rid receipt _ \<Rightarrow> try_all [require_nonzero_id rid, ShareReceipt_validate receipt]
     | EventsPage _ rid after_event_seq next_event_seq complete events \<Rightarrow>
         EventsPage_validate sha256 rid after_event_seq next_event_seq complete events
     | HealthStatus _ rid _ healthy recovery_only pending_wcash quarantined_wcash _ \<Rightarrow>
         HealthStatus_validate rid healthy recovery_only pending_wcash quarantined_wcash
     | BackendError _ rid _ msg \<Rightarrow> try_all
         [(if rid \<noteq> 0 then require_nonzero_id rid else Ok ()), validate_bounded_text msg 1 512 ''error.message'']
     | BackendEventMessage _ event \<Rightarrow> BackendEvent_validate sha256 event)"

end
