(* ===== verification/Stream_Decoder.thy ===== *)
theory Stream_Decoder
  imports Pool_Prelude
begin

text \<open>
  What a transport relies on when it feeds received bytes to an incremental decoder, and the receive loop of
  \<open>crates/wcash-pool-edge/src/stream.rs\<close> (\<open>handle_received\<close>) as far as framing goes. Inside the locale the loop is
  shown to depend only on the byte stream and not on how the network cut it into reads; both codecs of
  \<open>crates/wcash-pool-protocol\<close> are interpretations.
\<close>

section \<open>The receive loop\<close>

text \<open>A decoder call returns the number of consumed bytes and at most one message, or an error.\<close>

type_synonym ('e, 'm, 's) decoder = "'s \<Rightarrow> bytes \<Rightarrow> ('e, nat \<times> 'm option) result \<times> 's"

datatype 'e receive_error = Framing 'e | DecoderMadeNoProgress

text \<open>The messages of one read in order, the error that ended it, and the decoder's new state.\<close>

function drain :: "('e, 'm, 's) decoder \<Rightarrow> 's \<Rightarrow> bytes \<Rightarrow> 'm list \<times> 'e receive_error option \<times> 's" where
  "drain decode s input =
     (if input = [] then ([], None, s)
      else case decode s input of
        (Err e, s') \<Rightarrow> ([], Some (Framing e), s')
      | (Ok (n, m), s') \<Rightarrow>
          if n = 0 then ([], Some DecoderMadeNoProgress, s')
          else let (ms, e, s'') = drain decode s' (drop n input)
               in (case m of None \<Rightarrow> ms | Some x \<Rightarrow> x # ms, e, s''))"
  by auto
termination by (relation "measure (\<lambda>(_, _, input). length input)") auto

declare drain.simps [simp del]

text \<open>Successive reads of one connection; the first error ends it.\<close>

fun drain_reads :: "('e, 'm, 's) decoder \<Rightarrow> 's \<Rightarrow> bytes list \<Rightarrow> 'm list \<times> 'e receive_error option \<times> 's" where
  "drain_reads decode s [] = ([], None, s)"
| "drain_reads decode s (chunk # chunks) =
     (case drain decode s chunk of
        (ms, Some e, s') \<Rightarrow> (ms, Some e, s')
      | (ms, None, s') \<Rightarrow> let (ms', e, s'') = drain_reads decode s' chunks in (ms @ ms', e, s''))"

definition shift_consumed :: "nat \<Rightarrow> ('e, nat \<times> 'm option) result \<times> 's \<Rightarrow> ('e, nat \<times> 'm option) result \<times> 's" where
  "shift_consumed k out = (case out of (Ok (n, m), s) \<Rightarrow> (Ok (k + n, m), s) | (Err e, s) \<Rightarrow> (Err e, s))"

lemma shift_consumed_simps [simp]:
  "shift_consumed k (Ok (n, m), s) = (Ok (k + n, m), s)" "shift_consumed k (Err e, s) = (Err e, s)"
  by (simp_all add: shift_consumed_def)

lemma shift_consumed_emit [simp]:
  "shift_consumed k (and_then r (\<lambda>m. Ok (n, Some m)), s) = (and_then r (\<lambda>m. Ok (k + n, Some m)), s)"
  by (cases r) simp_all

section \<open>The contract of an incremental decoder\<close>

locale frame_decoder =
  fixes decode :: "('e, 'm, 's) decoder" and inv :: "'s \<Rightarrow> bool"
  assumes need_more: "inv s \<Longrightarrow> decode s xs = (Ok (n, None), s') \<Longrightarrow>
      n = length xs \<and> inv s' \<and> decode s (xs @ ys) = shift_consumed (length xs) (decode s' ys)"
    and emit: "inv s \<Longrightarrow> decode s xs = (Ok (n, Some m), s') \<Longrightarrow>
      0 < n \<and> n \<le> length xs \<and> inv s' \<and> decode s (xs @ ys) = (Ok (n, Some m), s')"
    and fail: "inv s \<Longrightarrow> decode s xs = (Err e, s') \<Longrightarrow> inv s' \<and> decode s (xs @ ys) = (Err e, s')"
begin

lemma progress: "inv s \<Longrightarrow> xs \<noteq> [] \<Longrightarrow> decode s xs = (Ok (n, m), s') \<Longrightarrow> n \<noteq> 0"
  by (cases m) (auto dest: need_more emit)

text \<open>An input that is consumed without a message only moves the state.\<close>

lemma drain_more:
  assumes "inv s" "decode s xs = (Ok (n, None), s')" "xs \<noteq> []"
  shows "drain decode s xs = ([], None, s') \<and> drain decode s (xs @ ys) = drain decode s' ys"
proof -
  have more: "n = length xs" "inv s'" "decode s (xs @ ys) = shift_consumed (length xs) (decode s' ys)"
    using need_more [OF assms(1,2)] by simp_all
  have all: "drain decode s xs = ([], None, s')"
    using assms more(1) by (simp add: drain.simps [of decode s xs] drain.simps [of decode s' "[]"])
  moreover have "drain decode s (xs @ ys) = drain decode s' ys" if ys: "ys \<noteq> []"
  proof -
    have "decode s' ys = (Ok (k, m'), t) \<Longrightarrow> k \<noteq> 0" for k m' t using progress [OF more(2) ys] by blast
    then show ?thesis
      using assms(3) ys more(3)
      by (cases "decode s' ys"; cases "fst (decode s' ys)")
        (auto simp: drain.simps [of decode s "xs @ ys"] drain.simps [of decode s' ys] split: prod.splits)
  qed
  ultimately show ?thesis by (cases "ys = []") (simp_all add: drain.simps [of decode s' "[]"])
qed

text \<open>Draining two concatenated inputs is draining one after the other.\<close>

lemma drain_append:
  "inv s \<Longrightarrow> drain decode s (xs @ ys) =
     (case drain decode s xs of
        (ms, Some e, s') \<Rightarrow> (ms, Some e, s')
      | (ms, None, s') \<Rightarrow> let (ms', e, s'') = drain decode s' ys in (ms @ ms', e, s''))"
proof (induction "length xs" arbitrary: s xs rule: less_induct)
  case less
  show ?case
  proof (cases "xs = []")
    case True
    then show ?thesis by (simp add: drain.simps [of decode s "[]"])
  next
    case False
    obtain out s' where d: "decode s xs = (out, s')" by (cases "decode s xs")
    show ?thesis
    proof (cases out)
      case (Err e)
      with d False fail [OF less.prems, of xs e s' ys] show ?thesis by (simp add: drain.simps [of decode s])
    next
      case (Ok nm)
      obtain n m where nm: "nm = (n, m)" by (cases nm)
      show ?thesis
      proof (cases m)
        case None
        with d Ok nm drain_more [OF less.prems _ False] show ?thesis by (simp split: prod.splits)
      next
        case (Some x)
        have emitted: "0 < n" "n \<le> length xs" "inv s'" "decode s (xs @ ys) = (Ok (n, Some x), s')"
          using emit [OF less.prems, of xs n x s' ys] d Ok nm Some by simp_all
        have "length (drop n xs) < length xs" using emitted(1,2) by auto
        from less.hyps [OF this emitted(3)] emitted d Ok nm Some False show ?thesis
          by (auto simp: drain.simps [of decode s "xs @ ys"] drain.simps [of decode s xs] split: prod.splits option.splits)
      qed
    qed
  qed
qed

lemma step_inv: "inv s \<Longrightarrow> decode s xs = (Ok (n, m), t) \<Longrightarrow> inv t"
  using need_more [of s xs n t] emit [of s xs n _ t] by (cases m) auto

text \<open>A loop that stops with an error stopped at a failing call.\<close>

lemma drain_fails:
  "inv s \<Longrightarrow> drain decode s xs = (ms, e, s') \<Longrightarrow>
    inv s' \<and> (case e of None \<Rightarrow> True | Some e' \<Rightarrow> (\<exists>t ys err. inv t \<and> decode t ys = (Err err, s') \<and> e' = Framing err))"
proof (induction "length xs" arbitrary: s xs ms rule: less_induct)
  case less
  show ?case
  proof (cases "xs \<noteq> [] \<and> (\<exists>n m t. decode s xs = (Ok (n, m), t))")
    case True
    then obtain n m t where d: "decode s xs = (Ok (n, m), t)" "xs \<noteq> []" by blast
    have n: "n \<noteq> 0" "inv t" using progress [OF less.prems(1)] step_inv [OF less.prems(1)] d by blast+
    then obtain ms' where "drain decode t (drop n xs) = (ms', e, s')"
      using less.prems(2) d by (auto simp: drain.simps [of decode s xs] split: prod.splits)
    with less.hyps [of "drop n xs" t ms'] n d(2) show ?thesis by simp
  next
    case False
    show ?thesis
    proof (cases "xs = []")
      case True
      with less.prems show ?thesis by (auto simp: drain.simps [of decode s "[]"])
    next
      case nonempty: False
      with False obtain err t where d: "decode s xs = (Err err, t)"
        by (metis result.exhaust surj_pair)
      with nonempty less.prems have "e = Some (Framing err)" "s' = t" by (simp_all add: drain.simps [of decode s xs])
      with d fail [OF less.prems(1) d] less.prems(1) show ?thesis by auto
    qed
  qed
qed

lemma drain_inv: "inv s \<Longrightarrow> drain decode s xs = (ms, e, s') \<Longrightarrow> inv s' \<and> e \<noteq> Some DecoderMadeNoProgress"
  using drain_fails [of s xs ms e s'] by (cases e) auto

text \<open>The cut of the stream into reads is irrelevant.\<close>

lemma reads_concat: "inv s \<Longrightarrow> drain_reads decode s chunks = drain decode s (concat chunks)"
proof (induction chunks arbitrary: s)
  case (Cons chunk chunks)
  obtain ms e s' where d: "drain decode s chunk = (ms, e, s')" by (cases "drain decode s chunk") auto
  have "inv s'" using drain_inv [OF Cons.prems d] by blast
  with Cons.IH drain_append [OF Cons.prems, of chunk "concat chunks"] d show ?case by (cases e) simp_all
qed (simp add: drain.simps)

end

end
