(* ===== verification/Frame_Codec.thy ===== *)
theory Frame_Codec
  imports Backend_Messages Stream_Decoder
begin

text \<open>
  The length-prefixed framing of \<open>crates/wcash-pool-protocol/src/backend.rs\<close>: one-shot encoding and decoding and the
  incremental \<open>FrameCodec\<close>. \<open>serde_json\<close> is a parameter: \<open>to_vec\<close> and \<open>from_slice\<close> with their error texts. Whether
  \<open>try_reserve_exact\<close> finds memory is the parameter \<open>reserve\<close>.
\<close>

section \<open>One frame\<close>

definition encode_length_frame :: "('m \<Rightarrow> (string, bytes) result) \<Rightarrow> 'm \<Rightarrow> (protocol_error, bytes) result" where
  "encode_length_frame to_vec message =
     and_then (map_err Json (to_vec message)) (\<lambda>payload.
     if payload = [] then Err (EmptyFrame ''backend'')
     else if MAX_BACKEND_PAYLOAD_BYTES < length payload then
       Err (FrameTooLarge ''backend'' MAX_BACKEND_PAYLOAD_BYTES (length payload))
     else if 2 ^ 32 \<le> length payload then Err (invalid ''backend frame length'' ''does not fit in u32'')
     else Ok (to_be_bytes 4 (of_nat (length payload) :: u32) @ payload))"

definition decode_length_frame :: "(bytes \<Rightarrow> (string, 'm) result) \<Rightarrow> bytes \<Rightarrow> (protocol_error, 'm) result" where
  "decode_length_frame from_slice frame =
     (if length frame < BACKEND_LENGTH_PREFIX_BYTES then Err MissingLengthPrefix
      else let declared = unat (from_be_bytes (take BACKEND_LENGTH_PREFIX_BYTES frame) :: u32);
               payload = drop BACKEND_LENGTH_PREFIX_BYTES frame
           in if declared = 0 then Err (EmptyFrame ''backend'')
              else if MAX_BACKEND_PAYLOAD_BYTES < declared then
                Err (FrameTooLarge ''backend'' MAX_BACKEND_PAYLOAD_BYTES declared)
              else if length payload \<noteq> declared then Err (InvalidFrameLength declared (length payload))
              else map_err Json (from_slice payload))"

definition encode_backend_request where
  "encode_backend_request to_vec request =
     and_then (BackendRequest_validate request) (\<lambda>_. encode_length_frame to_vec request)"

definition decode_backend_request where
  "decode_backend_request from_slice frame =
     and_then (decode_length_frame from_slice frame) (\<lambda>request.
     and_then (BackendRequest_validate request) (\<lambda>_. Ok request))"

definition encode_backend_message where
  "encode_backend_message sha256 to_vec message =
     and_then (BackendMessage_validate sha256 message) (\<lambda>_. encode_length_frame to_vec message)"

definition decode_backend_message where
  "decode_backend_message sha256 from_slice frame =
     and_then (decode_length_frame from_slice frame) (\<lambda>message.
     and_then (BackendMessage_validate sha256 message) (\<lambda>_. Ok message))"

section \<open>The incremental decoder\<close>

record frame_codec =
  fc_prefix :: bytes
  fc_prefix_len :: nat
  fc_declared :: "nat option"
  fc_payload :: bytes

definition FrameCodec_new :: frame_codec where
  "FrameCodec_new = \<lparr>fc_prefix = replicate BACKEND_LENGTH_PREFIX_BYTES 0, fc_prefix_len = 0, fc_declared = None, fc_payload = []\<rparr>"

definition FrameCodec_reset :: "frame_codec \<Rightarrow> frame_codec" where
  "FrameCodec_reset c = c\<lparr>fc_prefix := replicate BACKEND_LENGTH_PREFIX_BYTES 0, fc_prefix_len := 0, fc_declared := None, fc_payload := []\<rparr>"

definition FrameCodec_buffered_bytes :: "frame_codec \<Rightarrow> nat" where
  "FrameCodec_buffered_bytes c = fc_prefix_len c + length (fc_payload c)"

text \<open>The second half of \<open>decode_one\<close>, once the declared length is known.\<close>

definition decode_payload ::
  "(bytes \<Rightarrow> (string, 'm) result) \<Rightarrow> ('m \<Rightarrow> (protocol_error, unit) result) \<Rightarrow> frame_codec \<Rightarrow> nat \<Rightarrow> nat \<Rightarrow> bytes \<Rightarrow>
     (protocol_error, nat \<times> 'm option) result \<times> frame_codec" where
  "decode_payload from_slice validate c declared consumed input =
     (if declared < length (fc_payload c) then (Err (invalid ''backend decoder'' ''payload exceeded declared length''), c)
      else let remaining = declared - length (fc_payload c);
               available = drop consumed input;
               copied = min remaining (length available);
               c = c\<lparr>fc_payload := fc_payload c @ take copied available\<rparr>;
               consumed = consumed + copied
           in if length (fc_payload c) < declared then (Ok (consumed, None), c)
              else (and_then (map_err Json (from_slice (fc_payload c))) (\<lambda>message.
                    and_then (validate message) (\<lambda>_. Ok (consumed, Some message))), FrameCodec_reset c))"

definition decode_one ::
  "(nat \<Rightarrow> bool) \<Rightarrow> (bytes \<Rightarrow> (string, 'm) result) \<Rightarrow> ('m \<Rightarrow> (protocol_error, unit) result) \<Rightarrow> frame_codec \<Rightarrow> bytes \<Rightarrow>
     (protocol_error, nat \<times> 'm option) result \<times> frame_codec" where
  "decode_one reserve from_slice validate c input =
     (case fc_declared c of
        Some declared \<Rightarrow> decode_payload from_slice validate c declared 0 input
      | None \<Rightarrow>
          (let required = BACKEND_LENGTH_PREFIX_BYTES - fc_prefix_len c;
               copied = min required (length input);
               prefix_end = fc_prefix_len c + copied
           in if BACKEND_LENGTH_PREFIX_BYTES < prefix_end then
                (Err (invalid ''backend decoder'' ''prefix state was inconsistent''), c)
              else let c = c\<lparr>fc_prefix := take (fc_prefix_len c) (fc_prefix c) @ take copied input @ drop prefix_end (fc_prefix c),
                             fc_prefix_len := prefix_end\<rparr>
                   in if prefix_end < BACKEND_LENGTH_PREFIX_BYTES then (Ok (copied, None), c)
                      else let declared = unat (from_be_bytes (fc_prefix c) :: u32)
                           in if declared = 0 then (Err (EmptyFrame ''backend''), FrameCodec_reset c)
                              else if MAX_BACKEND_PAYLOAD_BYTES < declared then
                                (Err (FrameTooLarge ''backend'' MAX_BACKEND_PAYLOAD_BYTES declared), FrameCodec_reset c)
                              else if \<not> reserve declared then
                                (Err (invalid ''backend decoder'' ''could not reserve bounded payload''), FrameCodec_reset c)
                              else decode_payload from_slice validate (c\<lparr>fc_declared := Some declared\<rparr>) declared copied input))"

definition FrameCodec_decode_client where
  "FrameCodec_decode_client reserve from_slice c input = decode_one reserve from_slice BackendRequest_validate c input"

definition FrameCodec_decode_server where
  "FrameCodec_decode_server sha256 reserve from_slice c input = decode_one reserve from_slice (BackendMessage_validate sha256) c input"

section \<open>What the decoder has seen\<close>

text \<open>The state after an incomplete frame is a function of the bytes seen of it, and one call is a function of those
  bytes followed by the input. \<open>frame_step\<close> is that specification of \<open>decode_one\<close>.\<close>

definition declared_of :: "bytes \<Rightarrow> nat" where
  "declared_of bs = unat (from_be_bytes (take 4 bs) :: u32)"

definition incomplete :: "(nat \<Rightarrow> bool) \<Rightarrow> bytes \<Rightarrow> bool" where
  "incomplete reserve bs \<longleftrightarrow> length bs < 4 \<or>
     (0 < declared_of bs \<and> declared_of bs \<le> MAX_BACKEND_PAYLOAD_BYTES \<and> reserve (declared_of bs) \<and>
      length bs < 4 + declared_of bs)"

definition codec_of :: "bytes \<Rightarrow> frame_codec" where
  "codec_of bs =
     (if length bs < 4
      then \<lparr>fc_prefix = bs @ replicate (4 - length bs) 0, fc_prefix_len = length bs, fc_declared = None, fc_payload = []\<rparr>
      else \<lparr>fc_prefix = take 4 bs, fc_prefix_len = 4, fc_declared = Some (declared_of bs), fc_payload = drop 4 bs\<rparr>)"

definition codec_ok :: "(nat \<Rightarrow> bool) \<Rightarrow> frame_codec \<Rightarrow> bool" where
  "codec_ok reserve c \<longleftrightarrow> (\<exists>bs. incomplete reserve bs \<and> c = codec_of bs)"

definition frame_step ::
  "(nat \<Rightarrow> bool) \<Rightarrow> (bytes \<Rightarrow> (string, 'm) result) \<Rightarrow> ('m \<Rightarrow> (protocol_error, unit) result) \<Rightarrow> bytes \<Rightarrow> bytes \<Rightarrow>
     (protocol_error, nat \<times> 'm option) result \<times> frame_codec" where
  "frame_step reserve from_slice validate seen input =
     (let s = seen @ input; d = declared_of s
      in if length s < 4 then (Ok (length input, None), codec_of s)
         else if d = 0 then (Err (EmptyFrame ''backend''), FrameCodec_new)
         else if MAX_BACKEND_PAYLOAD_BYTES < d then
           (Err (FrameTooLarge ''backend'' MAX_BACKEND_PAYLOAD_BYTES d), FrameCodec_new)
         else if \<not> reserve d then (Err (invalid ''backend decoder'' ''could not reserve bounded payload''), FrameCodec_new)
         else if length s < 4 + d then (Ok (length input, None), codec_of s)
         else (and_then (map_err Json (from_slice (take d (drop 4 s)))) (\<lambda>message.
               and_then (validate message) (\<lambda>_. Ok (4 + d - length seen, Some message))), FrameCodec_new))"

lemma reset_new [simp]: "FrameCodec_reset c = FrameCodec_new"
  by (simp add: FrameCodec_reset_def FrameCodec_new_def)

lemma codec_of_Nil: "codec_of [] = FrameCodec_new"
  by (simp add: codec_of_def FrameCodec_new_def BACKEND_LENGTH_PREFIX_BYTES_def)

lemma declared_of_append: "4 \<le> length bs \<Longrightarrow> declared_of (bs @ xs) = declared_of bs"
  by (simp add: declared_of_def)

lemma decode_payload_seen:
  assumes "4 \<le> length b" "length b < 4 + d" "r = drop k input" "k \<le> length input"
  shows "decode_payload from_slice validate \<lparr>fc_prefix = p, fc_prefix_len = 4, fc_declared = Some d, fc_payload = drop 4 b\<rparr> d k input =
    (if length b + length r < 4 + d
     then (Ok (length input, None), \<lparr>fc_prefix = p, fc_prefix_len = 4, fc_declared = Some d, fc_payload = drop 4 (b @ r)\<rparr>)
     else (and_then (map_err Json (from_slice (take d (drop 4 (b @ r))))) (\<lambda>message.
           and_then (validate message) (\<lambda>_. Ok (4 + d + k - length b, Some message))), FrameCodec_new))"
proof (cases "length b + length r < 4 + d")
  case True
  then have "min (d - length (drop 4 b)) (length r) = length r" using assms(1) by simp
  then show ?thesis using True assms by (simp add: decode_payload_def Let_def) arith
next
  case False
  then have m: "min (d - length (drop 4 b)) (length r) = d - length (drop 4 b)" using assms(1) by simp
  moreover have "take d (drop 4 (b @ r)) = drop 4 b @ take (d - length (drop 4 b)) r" using assms(1,2) by simp
  moreover have "k + (d - length (drop 4 b)) = 4 + d + k - length b" using assms(1,2) by simp
  moreover have "\<not> length (drop 4 b @ take (d - length (drop 4 b)) r) < d" using False assms(1) by simp
  ultimately show ?thesis
    using False assms(2) by (simp add: decode_payload_def Let_def assms(3) [symmetric] del: drop_append take_append length_append length_drop)
      (use assms(1,2) in arith)
qed

text \<open>\<open>decode_one\<close> in a reachable state implements the specification.\<close>

lemma decode_one_prefix:
  assumes "length seen < 4"
  shows "decode_one reserve from_slice validate (codec_of seen) input = frame_step reserve from_slice validate seen input"
proof (cases "length seen + length input < 4")
  case True
  then show ?thesis
    using assms by (simp add: decode_one_def codec_of_def frame_step_def Let_def BACKEND_LENGTH_PREFIX_BYTES_def)
next
  case False
  define k where "k = 4 - length seen"
  define b where "b = seen @ take k input"
  have b: "length b = 4" "b @ drop k input = seen @ input" "k \<le> length input" "4 - k = length seen"
    using assms False by (auto simp: b_def k_def)
  have pre: "take 4 (seen @ input) = b" using assms by (simp add: b_def k_def)
  then have d: "declared_of (seen @ input) = declared_of b" and db: "unat (from_be_bytes b :: u32) = declared_of b"
    using b(1) by (simp_all add: declared_of_def)
  have c: "decode_one reserve from_slice validate (codec_of seen) input =
     (if declared_of b = 0 then (Err (EmptyFrame ''backend''), FrameCodec_new)
      else if MAX_BACKEND_PAYLOAD_BYTES < declared_of b then
        (Err (FrameTooLarge ''backend'' MAX_BACKEND_PAYLOAD_BYTES (declared_of b)), FrameCodec_new)
      else if \<not> reserve (declared_of b) then
        (Err (invalid ''backend decoder'' ''could not reserve bounded payload''), FrameCodec_new)
      else decode_payload from_slice validate \<lparr>fc_prefix = b, fc_prefix_len = 4, fc_declared = Some (declared_of b),
        fc_payload = drop 4 b\<rparr> (declared_of b) k input)"
    using assms b(1,3) db
    by (simp add: decode_one_def codec_of_def Let_def BACKEND_LENGTH_PREFIX_BYTES_def k_def b_def)
  have e: "length b + length (drop k input) = length (seen @ input)" "4 + declared_of b + k - length b = 4 + declared_of b - length seen"
    using b assms by (simp_all add: k_def)
  note seen = decode_payload_seen [of b "declared_of b" "drop k input" k input from_slice validate b,
      unfolded e b(2), OF _ _ refl b(3)]
  have cs: "codec_of (seen @ input) = \<lparr>fc_prefix = b, fc_prefix_len = 4, fc_declared = Some (declared_of b),
      fc_payload = drop 4 (seen @ input)\<rparr>"
    using False d pre by (simp add: codec_of_def del: take_append drop_append)
  have "\<not> length (seen @ input) < 4" using False by simp
  then show ?thesis
    using seen b(1) by (simp add: c cs frame_step_def Let_def d del: take_append drop_append length_append)
qed

lemma decode_one_payload:
  assumes "4 \<le> length seen" "incomplete reserve seen"
  shows "decode_one reserve from_slice validate (codec_of seen) input = frame_step reserve from_slice validate seen input"
  using decode_payload_seen [of seen "declared_of seen" input 0 input from_slice validate "take 4 seen"] assms
  by (auto simp: decode_one_def codec_of_def frame_step_def incomplete_def declared_of_append Let_def)

lemma decode_one_step:
  "incomplete reserve seen \<Longrightarrow>
     decode_one reserve from_slice validate (codec_of seen) input = frame_step reserve from_slice validate seen input"
  by (cases "length seen < 4") (simp_all add: decode_one_prefix decode_one_payload)

text \<open>The specification meets the contract of an incremental decoder.\<close>

lemma incomplete_Nil [simp]: "incomplete reserve []"
  by (simp add: incomplete_def)

lemma codec_ok_new [simp]: "codec_ok reserve FrameCodec_new"
  using incomplete_Nil codec_of_Nil by (metis codec_ok_def)

lemma codec_ok_of [intro]: "incomplete reserve bs \<Longrightarrow> codec_ok reserve (codec_of bs)"
  by (auto simp: codec_ok_def)

lemma frame_step_need_more:
  assumes "incomplete reserve seen" "frame_step reserve from_slice validate seen xs = (Ok (n, None), s')"
  shows "n = length xs" "s' = codec_of (seen @ xs)" "incomplete reserve (seen @ xs)"
  using assms by (auto simp: frame_step_def incomplete_def Let_def split: if_splits)

lemma shift_decoded:
  "shift_consumed k (and_then (map_err f r) (\<lambda>m. and_then (v m) (\<lambda>_. Ok (n, Some m))), s) =
    (and_then (map_err f r) (\<lambda>m. and_then (v m) (\<lambda>_. Ok (k + n, Some m))), s)"
proof (cases r)
  case (Ok m)
  then show ?thesis by (cases "v m") simp_all
qed simp

lemma frame_step_shift:
  assumes "incomplete reserve (seen @ xs)"
  shows "frame_step reserve from_slice validate seen (xs @ ys) =
    shift_consumed (length xs) (frame_step reserve from_slice validate (seen @ xs) ys)"
proof -
  let ?s = "seen @ xs @ ys"
  have "length (seen @ xs) < 4 + declared_of ?s \<or> length ?s < 4"
    using assms declared_of_append [of "seen @ xs" ys] by (cases "length (seen @ xs) < 4") (auto simp: incomplete_def)
  then show ?thesis
    by (auto simp: frame_step_def Let_def shift_decoded)
qed

lemma frame_step_emit:
  assumes "incomplete reserve seen" "frame_step reserve from_slice validate seen xs = (Ok (n, Some m), s')"
  shows "0 < n" "n \<le> length xs" "s' = FrameCodec_new"
    "frame_step reserve from_slice validate seen (xs @ ys) = (Ok (n, Some m), s')"
proof -
  let ?s = "seen @ xs" and ?d = "declared_of (seen @ xs)"
  have l: "4 \<le> length ?s" "4 + ?d \<le> length ?s" "n = 4 + ?d - length seen" "0 < ?d" "s' = FrameCodec_new"
    using assms(2) by (auto simp: frame_step_def Let_def split: if_splits)
  have "length seen < 4 + ?d"
    using assms(1) declared_of_append [of seen xs] by (cases "length seen < 4") (auto simp: incomplete_def)
  then show "0 < n" "n \<le> length xs" using l by auto
  show "s' = FrameCodec_new" by (fact l)
  have "declared_of (?s @ ys) = ?d" "take ?d (drop 4 (?s @ ys)) = take ?d (drop 4 ?s)"
    using declared_of_append [OF l(1), of ys] l(2) by simp_all
  then show "frame_step reserve from_slice validate seen (xs @ ys) = (Ok (n, Some m), s')"
    using assms(2) l by (auto simp: frame_step_def Let_def split: if_splits)
qed

lemma frame_step_fail:
  assumes "frame_step reserve from_slice validate seen xs = (Err e, s')"
  shows "s' = FrameCodec_new" "frame_step reserve from_slice validate seen (xs @ ys) = (Err e, s')"
proof -
  let ?s = "seen @ xs" and ?d = "declared_of (seen @ xs)"
  have l: "4 \<le> length ?s" "s' = FrameCodec_new"
    using assms by (auto simp: frame_step_def Let_def split: if_splits)
  show "s' = FrameCodec_new" by (fact l)
  have d: "declared_of (?s @ ys) = ?d" using declared_of_append [OF l(1)] .
  have t: "4 + ?d \<le> length ?s \<Longrightarrow> take ?d (drop 4 (?s @ ys)) = take ?d (drop 4 ?s)" by simp
  show "frame_step reserve from_slice validate seen (xs @ ys) = (Err e, s')"
    using assms l d t by (auto simp: frame_step_def Let_def split: if_splits)
qed

interpretation backend: frame_decoder "decode_one reserve from_slice validate" "codec_ok reserve" for reserve from_slice validate
proof
  fix s xs n s' ys
  assume "codec_ok reserve s" and d: "decode_one reserve from_slice validate s xs = (Ok (n, None), s')"
  then obtain seen where seen: "incomplete reserve seen" "s = codec_of seen" by (auto simp: codec_ok_def)
  then have f: "frame_step reserve from_slice validate seen xs = (Ok (n, None), s')" using d by (simp add: decode_one_step)
  note more = frame_step_need_more [OF seen(1) f]
  then show "n = length xs \<and> codec_ok reserve s' \<and>
      decode_one reserve from_slice validate s (xs @ ys) = shift_consumed (length xs) (decode_one reserve from_slice validate s' ys)"
    using seen by (auto simp: decode_one_step frame_step_shift)
next
  fix s xs n m s' ys
  assume "codec_ok reserve s" and d: "decode_one reserve from_slice validate s xs = (Ok (n, Some m), s')"
  then obtain seen where seen: "incomplete reserve seen" "s = codec_of seen" by (auto simp: codec_ok_def)
  then have f: "frame_step reserve from_slice validate seen xs = (Ok (n, Some m), s')" using d by (simp add: decode_one_step)
  show "0 < n \<and> n \<le> length xs \<and> codec_ok reserve s' \<and> decode_one reserve from_slice validate s (xs @ ys) = (Ok (n, Some m), s')"
    using frame_step_emit [OF seen(1) f] seen by (simp add: decode_one_step)
next
  fix s xs e s' ys
  assume "codec_ok reserve s" and d: "decode_one reserve from_slice validate s xs = (Err e, s')"
  then obtain seen where seen: "incomplete reserve seen" "s = codec_of seen" by (auto simp: codec_ok_def)
  then have f: "frame_step reserve from_slice validate seen xs = (Err e, s')" using d by (simp add: decode_one_step)
  show "codec_ok reserve s' \<and> decode_one reserve from_slice validate s (xs @ ys) = (Err e, s')"
    using frame_step_fail [OF f] seen by (simp add: decode_one_step)
qed

end
