(* ===== verification/Frame_Properties.thy ===== *)
theory Frame_Properties
  imports Frame_Codec
begin

text \<open>
  What the length framing of the backend protocol guarantees for whole streams: the cut of a stream into reads is
  irrelevant, encoded messages come back unchanged and in order, one-shot and incremental decoding agree, and a
  connection never buffers more than one bounded frame.
\<close>

section \<open>Frames\<close>

text \<open>\<open>serde_json\<close> reads back what it wrote.\<close>

definition json_contract :: "('m \<Rightarrow> (string, bytes) result) \<Rightarrow> (bytes \<Rightarrow> (string, 'm) result) \<Rightarrow> bool" where
  "json_contract to_vec from_slice \<longleftrightarrow> (\<forall>m p. to_vec m = Ok p \<longrightarrow> from_slice p = Ok m)"

lemma encoded_frame:
  assumes "encode_length_frame to_vec m = Ok f"
  obtains p where "to_vec m = Ok p" "f = to_be_bytes 4 (of_nat (length p) :: u32) @ p"
    "0 < length p" "length p \<le> MAX_BACKEND_PAYLOAD_BYTES" "declared_of (f @ r) = length p"
proof -
  obtain p where p: "to_vec m = Ok p" "f = to_be_bytes 4 (of_nat (length p) :: u32) @ p" "0 < length p"
      "length p \<le> MAX_BACKEND_PAYLOAD_BYTES" "length p < 2 ^ 32"
    using assms by (auto simp: encode_length_frame_def split: if_splits)
  have "unat (of_nat (length p) :: u32) = length p" using p(5) by (simp add: unat_of_nat)
  then have "unat (from_be_bytes (to_be_bytes 4 (of_nat (length p) :: u32)) :: u32) = length p"
    using p(5) by (simp add: unat_from_be_bytes be_val_to_be_bytes)
  with p that show thesis by (simp add: declared_of_def)
qed

lemma frame_step_new:
  "decode_one reserve from_slice validate FrameCodec_new input = frame_step reserve from_slice validate [] input"
  by (simp flip: codec_of_Nil add: decode_one_step)

lemma decode_one_encoded:
  assumes "json_contract to_vec from_slice" "encode_length_frame to_vec m = Ok f" "validate m = Ok ()"
    "\<forall>n \<le> MAX_BACKEND_PAYLOAD_BYTES. reserve n"
  shows "decode_one reserve from_slice validate FrameCodec_new (f @ r) = (Ok (length f, Some m), FrameCodec_new)"
proof -
  obtain p where p: "to_vec m = Ok p" "f = to_be_bytes 4 (of_nat (length p) :: u32) @ p"
      "0 < length p" "length p \<le> MAX_BACKEND_PAYLOAD_BYTES" "declared_of (f @ r) = length p"
    using encoded_frame [OF assms(2)] by metis
  have "from_slice p = Ok m" using assms(1) p(1) by (simp add: json_contract_def)
  with p assms(3,4) show ?thesis by (simp add: frame_step_new frame_step_def Let_def)
qed

lemma decode_length_frame_encoded:
  assumes "json_contract to_vec from_slice" "encode_length_frame to_vec m = Ok f"
  shows "decode_length_frame from_slice f = Ok m"
proof -
  obtain p where p: "to_vec m = Ok p" "f = to_be_bytes 4 (of_nat (length p) :: u32) @ p"
      "0 < length p" "length p \<le> MAX_BACKEND_PAYLOAD_BYTES" "declared_of f = length p"
    using encoded_frame [OF assms(2), of "[]"] by auto
  have "from_slice p = Ok m" using assms(1) p(1) by (simp add: json_contract_def)
  with p show ?thesis by (simp add: decode_length_frame_def declared_of_def BACKEND_LENGTH_PREFIX_BYTES_def Let_def)
qed

lemma drain_encoded:
  assumes "json_contract to_vec from_slice" "\<forall>n \<le> MAX_BACKEND_PAYLOAD_BYTES. reserve n"
    "list_all2 (\<lambda>m f. validate m = Ok () \<and> encode_length_frame to_vec m = Ok f) ms frames"
  shows "drain (decode_one reserve from_slice validate) FrameCodec_new (concat frames) = (ms, None, FrameCodec_new)"
  using assms(3)
proof (induction rule: list_all2_induct)
  case (Cons m ms f frames)
  have d: "decode_one reserve from_slice validate FrameCodec_new (f @ concat frames) = (Ok (length f, Some m), FrameCodec_new)"
    using decode_one_encoded [OF assms(1) _ _ assms(2)] Cons.hyps(1) by blast
  have "0 < length f"
    using backend.emit [OF codec_ok_new d] by simp
  with Cons.IH d show ?case by (simp add: drain.simps [of _ _ "f @ concat frames"])
qed (simp add: drain.simps)

text \<open>What a decoder in a reachable state retains.\<close>

lemma codec_ok_buffered: "codec_ok reserve c \<Longrightarrow> FrameCodec_buffered_bytes c < BACKEND_LENGTH_PREFIX_BYTES + MAX_BACKEND_PAYLOAD_BYTES"
  by (auto simp: codec_ok_def codec_of_def incomplete_def FrameCodec_buffered_bytes_def BACKEND_LENGTH_PREFIX_BYTES_def
    MAX_BACKEND_PAYLOAD_BYTES_def)

lemmas decode_client_eq = FrameCodec_decode_client_def [abs_def]
lemmas decode_server_eq = FrameCodec_decode_server_def [abs_def]

section \<open>Properties\<close>

text \<open>The messages, the error and the final state of a backend connection depend only on the received byte
  stream, in both directions: however the transport cuts the stream into reads, the receive loop gives the same
  result as for the whole stream at once.\<close>

lemma backend_reads_chunk_independent:
  "drain_reads (FrameCodec_decode_client reserve from_slice) FrameCodec_new chunks =
     drain (FrameCodec_decode_client reserve from_slice) FrameCodec_new (concat chunks) \<and>
   drain_reads (FrameCodec_decode_server sha256 reserve from_slice') FrameCodec_new chunks =
     drain (FrameCodec_decode_server sha256 reserve from_slice') FrameCodec_new (concat chunks)"
  unfolding decode_client_eq decode_server_eq by (intro conjI backend.reads_concat [OF codec_ok_new])

text \<open>Whatever is received, in whatever pieces and of whatever message type, the receive loop never meets a decoder
  that makes no progress, and the decoder retains less than one maximal frame: the prefix and 64 KiB.\<close>

lemma backend_codec_buffer_bounded:
  assumes "drain_reads (decode_one reserve from_slice validate) FrameCodec_new chunks = (ms, e, c)"
  shows "FrameCodec_buffered_bytes c < BACKEND_LENGTH_PREFIX_BYTES + MAX_BACKEND_PAYLOAD_BYTES \<and> e \<noteq> Some DecoderMadeNoProgress"
proof -
  have "drain (decode_one reserve from_slice validate) FrameCodec_new (concat chunks) = (ms, e, c)"
    using assms backend.reads_concat [OF codec_ok_new, of reserve from_slice validate chunks] by simp
  from backend.drain_inv [OF codec_ok_new this] show ?thesis using codec_ok_buffered by blast
qed

text \<open>C36 A stream of encoded requests arrives as exactly those requests in order, however it is cut into reads, and
  leaves the decoder empty; each frame alone is also accepted by the one-shot decoder.\<close>

theorem backend_request_stream_roundtrip:
  assumes "json_contract to_vec from_slice" "\<forall>n \<le> MAX_BACKEND_PAYLOAD_BYTES. reserve n"
    "list_all2 (\<lambda>m f. encode_backend_request to_vec m = Ok f) ms frames" "concat chunks = concat frames"
  shows "drain_reads (FrameCodec_decode_client reserve from_slice) FrameCodec_new chunks = (ms, None, FrameCodec_new) \<and>
    list_all2 (\<lambda>m f. decode_backend_request from_slice f = Ok m) ms frames"
proof -
  have enc: "list_all2 (\<lambda>m f. BackendRequest_validate m = Ok () \<and> encode_length_frame to_vec m = Ok f) ms frames"
    using assms(3) by (rule list_all2_mono) (simp add: encode_backend_request_def)
  have "decode_backend_request from_slice f = Ok m" if "BackendRequest_validate m = Ok ()" "encode_length_frame to_vec m = Ok f" for m f
    using decode_length_frame_encoded [OF assms(1) that(2)] that(1) by (simp add: decode_backend_request_def)
  with drain_encoded [OF assms(1,2) enc] assms(4) list_all2_mono [OF enc] show ?thesis
    by (simp add: decode_client_eq backend.reads_concat)
qed

text \<open>Incremental and one-shot decoding are the same function on a complete frame: the incremental decoder answers
  with the one-shot result, consumes the whole frame, and is empty again.\<close>

lemma incremental_equals_one_shot:
  assumes "length frame = 4 + declared_of frame" "reserve (declared_of frame)"
  shows "FrameCodec_decode_client reserve from_slice FrameCodec_new frame =
    (and_then (decode_backend_request from_slice frame) (\<lambda>request. Ok (length frame, Some request)), FrameCodec_new)"
proof -
  have "decode_backend_request from_slice frame =
    (if declared_of frame = 0 then Err (EmptyFrame ''backend'')
     else if MAX_BACKEND_PAYLOAD_BYTES < declared_of frame then
       Err (FrameTooLarge ''backend'' MAX_BACKEND_PAYLOAD_BYTES (declared_of frame))
     else and_then (map_err Json (from_slice (drop 4 frame))) (\<lambda>request.
       and_then (BackendRequest_validate request) (\<lambda>_. Ok request)))"
    using assms(1) by (simp add: decode_backend_request_def decode_length_frame_def declared_of_def
      BACKEND_LENGTH_PREFIX_BYTES_def Let_def)
  with assms show ?thesis
    by (simp add: decode_client_eq frame_step_new frame_step_def Let_def and_then_assoc)
qed

definition example_request :: backend_request where
  "example_request = Health BACKEND_PROTOCOL_VERSION 7"

definition example_to_vec :: "backend_request \<Rightarrow> (string, bytes) result" where
  "example_to_vec m = (if m = example_request then Ok [0x7b, 0x7d] else Err ''unsupported'')"

definition example_from_slice :: "bytes \<Rightarrow> (string, backend_request) result" where
  "example_from_slice p = (if p = [0x7b, 0x7d] then Ok example_request else Err ''eof'')"

lemma example_json: "json_contract example_to_vec example_from_slice"
  by (simp add: json_contract_def example_to_vec_def example_from_slice_def)

lemma example_valid: "BackendRequest_validate example_request = Ok ()"
  by (simp add: example_request_def BackendRequest_validate_def validate_backend_header_def)

lemma example_encoded: "encode_backend_request example_to_vec example_request = Ok [0, 0, 0, 2, 0x7b, 0x7d]"
  by (simp add: encode_backend_request_def example_valid encode_length_frame_def example_to_vec_def
    MAX_BACKEND_PAYLOAD_BYTES_def to_be_bytes_def to_le_bytes_def upt_rec)

theorem backend_request_stream_roundtrip_witness:
  "drain_reads (FrameCodec_decode_client (\<lambda>_. True) example_from_slice) FrameCodec_new
     [[0, 0, 0], [2, 0x7b, 0x7d, 0, 0], [0, 2, 0x7b], [0x7d]] = ([example_request, example_request], None, FrameCodec_new)"
  using backend_request_stream_roundtrip [OF example_json, of "\<lambda>_. True" "[example_request, example_request]"
      "[[0, 0, 0, 2, 0x7b, 0x7d], [0, 0, 0, 2, 0x7b, 0x7d]]" "[[0, 0, 0], [2, 0x7b, 0x7d, 0, 0], [0, 2, 0x7b], [0x7d]]"]
  by (simp add: example_encoded)

end
