(* ===== verification/Nonce_Profile.thy ===== *)
theory Nonce_Profile
  imports Fixed_Hex
begin

text \<open>
  The nonce partition of \<open>crates/wcash-pool-protocol/src/zip301.rs\<close>: the listener's profile, the server's
  prefix, the miner's suffix and their concatenation to the 32-byte header nonce. A \<open>FixedHex<N>\<close> is its
  byte list; \<open>wf_prefix\<close> and \<open>wf_suffix\<close> state the array lengths of the Rust types.
\<close>

section \<open>Profiles, prefixes and suffixes\<close>

datatype nonce_profile = FourByte | EightByte

fun prefix_bytes :: "nonce_profile \<Rightarrow> nat" where
  "prefix_bytes FourByte = 4"
| "prefix_bytes EightByte = 8"

definition suffix_bytes :: "nonce_profile \<Rightarrow> nat" where
  "suffix_bytes p = 32 - prefix_bytes p"

datatype nonce_prefix = Four bytes | Eight bytes

fun NoncePrefix_profile :: "nonce_prefix \<Rightarrow> nonce_profile" where
  "NoncePrefix_profile (Four _) = FourByte"
| "NoncePrefix_profile (Eight _) = EightByte"

fun NoncePrefix_as_bytes :: "nonce_prefix \<Rightarrow> bytes" where
  "NoncePrefix_as_bytes (Four v) = v"
| "NoncePrefix_as_bytes (Eight v) = v"

fun NoncePrefix_encoded :: "hex_encoder \<Rightarrow> nonce_prefix \<Rightarrow> string" where
  "NoncePrefix_encoded enc (Four v) = FixedHex_to_string enc v"
| "NoncePrefix_encoded enc (Eight v) = FixedHex_to_string enc v"

datatype nonce_suffix = TwentyEight bytes | TwentyFour bytes

fun NonceSuffix_profile :: "nonce_suffix \<Rightarrow> nonce_profile" where
  "NonceSuffix_profile (TwentyEight _) = FourByte"
| "NonceSuffix_profile (TwentyFour _) = EightByte"

fun NonceSuffix_bytes :: "nonce_suffix \<Rightarrow> bytes" where
  "NonceSuffix_bytes (TwentyEight v) = v"
| "NonceSuffix_bytes (TwentyFour v) = v"

text \<open>\<open>nonce[..n].copy_from_slice(p); nonce[n..].copy_from_slice(s)\<close> on a 32-byte array.\<close>

fun join_nonce :: "nonce_prefix \<Rightarrow> nonce_suffix \<Rightarrow> (protocol_error, bytes) result" where
  "join_nonce (Four prefix) (TwentyEight suffix) = Ok (prefix @ suffix)"
| "join_nonce (Eight prefix) (TwentyFour suffix) = Ok (prefix @ suffix)"
| "join_nonce _ _ = Err (invalid ''ZIP-301 nonce'' ''prefix and suffix use different profiles'')"

section \<open>Array lengths and the join\<close>

definition wf_prefix :: "nonce_prefix \<Rightarrow> bool" where
  "wf_prefix p \<longleftrightarrow> length (NoncePrefix_as_bytes p) = prefix_bytes (NoncePrefix_profile p)"

definition wf_suffix :: "nonce_suffix \<Rightarrow> bool" where
  "wf_suffix s \<longleftrightarrow> length (NonceSuffix_bytes s) = suffix_bytes (NonceSuffix_profile s)"

lemma join_nonce_Ok:
  "join_nonce p s = Ok n \<longleftrightarrow>
     NoncePrefix_profile p = NonceSuffix_profile s \<and> n = NoncePrefix_as_bytes p @ NonceSuffix_bytes s"
  by (cases p; cases s) auto

lemma join_nonce_length: "wf_prefix p \<Longrightarrow> wf_suffix s \<Longrightarrow> join_nonce p s = Ok n \<Longrightarrow> length n = 32"
  by (cases p; cases s) (auto simp: wf_prefix_def wf_suffix_def suffix_bytes_def)

lemma prefix_eqI:
  "NoncePrefix_profile p = NoncePrefix_profile q \<Longrightarrow> NoncePrefix_as_bytes p = NoncePrefix_as_bytes q \<Longrightarrow> p = q"
  by (cases p; cases q) auto

lemma suffix_eqI:
  "NonceSuffix_profile p = NonceSuffix_profile q \<Longrightarrow> NonceSuffix_bytes p = NonceSuffix_bytes q \<Longrightarrow> p = q"
  by (cases p; cases q) auto

text \<open>Within one profile the header nonce determines both parts.\<close>

lemma join_nonce_inj:
  assumes "join_nonce p s = Ok n" "join_nonce q t = Ok n" "wf_prefix p" "wf_prefix q"
    and "NoncePrefix_profile p = NoncePrefix_profile q"
  shows "p = q \<and> s = t"
proof -
  from assms have "NoncePrefix_as_bytes p = NoncePrefix_as_bytes q \<and> NonceSuffix_bytes s = NonceSuffix_bytes t"
    by (simp add: join_nonce_Ok wf_prefix_def)
  with assms show ?thesis by (auto simp: join_nonce_Ok intro: prefix_eqI suffix_eqI)
qed

end
