(* ===== verification/Json_Value.thy ===== *)
theory Json_Value
  imports Pool_Prelude
begin

text \<open>
  The values of \<open>serde_json::Value\<close> as that library documents them, with the accessors the repository calls. Numbers are
  opaque: a type variable, with conversions as parameters where they are used.
\<close>

section \<open>JSON values\<close>

datatype 'num json =
    JNull
  | JBool bool
  | JNumber 'num
  | JString string
  | JArray "'num json list"
  | JObject "(string \<times> 'num json) list"

fun as_array :: "'num json \<Rightarrow> 'num json list option" where
  "as_array (JArray vs) = Some vs"
| "as_array _ = None"

fun as_str :: "'num json \<Rightarrow> string option" where
  "as_str (JString s) = Some s"
| "as_str _ = None"

fun as_number :: "'num json \<Rightarrow> 'num option" where
  "as_number (JNumber n) = Some n"
| "as_number _ = None"

fun as_object :: "'num json \<Rightarrow> (string \<times> 'num json) list option" where
  "as_object (JObject fields) = Some fields"
| "as_object _ = None"

text \<open>\<open>Value::get\<close> of an object member.\<close>

definition json_get :: "'num json \<Rightarrow> string \<Rightarrow> 'num json option" where
  "json_get value key = Option.bind (as_object value) (\<lambda>fields. map_of fields key)"

end
