(* ===== verification/Zip301.thy ===== *)
theory Zip301
  imports Nonce_Profile Backend_Types Stream_Decoder Json_Value
begin

text \<open>
  The miner protocol of \<open>crates/wcash-pool-protocol/src/zip301.rs\<close>: requests, server messages, line framing and the
  incremental \<open>Zip301FrameCodec\<close>. \<open>serde_json\<close> is a parameter: its values are those of
  \<open>Json_Value\<close>, and \<open>from_slice\<close>, \<open>to_vec\<close> and the number conversions \<open>as_u64\<close> and \<open>of_i32\<close> are the calls the code
  makes. A \<open>str\<close> is the list of its UTF-8 bytes.
\<close>

section \<open>Requests and messages\<close>

definition MAX_ZIP301_PAYLOAD_BYTES :: nat where "MAX_ZIP301_PAYLOAD_BYTES = 64 * 1024"

datatype zip301_id = IdNumber u64 | IdString string | IdNull

fun Zip301Id_validate :: "zip301_id \<Rightarrow> (protocol_error, unit) result" where
  "Zip301Id_validate (IdNumber _) = Ok ()"
| "Zip301Id_validate IdNull = Ok ()"
| "Zip301Id_validate (IdString value) = validate_bounded_text value 1 64 ''ZIP-301 id''"

datatype 'num zip301_request =
    Subscribe zip301_id "'num json list"
  | Authorize zip301_id string string
  | SuggestTarget zip301_id target_be
  | ExtranonceSubscribe zip301_id
  | MultiVersion zip301_id u32
  | Submit zip301_id string bytes bytes nonce_suffix bytes

fun Zip301Request_id :: "'num zip301_request \<Rightarrow> zip301_id" where
  "Zip301Request_id (Subscribe rid _) = rid"
| "Zip301Request_id (Authorize rid _ _) = rid"
| "Zip301Request_id (SuggestTarget rid _) = rid"
| "Zip301Request_id (ExtranonceSubscribe rid) = rid"
| "Zip301Request_id (MultiVersion rid _) = rid"
| "Zip301Request_id (Submit rid _ _ _ _ _) = rid"

record 'num raw_zip301_request =
  raw_id :: zip301_id
  raw_method :: string
  raw_params :: "'num json"

record zip301_notify =
  zn_job_id :: bytes
  zn_header_input :: bytes
  zn_clean_jobs :: bool

definition Zip301Notify_validate :: "zip301_notify \<Rightarrow> (protocol_error, unit) result" where
  "Zip301Notify_validate n = try_all
     [require_nonzero_hex (zn_job_id n) ''mining.notify job id'',
      validate_v4_header_input (zn_header_input n) ''mining.notify version'' ''mining.notify time'']"

datatype zip301_server_message =
    SubscribedMessage zip301_id nonce_prefix
  | BooleanMessage zip301_id bool
  | ErrorMessage zip301_id "32 word" string
  | SetTarget target_be
  | Notify zip301_notify

section \<open>Decoding one request\<close>

definition zip301_payload :: "bytes \<Rightarrow> (protocol_error, bytes) result" where
  "zip301_payload frame =
     (if frame = [] \<or> List.last frame \<noteq> 10 then Err InvalidLineFraming
      else let payload = butlast frame
           in if payload = [] then Err (EmptyFrame ''ZIP-301'')
              else if MAX_ZIP301_PAYLOAD_BYTES < length payload then
                Err (FrameTooLarge ''ZIP-301'' MAX_ZIP301_PAYLOAD_BYTES (length payload))
              else if list_ex (\<lambda>byte. byte = 10 \<or> byte = 13) payload \<or> hd payload \<noteq> 0x7b \<or> List.last payload \<noteq> 0x7d then
                Err InvalidLineFraming
              else Ok payload)"

definition parse_miner_hex :: "hex_decoder \<Rightarrow> nat \<Rightarrow> string \<Rightarrow> string \<Rightarrow> (protocol_error, bytes) result" where
  "parse_miner_hex decode_to_slice n encoded field =
     (if 2 ^ 64 \<le> n * 2 then Err (invalid field ''encoded length overflowed'')
      else if length encoded \<noteq> n * 2 then
        Err (invalid field (''must contain exactly '' @ decimal (n * 2) @ '' hexadecimal characters''))
      else if \<not> list_all is_ascii_hexdigit encoded then Err (invalid field ''contains non-hexadecimal characters'')
      else map_err (\<lambda>error. invalid field error) (decode_to_slice encoded n))"

fun validate_subscribe_values :: "'num json list \<Rightarrow> (protocol_error, unit) result" where
  "validate_subscribe_values [] = Ok ()"
| "validate_subscribe_values (value # values) =
     (case value of
        JNull \<Rightarrow> validate_subscribe_values values
      | JNumber _ \<Rightarrow> validate_subscribe_values values
      | JString s \<Rightarrow> and_then (validate_bounded_text s 0 256 ''mining.subscribe parameter'') (\<lambda>_. validate_subscribe_values values)
      | _ \<Rightarrow> Err (invalid ''mining.subscribe parameter'' ''must be null, a number, or a bounded string''))"

definition validate_subscribe_params :: "'num json list \<Rightarrow> (protocol_error, unit) result" where
  "validate_subscribe_params params =
     (if 8 < length params then Err (invalid ''mining.subscribe params'' ''must contain at most eight compatibility values'')
      else validate_subscribe_values params)"

definition require_parameter_count :: "'num json list \<Rightarrow> nat \<Rightarrow> string \<Rightarrow> (protocol_error, unit) result" where
  "require_parameter_count params expected method_name = ensure (length params = expected)
     (invalid ''ZIP-301 params'' (method_name @ '' requires exactly '' @ decimal expected @ '' parameters''))"

definition parameter_string :: "'num json list \<Rightarrow> nat \<Rightarrow> string \<Rightarrow> (protocol_error, string) result" where
  "parameter_string params index field =
     ok_or (if index < length params then as_str (params ! index) else None) (invalid field ''must be a string'')"

definition parameter_hex :: "hex_decoder \<Rightarrow> nat \<Rightarrow> 'num json list \<Rightarrow> nat \<Rightarrow> string \<Rightarrow> (protocol_error, bytes) result" where
  "parameter_hex decode_to_slice n params index field =
     and_then (parameter_string params index field) (\<lambda>encoded. parse_miner_hex decode_to_slice n encoded field)"

definition decode_zip301_submit ::
  "hex_decoder \<Rightarrow> zip301_id \<Rightarrow> 'num json list \<Rightarrow> nonce_profile \<Rightarrow> (protocol_error, 'num zip301_request) result" where
  "decode_zip301_submit dec rid params profile =
     and_then (require_parameter_count params 5 ''mining.submit'') (\<lambda>_.
     and_then (parameter_string params 0 ''mining.submit worker'') (\<lambda>worker.
     and_then (validate_worker_label worker) (\<lambda>_.
     and_then (parameter_hex dec 32 params 1 ''mining.submit job id'') (\<lambda>job_id.
     and_then (require_nonzero_hex job_id ''mining.submit job id'') (\<lambda>_.
     and_then (parameter_hex dec 4 params 2 ''mining.submit time'') (\<lambda>time.
     and_then (require_nonzero_hex time ''mining.submit time'') (\<lambda>_.
     and_then (case profile of
         FourByte \<Rightarrow> and_then (parameter_hex dec 28 params 3 ''mining.submit nonce_2'') (\<lambda>n. Ok (TwentyEight n))
       | EightByte \<Rightarrow> and_then (parameter_hex dec 24 params 3 ''mining.submit nonce_2'') (\<lambda>n. Ok (TwentyFour n))) (\<lambda>nonce_2.
     and_then (parameter_hex dec 1347 params 4 ''mining.submit solution'') (\<lambda>compact_solution.
     if take 3 compact_solution \<noteq> EQUIHASH_SOLUTION_COMPACT_SIZE then
       Err (invalid ''mining.submit solution'' ''must start with canonical CompactSize fd4005'')
     else if length (drop 3 compact_solution) \<noteq> 1344 then
       Err (invalid ''mining.submit solution'' ''has an impossible decoded length'')
     else Ok (Submit rid worker job_id time nonce_2 (drop 3 compact_solution)))))))))))"

definition decode_multi_version :: "('num \<Rightarrow> u64 option) \<Rightarrow> 'num json \<Rightarrow> u32 option" where
  "decode_multi_version as_u64 value =
     Option.bind (Option.bind (as_number value) as_u64) (\<lambda>v.
     if unat v < 2 ^ 32 \<and> 0 < (ucast v :: u32) then Some (ucast v) else None)"

definition decode_zip301_request ::
  "hex_decoder \<Rightarrow> ('num \<Rightarrow> u64 option) \<Rightarrow> (bytes \<Rightarrow> (string, 'num raw_zip301_request) result) \<Rightarrow> bytes \<Rightarrow> nonce_profile \<Rightarrow>
     (protocol_error, 'num zip301_request) result" where
  "decode_zip301_request dec as_u64 from_slice frame profile =
     and_then (zip301_payload frame) (\<lambda>payload.
     and_then (map_err Json (from_slice payload)) (\<lambda>raw.
     and_then (Zip301Id_validate (raw_id raw)) (\<lambda>_.
     if 128 < length (raw_method raw) \<or> list_ex is_ascii_control (raw_method raw) then
       Err (invalid ''ZIP-301 method'' ''is malformed or too long'')
     else and_then (ok_or (as_array (raw_params raw)) (invalid ''ZIP-301 params'' ''must be an array'')) (\<lambda>params.
     if raw_method raw = ''mining.subscribe'' then
       and_then (validate_subscribe_params params) (\<lambda>_. Ok (Subscribe (raw_id raw) params))
     else if raw_method raw = ''mining.authorize'' then
       and_then (require_parameter_count params 2 ''mining.authorize'') (\<lambda>_.
       and_then (parameter_string params 0 ''mining.authorize worker'') (\<lambda>worker.
       and_then (validate_worker_label worker) (\<lambda>_.
       and_then (parameter_string params 1 ''mining.authorize password'') (\<lambda>password.
       and_then (validate_bounded_text password 0 1024 ''mining.authorize password'') (\<lambda>_.
       Ok (Authorize (raw_id raw) worker password))))))
     else if raw_method raw = ''mining.suggest_target'' then
       and_then (require_parameter_count params 1 ''mining.suggest_target'') (\<lambda>_.
       and_then (parameter_hex dec 32 params 0 ''mining.suggest_target target'') (\<lambda>target.
       and_then (require_nonzero_hex target ''mining.suggest_target target'') (\<lambda>_.
       Ok (SuggestTarget (raw_id raw) (TargetBe target)))))
     else if raw_method raw = ''mining.extranonce.subscribe'' then
       and_then (require_parameter_count params 0 ''mining.extranonce.subscribe'') (\<lambda>_.
       Ok (ExtranonceSubscribe (raw_id raw)))
     else if raw_method raw = ''mining.multi_version'' then
       and_then (require_parameter_count params 1 ''mining.multi_version'') (\<lambda>_.
       and_then (ok_or (decode_multi_version as_u64 (params ! 0))
         (invalid ''mining.multi_version count'' ''must be a nonzero 32-bit unsigned integer'')) (\<lambda>requested_versions.
       Ok (MultiVersion (raw_id raw) requested_versions)))
     else if raw_method raw = ''mining.submit'' then decode_zip301_submit dec (raw_id raw) params profile
     else Err (UnsupportedMethod (raw_method raw))))))"

section \<open>Encoding one message\<close>

record 'num zip301_response =
  rsp_id :: zip301_id
  rsp_result :: "'num json"
  rsp_error :: "'num json"

record 'num zip301_notification =
  ntf_id :: "'num json"
  ntf_method :: string
  ntf_params :: "'num json"

definition encode_zip301_serializable :: "('a \<Rightarrow> (string, bytes) result) \<Rightarrow> 'a \<Rightarrow> (protocol_error, bytes) result" where
  "encode_zip301_serializable to_vec value =
     and_then (map_err Json (to_vec value)) (\<lambda>payload.
     if payload = [] then Err (EmptyFrame ''ZIP-301'')
     else if MAX_ZIP301_PAYLOAD_BYTES < length payload then
       Err (FrameTooLarge ''ZIP-301'' MAX_ZIP301_PAYLOAD_BYTES (length payload))
     else Ok (payload @ [10]))"

definition notify_params :: "hex_encoder \<Rightarrow> zip301_notify \<Rightarrow> 'num json list" where
  "notify_params enc n =
     (let input = zn_header_input n; slice = (\<lambda>i j. JString (enc (take (j - i) (drop i input))))
      in [JString (FixedHex_to_string enc (zn_job_id n)), slice 0 4, slice 4 36, slice 36 68, slice 68 100, slice 100 104,
          slice 104 108, JBool (zn_clean_jobs n)])"

fun encode_zip301_message ::
  "hex_encoder \<Rightarrow> (32 word \<Rightarrow> 'num) \<Rightarrow> ('num zip301_response \<Rightarrow> (string, bytes) result) \<Rightarrow>
     ('num zip301_notification \<Rightarrow> (string, bytes) result) \<Rightarrow> zip301_server_message \<Rightarrow> (protocol_error, bytes) result" where
  "encode_zip301_message enc of_i32 to_vec_rsp to_vec_ntf (SubscribedMessage rid nonce_1) =
     and_then (Zip301Id_validate rid) (\<lambda>_. encode_zip301_serializable to_vec_rsp
       \<lparr>rsp_id = rid, rsp_result = JArray [JNull, JString (NoncePrefix_encoded enc nonce_1)], rsp_error = JNull\<rparr>)"
| "encode_zip301_message enc of_i32 to_vec_rsp to_vec_ntf (BooleanMessage rid outcome) =
     and_then (Zip301Id_validate rid) (\<lambda>_.
     if \<not> outcome then Err (invalid ''ZIP-301 boolean response'' ''false failures must use a typed Error response'')
     else encode_zip301_serializable to_vec_rsp \<lparr>rsp_id = rid, rsp_result = JBool outcome, rsp_error = JNull\<rparr>)"
| "encode_zip301_message enc of_i32 to_vec_rsp to_vec_ntf (ErrorMessage rid code message) =
     and_then (Zip301Id_validate rid) (\<lambda>_.
     and_then (validate_bounded_text message 1 256 ''ZIP-301 error message'') (\<lambda>_.
     encode_zip301_serializable to_vec_rsp
       \<lparr>rsp_id = rid, rsp_result = JNull, rsp_error = JArray [JNumber (of_i32 code), JString message, JNull]\<rparr>))"
| "encode_zip301_message enc of_i32 to_vec_rsp to_vec_ntf (SetTarget target_be) =
     (if TargetBe_is_zero target_be then Err (invalid ''mining.set_target target'' ''must be nonzero'')
      else encode_zip301_serializable to_vec_ntf
        \<lparr>ntf_id = JNull, ntf_method = ''mining.set_target'',
         ntf_params = JArray [JString (FixedHex_to_string enc (TargetBe_as_bytes target_be))]\<rparr>)"
| "encode_zip301_message enc of_i32 to_vec_rsp to_vec_ntf (Notify notify) =
     and_then (Zip301Notify_validate notify) (\<lambda>_.
     encode_zip301_serializable to_vec_ntf
       \<lparr>ntf_id = JNull, ntf_method = ''mining.notify'', ntf_params = JArray (notify_params enc notify)\<rparr>)"

section \<open>The incremental decoder\<close>

record zip301_frame_codec =
  zc_payload :: bytes

definition Zip301FrameCodec_new :: zip301_frame_codec where
  "Zip301FrameCodec_new = \<lparr>zc_payload = []\<rparr>"

definition Zip301FrameCodec_buffered_bytes :: "zip301_frame_codec \<Rightarrow> nat" where
  "Zip301FrameCodec_buffered_bytes c = length (zc_payload c)"

definition Zip301FrameCodec_reset :: "zip301_frame_codec \<Rightarrow> zip301_frame_codec" where
  "Zip301FrameCodec_reset c = c\<lparr>zc_payload := []\<rparr>"

text \<open>The standard library's \<open>Iterator::position\<close>.\<close>

fun position :: "('a \<Rightarrow> bool) \<Rightarrow> 'a list \<Rightarrow> nat option" where
  "position P [] = None"
| "position P (x # xs) = (if P x then Some 0 else map_option Suc (position P xs))"

text \<open>The codec hands a complete frame to \<open>decode\<close>; \<open>Zip301FrameCodec_decode_request\<close> passes \<open>decode_zip301_request\<close>.\<close>

definition decode_line ::
  "(nat \<Rightarrow> bool) \<Rightarrow> (bytes \<Rightarrow> (protocol_error, 'm) result) \<Rightarrow> zip301_frame_codec \<Rightarrow> bytes \<Rightarrow>
     (protocol_error, nat \<times> 'm option) result \<times> zip301_frame_codec" where
  "decode_line reserve decode c input =
     (if MAX_ZIP301_PAYLOAD_BYTES < length (zc_payload c) then
        (Err (invalid ''ZIP-301 decoder'' ''buffer exceeded its payload limit''), Zip301FrameCodec_reset c)
      else let remaining = MAX_ZIP301_PAYLOAD_BYTES - length (zc_payload c);
               inspected = min (length input) (remaining + 1)
           in case position (\<lambda>byte. byte = 10) (take inspected input) of
                None \<Rightarrow>
                  if remaining < length input then
                    (Err (FrameTooLarge ''ZIP-301'' MAX_ZIP301_PAYLOAD_BYTES (MAX_ZIP301_PAYLOAD_BYTES + 1)), Zip301FrameCodec_reset c)
                  else if \<not> reserve (length input) then
                    (Err (invalid ''ZIP-301 decoder'' ''could not reserve bounded payload''), Zip301FrameCodec_reset c)
                  else (Ok (length input, None), c\<lparr>zc_payload := zc_payload c @ input\<rparr>)
              | Some payload_bytes \<Rightarrow>
                  if \<not> reserve (payload_bytes + 1) then
                    (Err (invalid ''ZIP-301 decoder'' ''could not reserve bounded payload''), Zip301FrameCodec_reset c)
                  else let frame = zc_payload c @ take payload_bytes input @ [10]
                       in (and_then (decode frame) (\<lambda>decoded. Ok (payload_bytes + 1, Some decoded)), c\<lparr>zc_payload := []\<rparr>))"

definition Zip301FrameCodec_decode_request where
  "Zip301FrameCodec_decode_request dec as_u64 from_slice reserve profile c input =
     decode_line reserve (\<lambda>frame. decode_zip301_request dec as_u64 from_slice frame profile) c input"

section \<open>The codec as an incremental decoder\<close>

definition zip301_codec_ok :: "zip301_frame_codec \<Rightarrow> bool" where
  "zip301_codec_ok c \<longleftrightarrow> length (zc_payload c) \<le> MAX_ZIP301_PAYLOAD_BYTES"

lemma position_less: "position P xs = Some i \<Longrightarrow> i < length xs"
  by (induction xs arbitrary: i) (auto split: if_splits)

lemma position_append:
  "position P (xs @ ys) = (case position P xs of Some i \<Rightarrow> Some i | None \<Rightarrow> map_option ((+) (length xs)) (position P ys))"
  by (cases "position P ys"; induction xs) (auto split: option.splits)

lemma position_take:
  "position P (take n xs) = (case position P xs of Some i \<Rightarrow> if i < n then Some i else None | None \<Rightarrow> None)"
proof (induction xs arbitrary: n)
  case (Cons x xs)
  then show ?case by (cases n) (auto split: option.splits)
qed simp

lemma zip301_new_ok [simp]: "zip301_codec_ok Zip301FrameCodec_new"
  by (simp add: zip301_codec_ok_def Zip301FrameCodec_new_def)

lemma zip301_reset [simp]: "Zip301FrameCodec_reset c = \<lparr>zc_payload = []\<rparr>"
  by (simp add: Zip301FrameCodec_reset_def)

text \<open>One call in terms of the first line feed of the whole input, memory permitting.\<close>

lemma decode_line_step:
  assumes "zip301_codec_ok c"
  shows "decode_line (\<lambda>_. True) decode c input =
    (let room = MAX_ZIP301_PAYLOAD_BYTES - length (zc_payload c)
     in case position (\<lambda>byte. byte = 10) input of
          Some i \<Rightarrow>
            if i \<le> room then (and_then (decode (zc_payload c @ take i input @ [10])) (\<lambda>m. Ok (i + 1, Some m)), \<lparr>zc_payload = []\<rparr>)
            else (Err (FrameTooLarge ''ZIP-301'' MAX_ZIP301_PAYLOAD_BYTES (MAX_ZIP301_PAYLOAD_BYTES + 1)), \<lparr>zc_payload = []\<rparr>)
        | None \<Rightarrow>
            if length input \<le> room then (Ok (length input, None), \<lparr>zc_payload = zc_payload c @ input\<rparr>)
            else (Err (FrameTooLarge ''ZIP-301'' MAX_ZIP301_PAYLOAD_BYTES (MAX_ZIP301_PAYLOAD_BYTES + 1)), \<lparr>zc_payload = []\<rparr>))"
  using assms
  by (cases "position (\<lambda>byte. byte = 10) input")
    (auto simp: decode_line_def zip301_codec_ok_def Let_def position_take dest: position_less)

interpretation zip301: frame_decoder "decode_line (\<lambda>_. True) decode" zip301_codec_ok for decode
proof
  fix s xs n s' ys
  assume s: "zip301_codec_ok s" and d: "decode_line (\<lambda>_. True) decode s xs = (Ok (n, None), s')"
  then have "n = length xs" "zip301_codec_ok s'" "s' = \<lparr>zc_payload = zc_payload s @ xs\<rparr>" "position (\<lambda>byte. byte = 10) xs = None"
      "length (zc_payload s) + length xs \<le> MAX_ZIP301_PAYLOAD_BYTES"
    by (auto simp: decode_line_step Let_def zip301_codec_ok_def split: option.splits if_splits)
  with s show "n = length xs \<and> zip301_codec_ok s' \<and>
      decode_line (\<lambda>_. True) decode s (xs @ ys) = shift_consumed (length xs) (decode_line (\<lambda>_. True) decode s' ys)"
    by (cases "position (\<lambda>byte. byte = 10) ys") (auto simp: decode_line_step Let_def position_append)
next
  fix s xs n m s' ys
  assume s: "zip301_codec_ok s" and d: "decode_line (\<lambda>_. True) decode s xs = (Ok (n, Some m), s')"
  then obtain i where i: "position (\<lambda>byte. byte = 10) xs = Some i"
    by (auto simp: decode_line_step Let_def split: option.splits if_splits)
  show "0 < n \<and> n \<le> length xs \<and> zip301_codec_ok s' \<and> decode_line (\<lambda>_. True) decode s (xs @ ys) = (Ok (n, Some m), s')"
    using s d i position_less [OF i]
    by (auto simp: decode_line_step Let_def position_append zip301_codec_ok_def split: if_splits)
next
  fix s xs e s' ys
  assume s: "zip301_codec_ok s" and d: "decode_line (\<lambda>_. True) decode s xs = (Err e, s')"
  show "zip301_codec_ok s' \<and> decode_line (\<lambda>_. True) decode s (xs @ ys) = (Err e, s')"
  proof (cases "position (\<lambda>byte. byte = 10) xs")
    case None
    with s d show ?thesis
      by (cases "position (\<lambda>byte. byte = 10) ys")
        (auto simp: decode_line_step Let_def position_append zip301_codec_ok_def split: if_splits)
  next
    case (Some i)
    with s d position_less [OF Some] show ?thesis
      by (auto simp: decode_line_step Let_def position_append zip301_codec_ok_def split: if_splits)
  qed
qed

end
