(* ===== verification/Zip301_Properties.thy ===== *)
theory Zip301_Properties
  imports Zip301
begin

text \<open>
  What the miner protocol guarantees: the requests of a connection depend on its byte stream only, no line is ever
  joined to the rest of a rejected one, the buffer is bounded, and an accepted \<open>mining.submit\<close> is exactly the bytes
  its five parameters spell.
\<close>

section \<open>Hexadecimal parameters\<close>

text \<open>A miner may write a byte string with digits of either case.\<close>

definition spells :: "hex_encoder \<Rightarrow> string \<Rightarrow> bytes \<Rightarrow> bool" where
  "spells enc s bs \<longleftrightarrow> list_all is_ascii_hexdigit s \<and> map to_lower_hex s = enc bs"

lemma spells_length: "hex_contract enc dec \<Longrightarrow> spells enc s bs \<Longrightarrow> length s = 2 * length bs"
  by (metis spells_def hex_contract_encode(1) length_map)

lemma hex_encode_inj: "hex_contract enc dec \<Longrightarrow> enc bs = enc bs' \<Longrightarrow> bs = bs'"
proof -
  assume hex: "hex_contract enc dec" and eq: "enc bs = enc bs'"
  then have "length bs = length bs'" using hex_contract_encode(1) [OF hex] by (metis mult_left_cancel zero_neq_numeral)
  then show "bs = bs'" using hex_contract_encode(3) [OF hex] eq by (metis result.inject(2))
qed

lemma parse_miner_hex_Ok:
  assumes hex: "hex_contract enc dec" and n: "n * 2 < 2 ^ 64"
  shows "parse_miner_hex dec n s field = Ok bs \<longleftrightarrow> length bs = n \<and> spells enc s bs"
proof
  assume "parse_miner_hex dec n s field = Ok bs"
  then have s: "length s = 2 * n" "list_all is_ascii_hexdigit s" "dec s n = Ok bs"
    by (auto simp: parse_miner_hex_def split: if_splits)
  from hex s(1,2) obtain bs' where "dec s n = Ok bs'" "length bs' = n" "enc bs' = map to_lower_hex s"
    by (rule hex_contract_decode)
  with s show "length bs = n \<and> spells enc s bs" by (simp add: spells_def)
next
  assume bs: "length bs = n \<and> spells enc s bs"
  then have s: "length s = 2 * n" "list_all is_ascii_hexdigit s"
    using spells_length [OF hex] by (auto simp: spells_def)
  with hex obtain bs' where bs': "dec s n = Ok bs'" "enc bs' = map to_lower_hex s"
    by (rule hex_contract_decode)
  then have "bs' = bs" using bs hex_encode_inj [OF hex] by (simp add: spells_def)
  with s bs' n show "parse_miner_hex dec n s field = Ok bs" by (simp add: parse_miner_hex_def)
qed

lemma parameter_string_Ok:
  "parameter_string params i field = Ok s \<longleftrightarrow> i < length params \<and> params ! i = JString s"
  by (cases "params ! i") (auto simp: parameter_string_def)

lemma parameter_hex_Ok:
  assumes "hex_contract enc dec" "n * 2 < 2 ^ 64"
  shows "parameter_hex dec n params i field = Ok bs \<longleftrightarrow>
    (\<exists>s. i < length params \<and> params ! i = JString s \<and> length bs = n \<and> spells enc s bs)"
  by (auto simp: parameter_hex_def parameter_string_Ok parse_miner_hex_Ok [OF assms])

lemma parameter_nonce_Ok:
  assumes "hex_contract enc dec"
  shows "(case profile of
       FourByte \<Rightarrow> and_then (parameter_hex dec 28 params i field) (\<lambda>n. Ok (TwentyEight n))
     | EightByte \<Rightarrow> and_then (parameter_hex dec 24 params i field) (\<lambda>n. Ok (TwentyFour n))) = Ok nonce \<longleftrightarrow>
    (\<exists>s. i < length params \<and> params ! i = JString s \<and> spells enc s (NonceSuffix_bytes nonce) \<and>
       NonceSuffix_profile nonce = profile \<and> wf_suffix nonce)"
  by (cases profile; cases nonce) (auto simp: parameter_hex_Ok [OF assms] wf_suffix_def suffix_bytes_def)

lemma compact_solution_iff:
  "length c = 1347 \<and> take 3 c = EQUIHASH_SOLUTION_COMPACT_SIZE \<and> drop 3 c = solution \<longleftrightarrow>
    c = EQUIHASH_SOLUTION_COMPACT_SIZE @ solution \<and> length solution = 1344"
  by (auto simp: EQUIHASH_SOLUTION_COMPACT_SIZE_def) (metis append_Cons append_Nil append_take_drop_id)

lemma five_strings:
  "length params = 5 \<Longrightarrow> params ! 0 = JString a \<Longrightarrow> params ! 1 = JString b \<Longrightarrow> params ! 2 = JString c \<Longrightarrow>
    params ! 3 = JString d \<Longrightarrow> params ! 4 = JString e \<Longrightarrow> params = [JString a, JString b, JString c, JString d, JString e]"
  by (auto simp: list_eq_iff_nth_eq less_Suc_eq numeral_eq_Suc)

text \<open>The parameters of a well-formed submission and what they spell.\<close>

definition submit_spells ::
  "hex_encoder \<Rightarrow> 'num json list \<Rightarrow> nonce_profile \<Rightarrow> string \<Rightarrow> bytes \<Rightarrow> bytes \<Rightarrow> nonce_suffix \<Rightarrow> bytes \<Rightarrow> bool" where
  "submit_spells enc params profile worker job_id time nonce_2 solution \<longleftrightarrow>
     (\<exists>j t n s. params = [JString worker, JString j, JString t, JString n, JString s] \<and>
        is_ok (validate_worker_label worker) \<and>
        spells enc j job_id \<and> length job_id = 32 \<and> \<not> FixedHex_is_zero job_id \<and>
        spells enc t time \<and> length time = 4 \<and> \<not> FixedHex_is_zero time \<and>
        spells enc n (NonceSuffix_bytes nonce_2) \<and> NonceSuffix_profile nonce_2 = profile \<and> wf_suffix nonce_2 \<and>
        spells enc s (EQUIHASH_SOLUTION_COMPACT_SIZE @ solution) \<and> length solution = 1344)"

lemma submit_decoded:
  assumes hex: "hex_contract enc dec" and ok: "decode_zip301_submit dec rid params profile = Ok request"
  obtains worker job_id time nonce_2 solution where "request = Submit rid worker job_id time nonce_2 solution"
    "submit_spells enc params profile worker job_id time nonce_2 solution"
proof -
  obtain worker j t n s job_id time nonce_2 c where p: "length params = 5" "params ! 0 = JString worker"
      "params ! 1 = JString j" "params ! 2 = JString t" "params ! 3 = JString n" "params ! 4 = JString s"
    and c: "length c = 1347" "take 3 c = EQUIHASH_SOLUTION_COMPACT_SIZE" "spells enc s c"
    and rest: "request = Submit rid worker job_id time nonce_2 (drop 3 c)" "is_ok (validate_worker_label worker)"
      "spells enc j job_id" "length job_id = 32" "\<not> FixedHex_is_zero job_id" "spells enc t time" "length time = 4"
      "\<not> FixedHex_is_zero time" "spells enc n (NonceSuffix_bytes nonce_2)" "NonceSuffix_profile nonce_2 = profile"
      "wf_suffix nonce_2"
    using ok unfolding decode_zip301_submit_def
    by (auto simp: parameter_string_Ok parameter_hex_Ok [OF hex] parameter_nonce_Ok [OF hex] require_parameter_count_def
      require_nonzero_hex_def is_ok_iff split: if_splits)
  have "c = EQUIHASH_SOLUTION_COMPACT_SIZE @ drop 3 c" "length (drop 3 c) = 1344"
    using compact_solution_iff [of c "drop 3 c"] c(1,2) by simp_all
  then have "submit_spells enc params profile worker job_id time nonce_2 (drop 3 c)"
    using five_strings [OF p] c(3) rest by (simp add: submit_spells_def)
  with rest(1) that show thesis by blast
qed

lemma submit_accepted:
  assumes hex: "hex_contract enc dec" and "submit_spells enc params profile worker job_id time nonce_2 solution"
  shows "decode_zip301_submit dec rid params profile = Ok (Submit rid worker job_id time nonce_2 solution)"
proof -
  obtain j t n s where p: "params = [JString worker, JString j, JString t, JString n, JString s]"
      "is_ok (validate_worker_label worker)" "spells enc j job_id" "length job_id = 32" "\<not> FixedHex_is_zero job_id"
      "spells enc t time" "length time = 4" "\<not> FixedHex_is_zero time" "spells enc n (NonceSuffix_bytes nonce_2)"
      "NonceSuffix_profile nonce_2 = profile" "wf_suffix nonce_2"
      "spells enc s (EQUIHASH_SOLUTION_COMPACT_SIZE @ solution)" "length solution = 1344"
    using assms(2) by (auto simp: submit_spells_def)
  have parts: "parameter_string params 0 f = Ok worker" "parameter_hex dec 32 params 1 f = Ok job_id"
      "parameter_hex dec 4 params 2 f = Ok time"
      "parameter_hex dec 1347 params 4 f = Ok (EQUIHASH_SOLUTION_COMPACT_SIZE @ solution)" for f
    using p by (simp_all add: parameter_string_Ok parameter_hex_Ok [OF hex] EQUIHASH_SOLUTION_COMPACT_SIZE_def)
  have nonce: "(case profile of
       FourByte \<Rightarrow> and_then (parameter_hex dec 28 params 3 f) (\<lambda>n. Ok (TwentyEight n))
     | EightByte \<Rightarrow> and_then (parameter_hex dec 24 params 3 f) (\<lambda>n. Ok (TwentyFour n))) = Ok nonce_2" for f
    unfolding parameter_nonce_Ok [OF hex] using p by simp
  have checks: "validate_worker_label worker = Ok ()" "require_nonzero_hex job_id f = Ok ()" "require_nonzero_hex time f = Ok ()"
      "require_parameter_count params 5 f = Ok ()" for f
    using p by (simp_all add: is_ok_iff require_nonzero_hex_def require_parameter_count_def)
  show ?thesis
    using p(13) by (simp add: decode_zip301_submit_def parts nonce checks del: One_nat_def) (simp add: EQUIHASH_SOLUTION_COMPACT_SIZE_def)
qed

text \<open>A decoder call that fails leaves nothing behind.\<close>

lemma decode_line_error_empty: "zip301_codec_ok s \<Longrightarrow> decode_line (\<lambda>_. True) decode s xs = (Err e, s') \<Longrightarrow> zc_payload s' = []"
  by (auto simp: decode_line_step Let_def split: if_splits option.splits)

section \<open>Properties\<close>

text \<open>C38 The requests, the error and the final state of a miner connection depend only on the received byte stream,
  however the network cuts it into reads, memory permitting.\<close>

theorem zip301_reads_chunk_independent:
  "drain_reads (Zip301FrameCodec_decode_request dec as_u64 from_slice (\<lambda>_. True) profile) Zip301FrameCodec_new chunks =
     drain (Zip301FrameCodec_decode_request dec as_u64 from_slice (\<lambda>_. True) profile) Zip301FrameCodec_new (concat chunks)"
  unfolding Zip301FrameCodec_decode_request_def [abs_def] by (rule zip301.reads_concat [OF zip301_new_ok])

text \<open>C37 A \<open>mining.submit\<close> is accepted exactly when it has five string parameters that spell, in hexadecimal digits of
  either case, a nonzero job, a nonzero time, a nonce suffix of the listener's profile and the canonical
  \<open>CompactSize\<close> followed by a 1344-byte solution, with a valid worker label; the decoded request holds exactly those
  bytes.\<close>

theorem zip301_submit_exact:
  assumes "hex_contract enc dec"
  shows "decode_zip301_submit dec rid params profile = Ok request \<longleftrightarrow>
    (\<exists>worker job_id time nonce_2 solution. request = Submit rid worker job_id time nonce_2 solution \<and>
       submit_spells enc params profile worker job_id time nonce_2 solution)"
  using submit_decoded [OF assms] submit_accepted [OF assms] by metis

text \<open>C39 Whatever a miner sends, in whatever pieces, the receive loop never meets a decoder that makes no progress, the
  codec buffers at most 64 KiB, and after an error it holds nothing: no byte of a rejected line is joined to a later one.\<close>

theorem zip301_codec_bounded:
  assumes "drain_reads (Zip301FrameCodec_decode_request dec as_u64 from_slice (\<lambda>_. True) profile) Zip301FrameCodec_new chunks =
    (requests, e, c)"
  shows "Zip301FrameCodec_buffered_bytes c \<le> MAX_ZIP301_PAYLOAD_BYTES \<and> e \<noteq> Some DecoderMadeNoProgress \<and>
    (e = None \<or> Zip301FrameCodec_buffered_bytes c = 0)"
proof -
  let ?decode = "\<lambda>frame. decode_zip301_request dec as_u64 from_slice frame profile"
  have d: "drain (decode_line (\<lambda>_. True) ?decode) Zip301FrameCodec_new (concat chunks) = (requests, e, c)"
    using assms zip301.reads_concat [OF zip301_new_ok, of ?decode chunks]
    by (simp add: Zip301FrameCodec_decode_request_def [abs_def])
  have "zip301_codec_ok c \<and> e \<noteq> Some DecoderMadeNoProgress" by (rule zip301.drain_inv [OF zip301_new_ok d])
  moreover have "e = None \<or> zc_payload c = []" 
    using zip301.drain_fails [OF zip301_new_ok d] decode_line_error_empty by (auto split: option.splits)
  ultimately show ?thesis by (auto simp: zip301_codec_ok_def Zip301FrameCodec_buffered_bytes_def)
qed

section \<open>A concrete instance\<close>

text \<open>A hexadecimal codec that meets the contract.\<close>

definition hex_digit :: "nat \<Rightarrow> char" where
  "hex_digit n = char_of (if n < 10 then 48 + n else 87 + n)"

definition hex_value :: "char \<Rightarrow> nat" where
  "hex_value c = (let n = of_char c in if n < 58 then n - 48 else if n < 71 then n - 55 else n - 87)"

fun example_encode :: hex_encoder where
  "example_encode [] = []"
| "example_encode (b # bs) = hex_digit (unat b div 16) # hex_digit (unat b mod 16) # example_encode bs"

fun hex_bytes :: "string \<Rightarrow> bytes" where
  "hex_bytes (a # b # rest) = of_nat (16 * hex_value a + hex_value b) # hex_bytes rest"
| "hex_bytes _ = []"

definition example_decode :: hex_decoder where
  "example_decode s n =
     (if length s = 2 * n \<and> list_all is_ascii_hexdigit s then Ok (hex_bytes s) else Err ''Invalid string length'')"

lemma hex_digit_value: "is_ascii_hexdigit c \<Longrightarrow> hex_digit (hex_value c) = to_lower_hex c \<and> hex_value c < 16"
  by (auto simp: hex_digit_def hex_value_def to_lower_hex_def is_ascii_hexdigit_def is_ascii_digit_def is_lower_hex_letter_def
    is_upper_hex_letter_def Let_def)

lemma hex_value_digit: "n < 16 \<Longrightarrow> is_canonical_hexdigit (hex_digit n) \<and> hex_value (hex_digit n) = n"
  by (auto simp: hex_digit_def hex_value_def is_canonical_hexdigit_def is_ascii_digit_def is_lower_hex_letter_def Let_def)

lemma byte_nibbles: "unat b div 16 < 16" "unat b mod 16 < 16" "of_nat (16 * (unat b div 16) + unat b mod 16) = b" for b :: u8
proof -
  have "unat b < 2 ^ LENGTH(8)" by (rule unsigned_less)
  then have "unat b < 256" by simp
  then show "unat b div 16 < 16" "unat b mod 16 < 16" by auto
  show "of_nat (16 * (unat b div 16) + unat b mod 16) = b" by (simp only: mult_div_mod_eq) simp
qed

lemma nibbles_byte: "x < 16 \<Longrightarrow> y < 16 \<Longrightarrow> unat (of_nat (16 * x + y) :: u8) = 16 * x + y"
  by (subst unat_of_nat) simp

lemma example_encode_hex: "length (example_encode bs) = 2 * length bs \<and> list_all is_canonical_hexdigit (example_encode bs)"
  by (induction bs) (simp_all add: hex_value_digit byte_nibbles)

lemma hex_bytes_encode: "hex_bytes (example_encode bs) = bs"
  by (induction bs) (simp_all add: hex_value_digit byte_nibbles del: of_nat_add of_nat_mult)

lemma encode_hex_bytes:
  "length s = 2 * n \<Longrightarrow> list_all is_ascii_hexdigit s \<Longrightarrow> length (hex_bytes s) = n \<and> example_encode (hex_bytes s) = map to_lower_hex s"
proof (induction s arbitrary: n rule: hex_bytes.induct)
  case (1 a b rest)
  then obtain m where "n = Suc m" by (cases n) auto
  with 1 hex_digit_value [of a] hex_digit_value [of b] show ?case
    by (simp add: nibbles_byte del: of_nat_add of_nat_mult)
qed auto

lemma example_hex: "hex_contract example_encode example_decode"
  unfolding hex_contract_def example_decode_def
  using example_encode_hex hex_bytes_encode encode_hex_bytes canonical_hexdigit_ascii
  by (auto simp: list_all_iff)

definition example_submit :: "unit json list" where
  "example_submit = [JString ''rig-1'', JString (replicate 64 CHR ''A''), JString ''00ff00ff'', JString (replicate 56 CHR ''1''),
     JString (''FD4005'' @ replicate 2688 CHR ''2'')]"

lemma example_encode_append: "example_encode (xs @ ys) = example_encode xs @ example_encode ys"
  by (induction xs) simp_all

lemma example_encode_replicate:
  "example_encode (replicate n b) = concat (replicate n [hex_digit (unat b div 16), hex_digit (unat b mod 16)])"
  by (induction n) simp_all

lemma replicate_pairs: "concat (replicate n [c, c]) = replicate (2 * n) c"
  by (induction n) simp_all

lemma spells_replicate:
  "m = 2 * n \<Longrightarrow> is_ascii_hexdigit c \<Longrightarrow> hex_digit (unat b div 16) = to_lower_hex c \<Longrightarrow> hex_digit (unat b mod 16) = to_lower_hex c \<Longrightarrow>
    spells example_encode (replicate m c) (replicate n b)"
  by (simp add: spells_def example_encode_replicate replicate_pairs list_all_length)

lemma spells_append: "spells example_encode s xs \<Longrightarrow> spells example_encode t ys \<Longrightarrow> spells example_encode (s @ t) (xs @ ys)"
  by (simp add: spells_def example_encode_append)

lemmas example_digits = is_ascii_hexdigit_def is_ascii_digit_def is_lower_hex_letter_def is_upper_hex_letter_def to_lower_hex_def
  hex_digit_def

lemma example_submit_spells:
  "submit_spells example_encode example_submit FourByte ''rig-1'' (replicate 32 0xaa) [0x00, 0xff, 0x00, 0xff]
     (TwentyEight (replicate 28 0x11)) (replicate 1344 0x22)"
proof -
  have "spells example_encode (replicate 64 CHR ''A'') (replicate 32 0xaa)" by (rule spells_replicate) (simp_all add: example_digits char_of_def bit_Suc_0_iff)
  moreover have "spells example_encode (replicate 56 CHR ''1'') (replicate 28 0x11)" by (rule spells_replicate) (simp_all add: example_digits char_of_def bit_Suc_0_iff)
  moreover have "spells example_encode (replicate 2688 CHR ''2'') (replicate 1344 0x22)" by (rule spells_replicate) (simp_all add: example_digits char_of_def bit_Suc_0_iff)
  moreover have "spells example_encode ''FD4005'' EQUIHASH_SOLUTION_COMPACT_SIZE" "spells example_encode ''00ff00ff'' [0x00, 0xff, 0x00, 0xff]"
    by (simp_all add: spells_def EQUIHASH_SOLUTION_COMPACT_SIZE_def example_digits char_of_def bit_Suc_0_iff)
  moreover have "is_ok (validate_worker_label ''rig-1'')"
    by (simp add: validate_worker_label_def is_ascii_control_def is_ascii_alphanumeric_def)
  ultimately show ?thesis
    using spells_append [of "''FD4005''" EQUIHASH_SOLUTION_COMPACT_SIZE]
    by (simp add: submit_spells_def example_submit_def wf_suffix_def suffix_bytes_def FixedHex_is_zero_def list_all_iff)
qed

theorem zip301_submit_exact_witness:
  "decode_zip301_submit example_decode (IdNumber 4) example_submit FourByte =
     Ok (Submit (IdNumber 4) ''rig-1'' (replicate 32 0xaa) [0x00, 0xff, 0x00, 0xff] (TwentyEight (replicate 28 0x11))
       (replicate 1344 0x22))"
  using zip301_submit_exact [OF example_hex] example_submit_spells by blast

theorem zip301_codec_bounded_witness:
  "drain_reads (Zip301FrameCodec_decode_request example_decode (\<lambda>_ :: unit. None) (\<lambda>_. Err ''eof'') (\<lambda>_. True) FourByte)
     Zip301FrameCodec_new [[0x7b], [0x7d, 10, 0x7b]] = ([], Some (Framing (Json ''eof'')), \<lparr>zc_payload = []\<rparr>) \<and>
   Zip301FrameCodec_buffered_bytes \<lparr>zc_payload = []\<rparr> = 0"
proof -
  have "drain_reads (Zip301FrameCodec_decode_request example_decode (\<lambda>_ :: unit. None) (\<lambda>_. Err ''eof'') (\<lambda>_. True) FourByte)
     Zip301FrameCodec_new [[0x7b], [0x7d, 10, 0x7b]] = ([], Some (Framing (Json ''eof'')), \<lparr>zc_payload = []\<rparr>)"
    by (simp add: Zip301FrameCodec_decode_request_def [abs_def] drain.simps decode_line_step Zip301FrameCodec_new_def
      zip301_codec_ok_def decode_zip301_request_def zip301_payload_def MAX_ZIP301_PAYLOAD_BYTES_def)
  from this zip301_codec_bounded [OF this] show ?thesis by simp
qed

end
