(* ===== verification/Generation_Registry.thy ===== *)
theory Generation_Registry
  imports Share_Target Backend_Messages
begin

text \<open>
  \<open>crates/wcash-pool-core/src/jobs.rs\<close>: backend generations, the registry of current and recent
  generations with their deadlines, and the admission guards. An \<open>Arc<GenerationResource>\<close> is its
  immutable generation together with the address of its \<open>in_flight\<close> counter; the counters are the list
  \<open>gr_counters\<close> of the registry, an address its index, so that every holder of the \<open>Arc\<close> shares one counter.
  SHA-256 is the parameter \<open>sha256\<close>.
\<close>

section \<open>Generations\<close>

datatype job_id = JobId (JobId_into_bytes: bytes)

instantiation job_id :: linorder
begin

definition less_eq_job_id :: "job_id \<Rightarrow> job_id \<Rightarrow> bool" where
  "less_eq_job_id a b = (JobId_into_bytes a \<le> JobId_into_bytes b)"

definition less_job_id :: "job_id \<Rightarrow> job_id \<Rightarrow> bool" where
  "less_job_id a b = (JobId_into_bytes a < JobId_into_bytes b)"

instance
  by standard (auto simp: less_eq_job_id_def less_job_id_def job_id.expand)

end

datatype job_registry_error =
    ZeroJobId
  | InvalidLimits
  | InvalidDescriptor
  | InvalidRemainingLifetime job_id
  | DeadlineOverflow
  | RegistryClockMovedBackwards
  | SnapshotSequenceRollback u64 u64
  | SnapshotStateConflict u64
  | DuplicateSnapshotJob job_id
  | ConflictingJobId job_id
  | ResurrectedJob job_id
  | ReusedJobId job_id
  | RecentCapacityExceeded nat
  | GenerationCapacityExceeded nat
  | NotSynchronized
  | EventSequenceGap u64 u64
  | EventSequenceExhausted
  | InvalidBackendEvent
  | UnknownJob job_id
  | RegistryStaleJob job_id
  | AdmissionCounterExhausted job_id

definition JobId_new :: "bytes \<Rightarrow> (job_registry_error, job_id) result" where
  "JobId_new bs = (if bs = replicate 32 0 then Err ZeroJobId else Ok (JobId bs))"

definition JobId_to_protocol :: "job_id \<Rightarrow> bytes" where
  "JobId_to_protocol i = JobId_into_bytes i"

record tip_identity =
  ti_wcash_previous_hash_le :: bytes
  ti_zcash_previous_hash_le :: bytes

record backend_generation =
  bg_descriptor :: job_descriptor
  bg_id :: job_id
  bg_tips :: tip_identity
  bg_wcash_network_target :: share_target
  bg_zcash_network_target :: share_target

definition BackendGeneration_from_descriptor ::
  "job_descriptor \<Rightarrow> (job_registry_error, backend_generation) result" where
  "BackendGeneration_from_descriptor d =
     and_then (map_err (\<lambda>_. InvalidDescriptor) (JobDescriptor_validate d)) (\<lambda>_.
     and_then (JobId_new (jd_job_id d)) (\<lambda>gid.
     let tips = \<lparr>ti_wcash_previous_hash_le = jd_wcash_previous_hash_le d,
                 ti_zcash_previous_hash_le = jd_zcash_previous_hash_le d\<rparr> in
     and_then (map_err (\<lambda>_. InvalidDescriptor) (ShareTarget_from_backend (jd_wcash_target_le d))) (\<lambda>wcash.
     and_then (map_err (\<lambda>_. InvalidDescriptor) (ShareTarget_from_backend (jd_zcash_target_le d))) (\<lambda>zcash.
     Ok \<lparr>bg_descriptor = d, bg_id = gid, bg_tips = tips,
         bg_wcash_network_target = wcash, bg_zcash_network_target = zcash\<rparr>))))"

definition header_time :: "backend_generation \<Rightarrow> bytes" where
  "header_time g = take 4 (drop 100 (jd_header_input (bg_descriptor g)))"

definition maximum_age_ms :: "backend_generation \<Rightarrow> u32" where
  "maximum_age_ms g = jd_max_age_ms (bg_descriptor g)"

section \<open>Session assignments\<close>

record job_assignment =
  ja_generation_id :: job_id
  ja_target :: target_binding

datatype job_assignment_error = NetworkTargetMismatch job_id

definition JobAssignment_new ::
  "backend_generation \<Rightarrow> target_binding \<Rightarrow> (job_assignment_error, job_assignment) result" where
  "JobAssignment_new generation target =
     (let bounds = bd_bounds target in
      if tb_wcash_network bounds \<noteq> bg_wcash_network_target generation \<or>
         tb_zcash_network bounds \<noteq> bg_zcash_network_target generation
      then Err (NetworkTargetMismatch (bg_id generation))
      else Ok \<lparr>ja_generation_id = bg_id generation, ja_target = target\<rparr>)"

section \<open>Registry state\<close>

definition MAX_ZCASH_WINNER_RECOVERY_JOBS :: nat where "MAX_ZCASH_WINNER_RECOVERY_JOBS = 32"
definition ZCASH_WINNER_RECOVERY_TAIL_MS :: u64 where "ZCASH_WINNER_RECOVERY_TAIL_MS = 60000"

record admissible_job_ids =
  aji_current :: "job_id option"
  aji_recent :: "job_id list"

record generation_registry_config =
  rc_maximum_recent :: nat
  rc_maximum_generations :: nat

definition GenerationRegistryConfig_new ::
  "nat \<Rightarrow> nat \<Rightarrow> (job_registry_error, generation_registry_config) result" where
  "GenerationRegistryConfig_new maximum_recent maximum_generations =
     (if maximum_recent = 0 \<or> maximum_generations \<le> maximum_recent then Err InvalidLimits
      else Ok \<lparr>rc_maximum_recent = maximum_recent, rc_maximum_generations = maximum_generations\<rparr>)"

datatype admission_state = Accepting | Suspended | Invalidated | Closed

datatype generation_storage = Live backend_generation nat | Tombstone backend_generation

fun storage_generation :: "generation_storage \<Rightarrow> backend_generation" where
  "storage_generation (Live generation _) = generation"
| "storage_generation (Tombstone generation) = generation"

text \<open>\<open>live_resource\<close> returns the shared resource: its generation and the address of its counter.\<close>

fun live_resource :: "generation_storage \<Rightarrow> (backend_generation \<times> nat) option" where
  "live_resource (Live generation address) = Some (generation, address)"
| "live_resource (Tombstone _) = None"

definition storage_in_flight :: "u64 list \<Rightarrow> generation_storage \<Rightarrow> u64" where
  "storage_in_flight counters s = (case live_resource s of None \<Rightarrow> 0 | Some (_, address) \<Rightarrow> counters ! address)"

record registry_entry =
  re_storage :: generation_storage
  re_accept_until_ms :: u64
  re_winner_recovery_until_ms :: u64
  re_state :: admission_state

abbreviation entry_generation :: "registry_entry \<Rightarrow> backend_generation" where
  "entry_generation e \<equiv> storage_generation (re_storage e)"

abbreviation entry_zcash_parent :: "registry_entry \<Rightarrow> bytes" where
  "entry_zcash_parent e \<equiv> ti_zcash_previous_hash_le (bg_tips (entry_generation e))"

definition accepting :: "registry_entry \<Rightarrow> u64 \<Rightarrow> bool" where
  "accepting e now_ms \<longleftrightarrow>
     re_state e = Accepting \<and> live_resource (re_storage e) \<noteq> None \<and> now_ms < re_accept_until_ms e"

definition retained_at_watermark :: "registry_entry \<Rightarrow> u64 \<Rightarrow> bool" where
  "retained_at_watermark e now_ms \<longleftrightarrow>
     (re_state e = Accepting \<or> re_state e = Suspended) \<and> live_resource (re_storage e) \<noteq> None \<and>
     now_ms < re_accept_until_ms e"

type_synonym entries = "(job_id \<times> registry_entry) list"

record generation_registry =
  gr_config :: generation_registry_config
  gr_entries :: entries
  gr_current :: "job_id option"
  gr_recent :: "job_id list"
  gr_winner_recovery :: "job_id list"
  gr_watermark_current :: "job_id option"
  gr_watermark_recent :: "job_id list"
  gr_last_event_seq :: "u64 option"
  gr_last_delivery_anchor_ms :: "u64 option"
  gr_last_monotonic_ms :: "u64 option"
  gr_synchronized :: bool
  gr_counters :: "u64 list"

record prepared_snapshot =
  ps_entries :: entries
  ps_current :: "job_id option"
  ps_recent :: "job_id list"
  ps_counters :: "u64 list"

definition GenerationRegistry_new :: "generation_registry_config \<Rightarrow> generation_registry" where
  "GenerationRegistry_new config =
     \<lparr>gr_config = config, gr_entries = [], gr_current = None, gr_recent = [], gr_winner_recovery = [],
      gr_watermark_current = None, gr_watermark_recent = [], gr_last_event_seq = None,
      gr_last_delivery_anchor_ms = None, gr_last_monotonic_ms = None, gr_synchronized = False,
      gr_counters = []\<rparr>"

text \<open>\<open>entries.get(id).is_some_and(p)\<close> and \<open>option.filter(p)\<close>.\<close>

definition entry_is_some_and :: "entries \<Rightarrow> job_id \<Rightarrow> (registry_entry \<Rightarrow> bool) \<Rightarrow> bool" where
  "entry_is_some_and es i p = (case map_of es i of None \<Rightarrow> False | Some e \<Rightarrow> p e)"

definition option_filter :: "('a \<Rightarrow> bool) \<Rightarrow> 'a option \<Rightarrow> 'a option" where
  "option_filter p x = (case x of None \<Rightarrow> None | Some y \<Rightarrow> if p y then Some y else None)"

section \<open>Clock, expiry and suspension\<close>

definition deadline :: "u64 \<Rightarrow> u32 \<Rightarrow> (job_registry_error, u64) result" where
  "deadline anchor_ms duration_ms = ok_or (checked_add anchor_ms (ucast duration_ms)) DeadlineOverflow"

definition winner_recovery_deadline :: "u64 \<Rightarrow> (job_registry_error, u64) result" where
  "winner_recovery_deadline original_deadline_ms =
     ok_or (checked_add original_deadline_ms ZCASH_WINNER_RECOVERY_TAIL_MS) DeadlineOverflow"

definition suspend_entry :: "registry_entry \<Rightarrow> registry_entry" where
  "suspend_entry e = (if re_state e = Accepting then e\<lparr>re_state := Suspended\<rparr> else e)"

definition suspend :: "generation_registry \<Rightarrow> generation_registry" where
  "suspend r = r\<lparr>gr_entries := map_ran (\<lambda>_. suspend_entry) (gr_entries r), gr_current := None, gr_recent := [],
     gr_winner_recovery := [], gr_synchronized := False\<rparr>"

definition expire_entry :: "u64 \<Rightarrow> registry_entry \<Rightarrow> registry_entry" where
  "expire_entry now_ms e =
     (if (re_state e = Accepting \<or> re_state e = Suspended) \<and> re_accept_until_ms e \<le> now_ms
      then e\<lparr>re_state := Invalidated\<rparr> else e)"

definition expire_at :: "generation_registry \<Rightarrow> u64 \<Rightarrow> generation_registry" where
  "expire_at r now_ms =
     (let es = map_ran (\<lambda>_. expire_entry now_ms) (gr_entries r);
          admits = (\<lambda>i. entry_is_some_and es i (\<lambda>e. accepting e now_ms));
          retains = (\<lambda>i. entry_is_some_and es i (\<lambda>e. retained_at_watermark e now_ms))
      in r\<lparr>gr_entries := es, gr_current := option_filter admits (gr_current r),
           gr_recent := filter admits (gr_recent r),
           gr_watermark_current := option_filter retains (gr_watermark_current r),
           gr_watermark_recent := filter retains (gr_watermark_recent r)\<rparr>)"

definition check_clock :: "generation_registry \<Rightarrow> u64 \<Rightarrow> (job_registry_error, unit) result" where
  "check_clock r now_ms =
     (case gr_last_monotonic_ms r of
        Some previous \<Rightarrow> ensure (previous \<le> now_ms) RegistryClockMovedBackwards
      | None \<Rightarrow> Ok ())"

definition check_delivery_clock :: "generation_registry \<Rightarrow> u64 \<Rightarrow> (job_registry_error, unit) result" where
  "check_delivery_clock r anchor_ms =
     (case gr_last_delivery_anchor_ms r of
        Some previous \<Rightarrow> ensure (previous \<le> anchor_ms) RegistryClockMovedBackwards
      | None \<Rightarrow> Ok ())"

definition advance_clock :: "generation_registry \<Rightarrow> u64 \<Rightarrow> (job_registry_error, unit) result \<times> generation_registry" where
  "advance_clock r now_ms =
     (case check_clock r now_ms of
        Err e \<Rightarrow> (Err e, suspend r)
      | Ok _ \<Rightarrow> (Ok (), (expire_at r now_ms)\<lparr>gr_last_monotonic_ms := Some now_ms\<rparr>))"

section \<open>Queries\<close>

definition GenerationRegistry_admissible_job_ids ::
  "generation_registry \<Rightarrow> u64 \<Rightarrow> (job_registry_error, admissible_job_ids) result \<times> generation_registry" where
  "GenerationRegistry_admissible_job_ids r now_ms =
     (case advance_clock r now_ms of
        (Err e, r) \<Rightarrow> (Err e, r)
      | (Ok _, r) \<Rightarrow>
          if \<not> gr_synchronized r then (Err NotSynchronized, r)
          else (Ok \<lparr>aji_current = gr_current r, aji_recent = gr_recent r\<rparr>, r))"

definition GenerationRegistry_generation :: "generation_registry \<Rightarrow> job_id \<Rightarrow> backend_generation option" where
  "GenerationRegistry_generation r i = map_option entry_generation (map_of (gr_entries r) i)"

definition current_generation ::
  "generation_registry \<Rightarrow> u64 \<Rightarrow> (job_registry_error, backend_generation option) result \<times> generation_registry" where
  "current_generation r now_ms =
     (case advance_clock r now_ms of
        (Err e, r) \<Rightarrow> (Err e, r)
      | (Ok _, r) \<Rightarrow>
          (case gr_current r of
             None \<Rightarrow> (Ok None, r)
           | Some i \<Rightarrow>
               (Ok (map_option entry_generation
                  (option_filter (\<lambda>e. gr_synchronized r \<and> accepting e now_ms) (map_of (gr_entries r) i))), r)))"

definition GenerationRegistry_in_flight :: "generation_registry \<Rightarrow> job_id \<Rightarrow> u64 option" where
  "GenerationRegistry_in_flight r i =
     map_option (\<lambda>e. storage_in_flight (gr_counters r) (re_storage e)) (map_of (gr_entries r) i)"

section \<open>Winner recovery\<close>

definition remember_winner_recovery :: "generation_registry \<Rightarrow> job_id \<Rightarrow> generation_registry" where
  "remember_winner_recovery r i =
     (if i \<in> set (gr_winner_recovery r) then r
      else let kept = (if length (gr_winner_recovery r) = MAX_ZCASH_WINNER_RECOVERY_JOBS
                       then tl (gr_winner_recovery r) else gr_winner_recovery r)
           in r\<lparr>gr_winner_recovery := kept @ [i]\<rparr>)"

definition current_parent :: "generation_registry \<Rightarrow> u64 \<Rightarrow> bytes option" where
  "current_parent r now_ms =
     map_option entry_zcash_parent
       (option_filter (\<lambda>e. accepting e now_ms) (Option.bind (gr_current r) (map_of (gr_entries r))))"

definition prune_winner_recovery :: "generation_registry \<Rightarrow> u64 \<Rightarrow> generation_registry" where
  "prune_winner_recovery r now_ms =
     (let parent = current_parent r now_ms
      in r\<lparr>gr_winner_recovery := filter (\<lambda>i. entry_is_some_and (gr_entries r) i (\<lambda>e.
             re_state e \<noteq> Closed \<and> now_ms < re_winner_recovery_until_ms e \<and>
             (case parent of None \<Rightarrow> True | Some hash \<Rightarrow> entry_zcash_parent e = hash)))
           (gr_winner_recovery r)\<rparr>)"

definition winner_recovery_job_ids ::
  "generation_registry \<Rightarrow> u64 \<Rightarrow> (job_registry_error, job_id list) result \<times> generation_registry" where
  "winner_recovery_job_ids r now_ms =
     (case advance_clock r now_ms of
        (Err e, r) \<Rightarrow> (Err e, r)
      | (Ok _, r) \<Rightarrow>
          if \<not> gr_synchronized r then (Err NotSynchronized, r)
          else let r = prune_winner_recovery r now_ms in (Ok (gr_winner_recovery r), r))"

section \<open>Journal events\<close>

definition activate ::
  "generation_registry \<Rightarrow> job_descriptor \<Rightarrow> u64 \<Rightarrow> (job_registry_error, unit) result \<times> generation_registry" where
  "activate r descriptor anchor_ms =
     (case BackendGeneration_from_descriptor descriptor of
        Err e \<Rightarrow> (Err e, r)
      | Ok generation \<Rightarrow>
          (let i = bg_id generation;
               prior_current = option_filter
                 (\<lambda>prior. entry_is_some_and (gr_entries r) prior (\<lambda>e. accepting e anchor_ms)) (gr_current r)
           in if map_of (gr_entries r) i \<noteq> None then (Err (ReusedJobId i), r)
              else if prior_current \<noteq> None \<and> length (gr_recent r) = rc_maximum_recent (gr_config r) then
                (Err (RecentCapacityExceeded (rc_maximum_recent (gr_config r))), r)
              else if length (gr_entries r) = rc_maximum_generations (gr_config r) then
                (Err (GenerationCapacityExceeded (rc_maximum_generations (gr_config r))), r)
              else (case deadline anchor_ms (maximum_age_ms generation) of
                Err e \<Rightarrow> (Err e, r)
              | Ok accept_until_ms \<Rightarrow>
                  (let r = (case prior_current of None \<Rightarrow> r | Some prior \<Rightarrow> r\<lparr>gr_recent := prior # gr_recent r\<rparr>)
                   in case winner_recovery_deadline accept_until_ms of
                     Err e \<Rightarrow> (Err e, r)
                   | Ok winner_recovery_until_ms \<Rightarrow>
                       (let entry = \<lparr>re_storage = Live generation (length (gr_counters r)),
                              re_accept_until_ms = accept_until_ms,
                              re_winner_recovery_until_ms = winner_recovery_until_ms, re_state = Accepting\<rparr>;
                            r = r\<lparr>gr_entries := AList.update i entry (gr_entries r),
                                  gr_counters := gr_counters r @ [0], gr_current := Some i\<rparr>
                        in (Ok (), prune_winner_recovery (remember_winner_recovery r i) anchor_ms))))))"

text \<open>\<open>drop_current\<close> and \<open>drop_recent\<close> are the two statements that take a role from \<open>id\<close>:
  \<open>if self.current == Some(id) { self.current = None }\<close> and \<open>self.recent.retain(|recent| *recent != id)\<close>.\<close>

definition drop_current :: "job_id \<Rightarrow> generation_registry \<Rightarrow> generation_registry" where
  "drop_current i r = (if gr_current r = Some i then r\<lparr>gr_current := None\<rparr> else r)"

definition drop_recent :: "job_id \<Rightarrow> generation_registry \<Rightarrow> generation_registry" where
  "drop_recent i r = r\<lparr>gr_recent := filter (\<lambda>recent. recent \<noteq> i) (gr_recent r)\<rparr>"

definition set_entry :: "job_id \<Rightarrow> registry_entry \<Rightarrow> generation_registry \<Rightarrow> generation_registry" where
  "set_entry i e r = r\<lparr>gr_entries := AList.update i e (gr_entries r)\<rparr>"

text \<open>The end of \<open>invalidate_job\<close>, reached from both branches.\<close>

definition finish_invalidation :: "job_id \<Rightarrow> u64 \<Rightarrow> generation_registry \<Rightarrow> generation_registry" where
  "finish_invalidation i anchor_ms r =
     (let r = drop_current i r
      in if \<not> entry_is_some_and (gr_entries r) i (\<lambda>e. accepting e anchor_ms) then drop_recent i r else r)"

definition invalidate_job ::
  "generation_registry \<Rightarrow> job_id \<Rightarrow> job_invalidation_reason \<Rightarrow> u32 \<Rightarrow> u64 \<Rightarrow>
     (job_registry_error, unit) result \<times> generation_registry" where
  "invalidate_job r i reason accept_for_ms anchor_ms =
     (case map_of (gr_entries r) i of
        None \<Rightarrow> (Ok (), r)
      | Some entry \<Rightarrow>
          if re_state entry \<noteq> Accepting then (Ok (), drop_recent i (drop_current i r))
          else if reason = Superseded \<and> accept_for_ms \<noteq> 0 then
            (case deadline anchor_ms accept_for_ms of
               Err e \<Rightarrow> (Err e, r)
             | Ok proposed \<Rightarrow>
                 (let already_recent = (i \<in> set (gr_recent r))
                  in if \<not> already_recent \<and> length (gr_recent r) = rc_maximum_recent (gr_config r) then
                       (Err (RecentCapacityExceeded (rc_maximum_recent (gr_config r))), r)
                     else
                       (let until = min (re_accept_until_ms entry) proposed;
                            entry = entry\<lparr>re_accept_until_ms := until,
                              re_state := (if anchor_ms < until then Accepting else Invalidated)\<rparr>;
                            r = set_entry i entry r;
                            r = (if re_state entry = Accepting \<and> \<not> already_recent
                                 then r\<lparr>gr_recent := i # gr_recent r\<rparr> else r)
                        in (Ok (), finish_invalidation i anchor_ms r))))
          else (Ok (), finish_invalidation i anchor_ms (set_entry i (entry\<lparr>re_state := Invalidated\<rparr>) r)))"

definition close_generation :: "generation_registry \<Rightarrow> job_id \<Rightarrow> generation_registry" where
  "close_generation r i =
     (case map_of (gr_entries r) i of
        None \<Rightarrow> r
      | Some entry \<Rightarrow>
          (let r = drop_recent i (drop_current i (set_entry i (entry\<lparr>re_state := Closed\<rparr>) r))
           in r\<lparr>gr_winner_recovery := filter (\<lambda>retained. retained \<noteq> i) (gr_winner_recovery r)\<rparr>))"

definition dispatch_event ::
  "generation_registry \<Rightarrow> backend_event \<Rightarrow> u64 \<Rightarrow> (job_registry_error, unit) result \<times> generation_registry" where
  "dispatch_event r event anchor_ms =
     (case event of
        JobActivated _ job \<Rightarrow> activate r job anchor_ms
      | JobInvalidated _ jid reason accept_for_ms \<Rightarrow>
          (case JobId_new jid of
             Err e \<Rightarrow> (Err e, r)
           | Ok i \<Rightarrow>
               (let r = (if reason = ZcashTipChanged
                         then r\<lparr>gr_winner_recovery := filter (\<lambda>retained. retained \<noteq> i) (gr_winner_recovery r)\<rparr>
                         else r)
                in invalidate_job r i reason accept_for_ms anchor_ms))
      | GenerationClosed _ jid \<Rightarrow>
          (case JobId_new jid of Err e \<Rightarrow> (Err e, r) | Ok i \<Rightarrow> (Ok (), close_generation r i))
      | _ \<Rightarrow> (Ok (), r))"

text \<open>The checks of \<open>try_apply_event\<close> before it changes the registry.\<close>

definition check_event ::
  "(bytes \<Rightarrow> bytes) \<Rightarrow> generation_registry \<Rightarrow> backend_event \<Rightarrow> u64 \<Rightarrow> u64 \<Rightarrow> (job_registry_error, unit) result" where
  "check_event sha256 r event anchor_ms policy_now_ms =
     and_then (ensure (gr_synchronized r) NotSynchronized) (\<lambda>_.
     and_then (check_delivery_clock r anchor_ms) (\<lambda>_.
     and_then (check_clock r policy_now_ms) (\<lambda>_.
     and_then (ensure (anchor_ms \<le> policy_now_ms) RegistryClockMovedBackwards) (\<lambda>_.
     and_then (map_err (\<lambda>_. InvalidBackendEvent) (BackendEvent_validate sha256 event)) (\<lambda>_.
     and_then (ok_or (gr_last_event_seq r) NotSynchronized) (\<lambda>previous.
     and_then (ok_or (checked_add previous 1) EventSequenceExhausted) (\<lambda>expected.
     ensure (BackendEvent_event_seq event = expected)
       (EventSequenceGap expected (BackendEvent_event_seq event)))))))))"

definition effective_now :: "generation_registry \<Rightarrow> u64 \<Rightarrow> u64" where
  "effective_now r t = (case gr_last_monotonic_ms r of None \<Rightarrow> t | Some observed \<Rightarrow> max observed t)"

definition try_apply_event ::
  "(bytes \<Rightarrow> bytes) \<Rightarrow> generation_registry \<Rightarrow> backend_event \<Rightarrow> u64 \<Rightarrow> u64 \<Rightarrow>
     (job_registry_error, unit) result \<times> generation_registry" where
  "try_apply_event sha256 r event anchor_ms policy_now_ms =
     (let effective_now_ms = effective_now r policy_now_ms
      in case check_event sha256 r event anchor_ms policy_now_ms of
        Err e \<Rightarrow> (Err e, r)
      | Ok _ \<Rightarrow>
          (case dispatch_event (expire_at r effective_now_ms) event anchor_ms of
             (Err e, r) \<Rightarrow> (Err e, r)
           | (Ok _, r) \<Rightarrow>
               (let r = expire_at r effective_now_ms
                in (Ok (), r\<lparr>gr_last_event_seq := Some (BackendEvent_event_seq event),
                      gr_watermark_current := gr_current r, gr_watermark_recent := gr_recent r,
                      gr_last_delivery_anchor_ms := Some anchor_ms,
                      gr_last_monotonic_ms := Some effective_now_ms\<rparr>))))"

definition apply_event_at ::
  "(bytes \<Rightarrow> bytes) \<Rightarrow> generation_registry \<Rightarrow> backend_event \<Rightarrow> u64 \<Rightarrow> u64 \<Rightarrow>
     (job_registry_error, unit) result \<times> generation_registry" where
  "apply_event_at sha256 r event delivery_anchor_ms policy_now_ms =
     (case try_apply_event sha256 r event delivery_anchor_ms policy_now_ms of
        (Err e, r) \<Rightarrow> (Err e, suspend r)
      | (Ok u, r) \<Rightarrow> (Ok u, r))"

definition apply_event ::
  "(bytes \<Rightarrow> bytes) \<Rightarrow> generation_registry \<Rightarrow> backend_event \<Rightarrow> u64 \<Rightarrow>
     (job_registry_error, unit) result \<times> generation_registry" where
  "apply_event sha256 r event delivery_anchor_ms =
     apply_event_at sha256 r event delivery_anchor_ms (effective_now r delivery_anchor_ms)"

section \<open>Snapshots\<close>

text \<open>\<open>prepare_acceptable\<close> also returns the counters, extended when it creates a resource.\<close>

definition prepare_acceptable ::
  "generation_registry \<Rightarrow> u64 list \<Rightarrow> acceptable_job \<Rightarrow> u64 \<Rightarrow>
     (job_registry_error, (job_id \<times> registry_entry) \<times> u64 list) result" where
  "prepare_acceptable r counters acceptable anchor_ms =
     and_then (BackendGeneration_from_descriptor (aj_job acceptable)) (\<lambda>generation.
     let i = bg_id generation in
     if aj_accept_for_ms acceptable = 0 \<or> maximum_age_ms generation < aj_accept_for_ms acceptable then
       Err (InvalidRemainingLifetime i)
     else and_then (deadline anchor_ms (aj_accept_for_ms acceptable)) (\<lambda>proposed_deadline.
       case map_of (gr_entries r) i of
         Some old \<Rightarrow>
           if entry_generation old \<noteq> generation then Err (ConflictingJobId i)
           else if re_state old = Invalidated \<or> re_state old = Closed \<or> live_resource (re_storage old) = None then
             Err (ResurrectedJob i)
           else (let accept_until_ms = min (re_accept_until_ms old) proposed_deadline
                 in if accept_until_ms \<le> anchor_ms then Err (ResurrectedJob i)
                    else Ok ((i, \<lparr>re_storage = re_storage old, re_accept_until_ms = accept_until_ms,
                                re_winner_recovery_until_ms = re_winner_recovery_until_ms old,
                                re_state = Accepting\<rparr>), counters))
       | None \<Rightarrow>
           and_then (winner_recovery_deadline proposed_deadline) (\<lambda>winner_recovery_until_ms.
           Ok ((i, \<lparr>re_storage = Live generation (length counters), re_accept_until_ms = proposed_deadline,
                    re_winner_recovery_until_ms = winner_recovery_until_ms, re_state = Accepting\<rparr>),
               counters @ [0]))))"

text \<open>The loop shared by the current and the recent jobs, with \<open>seen\<close> the identifiers before.\<close>

fun prepare_jobs ::
  "generation_registry \<Rightarrow> u64 \<Rightarrow> job_id list \<Rightarrow> u64 list \<Rightarrow> acceptable_job list \<Rightarrow>
     (job_registry_error, entries \<times> u64 list) result" where
  "prepare_jobs r anchor_ms seen counters [] = Ok ([], counters)"
| "prepare_jobs r anchor_ms seen counters (job # jobs) =
     and_then (prepare_acceptable r counters job anchor_ms) (\<lambda>((i, entry), counters).
     if i \<in> set seen then Err (DuplicateSnapshotJob i)
     else and_then (prepare_jobs r anchor_ms (seen @ [i]) counters jobs) (\<lambda>(prepared, counters).
       Ok ((i, entry) # prepared, counters)))"

definition omit_entry :: "job_id list \<Rightarrow> job_id \<Rightarrow> registry_entry \<Rightarrow> registry_entry" where
  "omit_entry seen i e =
     (if i \<in> set seen then e
      else e\<lparr>re_state := (case re_state e of Closed \<Rightarrow> Closed | _ \<Rightarrow> Invalidated)\<rparr>)"

definition insert_prepared :: "entries \<Rightarrow> entries \<Rightarrow> entries" where
  "insert_prepared es prepared = foldl (\<lambda>es (i, entry). AList.update i entry es) es prepared"

definition prepare_snapshot ::
  "generation_registry \<Rightarrow> u64 \<Rightarrow> acceptable_job option \<Rightarrow> acceptable_job list \<Rightarrow> u64 \<Rightarrow>
     (job_registry_error, prepared_snapshot) result" where
  "prepare_snapshot r event_seq current recent anchor_ms =
     and_then (check_delivery_clock r anchor_ms) (\<lambda>_.
     and_then (case gr_last_event_seq r of
         None \<Rightarrow> Ok ()
       | Some previous \<Rightarrow> ensure (previous \<le> event_seq) (SnapshotSequenceRollback previous event_seq)) (\<lambda>_.
     if rc_maximum_recent (gr_config r) < length recent then
       Err (RecentCapacityExceeded (rc_maximum_recent (gr_config r)))
     else and_then (prepare_jobs r anchor_ms [] (gr_counters r) (case current of None \<Rightarrow> [] | Some job \<Rightarrow> [job]))
         (\<lambda>(prepared_current, counters).
     and_then (prepare_jobs r anchor_ms (map fst prepared_current) counters recent) (\<lambda>(prepared_recent, counters).
     let current_id = (case prepared_current of [] \<Rightarrow> None | (i, _) # _ \<Rightarrow> Some i);
         recent_ids = map fst prepared_recent;
         seen = map fst (prepared_current @ prepared_recent)
     in if gr_last_event_seq r = Some event_seq \<and>
           (current_id \<noteq> gr_watermark_current r \<or> recent_ids \<noteq> gr_watermark_recent r) then
       Err (SnapshotStateConflict event_seq)
     else let es = map_ran (omit_entry seen) (insert_prepared (gr_entries r) (prepared_current @ prepared_recent))
       in if rc_maximum_generations (gr_config r) < length es then
         Err (GenerationCapacityExceeded (rc_maximum_generations (gr_config r)))
       else Ok \<lparr>ps_entries = es, ps_current = current_id, ps_recent = recent_ids, ps_counters = counters\<rparr>))))"

definition apply_snapshot ::
  "generation_registry \<Rightarrow> u64 \<Rightarrow> acceptable_job option \<Rightarrow> acceptable_job list \<Rightarrow> u64 \<Rightarrow>
     (job_registry_error, unit) result \<times> generation_registry" where
  "apply_snapshot r event_seq current recent request_started_ms =
     (let effective_now_ms = effective_now r request_started_ms
      in case prepare_snapshot r event_seq current recent request_started_ms of
        Err e \<Rightarrow> (Err e, suspend r)
      | Ok prepared \<Rightarrow>
          (let r = r\<lparr>gr_entries := ps_entries prepared, gr_current := ps_current prepared,
                 gr_recent := ps_recent prepared, gr_counters := ps_counters prepared,
                 gr_watermark_current := ps_current prepared, gr_watermark_recent := ps_recent prepared,
                 gr_last_event_seq := Some event_seq, gr_last_delivery_anchor_ms := Some request_started_ms,
                 gr_last_monotonic_ms := Some effective_now_ms, gr_synchronized := True\<rparr>;
               r = expire_at r effective_now_ms;
               ids = (case gr_current r of None \<Rightarrow> [] | Some i \<Rightarrow> [i]) @ gr_recent r;
               r = foldl remember_winner_recovery r ids
           in (Ok (), prune_winner_recovery r effective_now_ms)))"

section \<open>Admissions\<close>

datatype admission_role = Ordinary | HistoricalZcashRecovery | PausedZcashCandidate

record generation_admission =
  ga_generation :: backend_generation
  ga_counter :: nat
  ga_role :: admission_role

definition GenerationAdmission_job_id :: "generation_admission \<Rightarrow> job_id" where
  "GenerationAdmission_job_id a = bg_id (ga_generation a)"

definition GenerationAdmission_is_winner_recovery :: "generation_admission \<Rightarrow> bool" where
  "GenerationAdmission_is_winner_recovery a \<longleftrightarrow> ga_role a \<noteq> Ordinary"

definition GenerationAdmission_is_paused_zcash_candidate :: "generation_admission \<Rightarrow> bool" where
  "GenerationAdmission_is_paused_zcash_candidate a \<longleftrightarrow> ga_role a = PausedZcashCandidate"

definition begin_admission ::
  "generation_registry \<Rightarrow> job_id \<Rightarrow> u64 \<Rightarrow>
     (job_registry_error, generation_admission) result \<times> generation_registry" where
  "begin_admission r i now_ms =
     (case advance_clock r now_ms of
        (Err e, r) \<Rightarrow> (Err e, r)
      | (Ok _, r) \<Rightarrow>
          if \<not> gr_synchronized r then (Err NotSynchronized, r)
          else (case map_of (gr_entries r) i of
            None \<Rightarrow> (Err (UnknownJob i), r)
          | Some entry \<Rightarrow>
              if \<not> accepting entry now_ms then (Err (RegistryStaleJob i), r)
              else (case live_resource (re_storage entry) of
                None \<Rightarrow> (Err (RegistryStaleJob i), r)
              | Some (generation, address) \<Rightarrow>
                  (case checked_add (gr_counters r ! address) 1 of
                     None \<Rightarrow> (Err (AdmissionCounterExhausted i), r)
                   | Some count \<Rightarrow>
                       (Ok \<lparr>ga_generation = generation, ga_counter = address, ga_role = Ordinary\<rparr>,
                        r\<lparr>gr_counters := (gr_counters r)[address := count]\<rparr>)))))"

text \<open>\<open>Drop for GenerationAdmission\<close>; \<open>fetch_sub\<close> wraps.\<close>

definition drop_admission :: "generation_registry \<Rightarrow> generation_admission \<Rightarrow> generation_registry" where
  "drop_admission r a =
     r\<lparr>gr_counters := (gr_counters r)[ga_counter a := gr_counters r ! ga_counter a - 1]\<rparr>"

definition begin_zcash_candidate ::
  "(bytes \<Rightarrow> bytes) \<Rightarrow> generation_registry \<Rightarrow> job_id \<Rightarrow> bytes \<Rightarrow> bytes \<Rightarrow> u64 \<Rightarrow> admission_role \<Rightarrow> bool \<Rightarrow>
     (job_registry_error, generation_admission) result \<times> generation_registry" where
  "begin_zcash_candidate sha256 r i nonce solution now_ms role allow_no_current =
     (case advance_clock r now_ms of
        (Err e, r) \<Rightarrow> (Err e, r)
      | (Ok _, r) \<Rightarrow>
          if \<not> gr_synchronized r then (Err NotSynchronized, r)
          else let r = prune_winner_recovery r now_ms;
                   current = option_filter (\<lambda>e. accepting e now_ms) (Option.bind (gr_current r) (map_of (gr_entries r)))
               in if \<not> allow_no_current \<and> current = None then (Err (RegistryStaleJob i), r)
                  else (case option_filter (\<lambda>entry.
                      i \<in> set (gr_winner_recovery r) \<and> now_ms < re_winner_recovery_until_ms entry \<and>
                      re_state entry \<noteq> Closed \<and>
                      (case current of None \<Rightarrow> True | Some c \<Rightarrow> entry_zcash_parent entry = entry_zcash_parent c))
                      (map_of (gr_entries r) i) of
                    None \<Rightarrow> (Err (RegistryStaleJob i), r)
                  | Some entry \<Rightarrow>
                      (let generation = entry_generation entry;
                           hash = canonical_parent_header_hash_le sha256
                             (jd_header_input (bg_descriptor generation)) nonce solution
                       in if rev (TargetLe_as_bytes (jd_zcash_target_le (bg_descriptor generation))) < rev hash
                          then (Err (RegistryStaleJob i), r)
                          else (Ok \<lparr>ga_generation = generation, ga_counter = length (gr_counters r), ga_role = role\<rparr>,
                                r\<lparr>gr_counters := gr_counters r @ [1]\<rparr>))))"

definition begin_zcash_winner_recovery where
  "begin_zcash_winner_recovery sha256 r i nonce solution now_ms =
     begin_zcash_candidate sha256 r i nonce solution now_ms HistoricalZcashRecovery False"

definition begin_historical_zcash_candidate_during_pause where
  "begin_historical_zcash_candidate_during_pause sha256 r i nonce solution now_ms =
     begin_zcash_candidate sha256 r i nonce solution now_ms HistoricalZcashRecovery True"

definition begin_paused_zcash_candidate where
  "begin_paused_zcash_candidate sha256 r i nonce solution now_ms =
     begin_zcash_candidate sha256 r i nonce solution now_ms PausedZcashCandidate True"

section \<open>Retirement\<close>

text \<open>The condition under which the loop of \<open>collect_retired\<close> replaces a live resource.\<close>

definition retires :: "generation_registry \<Rightarrow> job_id \<Rightarrow> registry_entry \<Rightarrow> bool" where
  "retires r i entry \<longleftrightarrow>
     \<not> (gr_current r = Some i \<or> i \<in> set (gr_recent r)) \<and> (re_state entry = Invalidated \<or> re_state entry = Closed) \<and>
     storage_in_flight (gr_counters r) (re_storage entry) = 0 \<and> live_resource (re_storage entry) \<noteq> None"

definition collect_retired ::
  "generation_registry \<Rightarrow> u64 \<Rightarrow> (job_registry_error, job_id list) result \<times> generation_registry" where
  "collect_retired r now_ms =
     (case advance_clock r now_ms of
        (Err e, r) \<Rightarrow> (Err e, r)
      | (Ok _, r) \<Rightarrow>
          (Ok (sort (map fst (filter (\<lambda>(i, entry). retires r i entry) (gr_entries r)))),
           r\<lparr>gr_entries := map_ran (\<lambda>i entry. if retires r i entry
               then entry\<lparr>re_storage := Tombstone (entry_generation entry)\<rparr> else entry) (gr_entries r)\<rparr>))"

end
