(* ===== verification/Registry_Invariants.thy ===== *)
theory Registry_Invariants
  imports Generation_Registry
begin

text \<open>
  The invariant of the generation registry, its lifecycle order and the accounting of its admission
  guards, for every operation of \<^theory_text>\<open>Generation_Registry\<close>. \<open>core_registry\<close> holds between the statements of
  an operation; \<open>unexpired\<close> adds what the last observed time rules out. \<open>registry_le\<close> is the order every
  operation moves along: entries are never forgotten, deadlines only shrink, terminal states stay.
\<close>

section \<open>Association lists\<close>

lemma map_fst_map_ran [simp]: "map fst (map_ran f xs) = map fst xs"
  by (induction xs) (auto simp: map_ran_def)

lemma map_ran_Nil [simp]: "map_ran f [] = []"
  by (simp add: map_ran_def)

lemma length_map_ran [simp]: "length (map_ran f xs) = length xs"
  by (simp add: map_ran_def)

lemma length_update_alist: "length (AList.update k v xs) = (if k \<in> fst ` set xs then length xs else Suc (length xs))"
  by (induction xs) auto

lemma entry_is_some_and_iff: "entry_is_some_and es i p \<longleftrightarrow> (\<exists>e. map_of es i = Some e \<and> p e)"
  by (auto simp: entry_is_some_and_def split: option.splits)

lemma option_filter_Some [simp]: "option_filter p x = Some y \<longleftrightarrow> x = Some y \<and> p y"
  by (auto simp: option_filter_def split: option.splits)

lemma option_filter_None: "option_filter p x = None \<longleftrightarrow> (\<forall>y. x = Some y \<longrightarrow> \<not> p y)"
  by (auto simp: option_filter_def split: option.splits)

section \<open>The invariant\<close>

definition option_list :: "'a option \<Rightarrow> 'a list" where
  "option_list x = (case x of None \<Rightarrow> [] | Some y \<Rightarrow> [y])"

lemma option_list_simps [simp]: "option_list None = []" "option_list (Some y) = [y]"
  by (simp_all add: option_list_def)

lemma set_option_list [simp]: "set (option_list x) = set_option x"
  by (cases x) simp_all

text \<open>The generations with an admission role, the current one first.\<close>

definition roles :: "generation_registry \<Rightarrow> job_id list" where
  "roles r = option_list (gr_current r) @ gr_recent r"

definition accepting_ids :: "entries \<Rightarrow> job_id set" where
  "accepting_ids es = {i. \<exists>e. map_of es i = Some e \<and> re_state e = Accepting}"

definition open_state :: "admission_state \<Rightarrow> bool" where
  "open_state s \<longleftrightarrow> s = Accepting \<or> s = Suspended"

lemma open_state_simps [simp]:
  "open_state Accepting" "open_state Suspended" "\<not> open_state Invalidated" "\<not> open_state Closed"
  by (simp_all add: open_state_def)

definition wf_entry :: "job_id \<Rightarrow> registry_entry \<Rightarrow> bool" where
  "wf_entry i e \<longleftrightarrow> bg_id (entry_generation e) = i \<and>
     BackendGeneration_from_descriptor (bg_descriptor (entry_generation e)) = Ok (entry_generation e) \<and>
     unat (re_accept_until_ms e) + 60000 \<le> unat (re_winner_recovery_until_ms e) \<and>
     (open_state (re_state e) \<longrightarrow> live_resource (re_storage e) \<noteq> None)"

definition wf_entries :: "generation_registry_config \<Rightarrow> entries \<Rightarrow> bool" where
  "wf_entries c es \<longleftrightarrow> distinct (map fst es) \<and> length es \<le> rc_maximum_generations c \<and>
     (\<forall>i e. map_of es i = Some e \<longrightarrow> wf_entry i e)"

definition wf_recovery :: "generation_registry \<Rightarrow> bool" where
  "wf_recovery r \<longleftrightarrow> distinct (gr_winner_recovery r) \<and> length (gr_winner_recovery r) \<le> MAX_ZCASH_WINNER_RECOVERY_JOBS \<and>
     set (gr_winner_recovery r) \<subseteq> dom (map_of (gr_entries r))"

definition wf_roles :: "generation_registry \<Rightarrow> bool" where
  "wf_roles r \<longleftrightarrow> distinct (roles r) \<and> length (gr_recent r) \<le> rc_maximum_recent (gr_config r) \<and>
     set (roles r) = accepting_ids (gr_entries r)"

definition wf_sync :: "generation_registry \<Rightarrow> bool" where
  "wf_sync r \<longleftrightarrow> (if gr_synchronized r then gr_last_event_seq r \<noteq> None
     else accepting_ids (gr_entries r) = {} \<and> gr_winner_recovery r = [])"

definition core_registry :: "generation_registry \<Rightarrow> bool" where
  "core_registry r \<longleftrightarrow> wf_entries (gr_config r) (gr_entries r) \<and> wf_recovery r \<and> wf_roles r \<and> wf_sync r"

definition unexpired :: "u64 \<Rightarrow> entries \<Rightarrow> bool" where
  "unexpired now es \<longleftrightarrow> (\<forall>i e. map_of es i = Some e \<and> open_state (re_state e) \<longrightarrow> now < re_accept_until_ms e)"

definition wf_registry :: "generation_registry \<Rightarrow> bool" where
  "wf_registry r \<longleftrightarrow> core_registry r \<and>
     (case gr_last_monotonic_ms r of None \<Rightarrow> gr_entries r = [] | Some m \<Rightarrow> unexpired m (gr_entries r))"

lemma unexpired_antimono: "unexpired n es \<Longrightarrow> m \<le> n \<Longrightarrow> unexpired m es"
  unfolding unexpired_def by (meson le_less_trans)

section \<open>The lifecycle order\<close>

definition entry_le :: "registry_entry \<Rightarrow> registry_entry \<Rightarrow> bool" where
  "entry_le e e' \<longleftrightarrow> entry_generation e' = entry_generation e \<and>
     re_accept_until_ms e' \<le> re_accept_until_ms e \<and>
     re_winner_recovery_until_ms e' = re_winner_recovery_until_ms e \<and>
     (\<not> open_state (re_state e) \<longrightarrow> \<not> open_state (re_state e')) \<and>
     (re_state e = Closed \<longrightarrow> re_state e' = Closed) \<and>
     (live_resource (re_storage e) = None \<longrightarrow> live_resource (re_storage e') = None)"

definition entries_le :: "entries \<Rightarrow> entries \<Rightarrow> bool" where
  "entries_le es es' \<longleftrightarrow> (\<forall>i e. map_of es i = Some e \<longrightarrow> (\<exists>e'. map_of es' i = Some e' \<and> entry_le e e'))"

definition option_le :: "u64 option \<Rightarrow> u64 option \<Rightarrow> bool" where
  "option_le x y \<longleftrightarrow> (case x of None \<Rightarrow> True | Some a \<Rightarrow> (case y of None \<Rightarrow> False | Some b \<Rightarrow> a \<le> b))"

definition registry_le :: "generation_registry \<Rightarrow> generation_registry \<Rightarrow> bool" where
  "registry_le r r' \<longleftrightarrow> gr_config r' = gr_config r \<and> entries_le (gr_entries r) (gr_entries r') \<and>
     option_le (gr_last_event_seq r) (gr_last_event_seq r') \<and>
     option_le (gr_last_monotonic_ms r) (gr_last_monotonic_ms r') \<and>
     option_le (gr_last_delivery_anchor_ms r) (gr_last_delivery_anchor_ms r')"

lemma entry_le_refl [simp]: "entry_le e e"
  by (simp add: entry_le_def)

lemma entry_le_trans: "entry_le a b \<Longrightarrow> entry_le b c \<Longrightarrow> entry_le a c"
  by (auto simp: entry_le_def)

lemma entries_le_refl [simp]: "entries_le es es"
  by (simp add: entries_le_def)

lemma entries_le_trans: "entries_le a b \<Longrightarrow> entries_le b c \<Longrightarrow> entries_le a c"
  unfolding entries_le_def by (meson entry_le_trans)

lemma option_le_refl [simp]: "option_le x x"
  by (cases x) (simp_all add: option_le_def)

lemma option_le_trans: "option_le x y \<Longrightarrow> option_le y z \<Longrightarrow> option_le x z"
  by (cases x; cases y; cases z) (auto simp: option_le_def)

lemma option_le_None [simp]: "option_le None x"
  by (simp add: option_le_def)

lemma option_le_Some [simp]: "option_le (Some a) (Some b) \<longleftrightarrow> a \<le> b"
  by (simp add: option_le_def)

lemma registry_le_refl [simp]: "registry_le r r"
  by (simp add: registry_le_def)

lemma registry_le_trans: "registry_le a b \<Longrightarrow> registry_le b c \<Longrightarrow> registry_le a c"
  unfolding registry_le_def by (metis entries_le_trans option_le_trans)

lemma entries_le_map_ran:
  "(\<And>i e. map_of es i = Some e \<Longrightarrow> entry_le e (f i e)) \<Longrightarrow> entries_le es (map_ran f es)"
  by (auto simp: entries_le_def map_ran_conv)

lemma entries_le_update:
  "(\<And>e. map_of es i = Some e \<Longrightarrow> entry_le e e') \<Longrightarrow> entries_le es (AList.update i e' es)"
  by (auto simp: entries_le_def update_conv)

lemma wf_entry_le:
  assumes "wf_entry i e" "entry_le e e'" "re_accept_until_ms e' \<le> re_accept_until_ms e"
    and "open_state (re_state e') \<Longrightarrow> live_resource (re_storage e') \<noteq> None"
  shows "wf_entry i e'"
  using assms by (auto simp: wf_entry_def entry_le_def word_le_nat_alt)

section \<open>Suspension and expiry\<close>

lemma suspend_entry_le [simp]: "entry_le e (suspend_entry e)"
  by (auto simp: entry_le_def suspend_entry_def)

lemma expire_entry_le [simp]: "entry_le e (expire_entry now e)"
  by (auto simp: entry_le_def expire_entry_def)

lemma entrywise_storage [simp]:
  "re_storage (suspend_entry e) = re_storage e" "re_storage (expire_entry now e) = re_storage e"
  "re_storage (omit_entry seen i e) = re_storage e"
  "re_accept_until_ms (suspend_entry e) = re_accept_until_ms e"
  "re_accept_until_ms (expire_entry now e) = re_accept_until_ms e"
  by (simp_all add: suspend_entry_def expire_entry_def omit_entry_def)

lemma suspend_state [simp]: "re_state (suspend_entry e) \<noteq> Accepting"
  by (simp add: suspend_entry_def)

lemma suspend_open [simp]: "open_state (re_state (suspend_entry e)) = open_state (re_state e)"
  by (simp add: suspend_entry_def)

lemma expire_open [simp]:
  "open_state (re_state (expire_entry now e)) \<longleftrightarrow> open_state (re_state e) \<and> now < re_accept_until_ms e"
  by (auto simp: expire_entry_def open_state_def)

lemma expire_accepting [simp]:
  "re_state (expire_entry now e) = Accepting \<longleftrightarrow> re_state e = Accepting \<and> now < re_accept_until_ms e"
  by (auto simp: expire_entry_def)

lemma wf_entries_map_ran:
  assumes "wf_entries c es" "\<And>i e. map_of es i = Some e \<Longrightarrow> wf_entry i e \<Longrightarrow> wf_entry i (f i e)"
  shows "wf_entries c (map_ran f es)"
  using assms by (auto simp: wf_entries_def map_ran_conv)

lemma wf_entry_suspend: "wf_entry i e \<Longrightarrow> wf_entry i (suspend_entry e)"
  by (rule wf_entry_le) (auto simp: wf_entry_def)

lemma wf_entry_expire: "wf_entry i e \<Longrightarrow> wf_entry i (expire_entry now e)"
  by (rule wf_entry_le) (auto simp: wf_entry_def)

lemma accepting_ids_suspend [simp]: "accepting_ids (map_ran (\<lambda>_. suspend_entry) es) = {}"
  by (auto simp: accepting_ids_def map_ran_conv)

lemma suspend_core: "wf_entries (gr_config r) (gr_entries r) \<Longrightarrow> core_registry (suspend r)"
  by (auto simp: core_registry_def suspend_def wf_recovery_def wf_roles_def wf_sync_def roles_def
      intro: wf_entries_map_ran wf_entry_suspend)

lemma suspend_unexpired: "unexpired now es \<Longrightarrow> unexpired now (map_ran (\<lambda>_. suspend_entry) es)"
  by (auto simp: unexpired_def map_ran_conv)

lemma suspend_keeps [simp]:
  "gr_config (suspend r) = gr_config r" "gr_entries (suspend r) = map_ran (\<lambda>_. suspend_entry) (gr_entries r)"
  "gr_last_event_seq (suspend r) = gr_last_event_seq r" "gr_counters (suspend r) = gr_counters r"
  "gr_last_delivery_anchor_ms (suspend r) = gr_last_delivery_anchor_ms r"
  "gr_last_monotonic_ms (suspend r) = gr_last_monotonic_ms r" "\<not> gr_synchronized (suspend r)"
  "gr_current (suspend r) = None" "gr_recent (suspend r) = []" "gr_winner_recovery (suspend r) = []"
  by (simp_all add: suspend_def)

lemma suspend_wf: "wf_registry r \<Longrightarrow> wf_registry (suspend r)"
  unfolding wf_registry_def
  by (cases "gr_last_monotonic_ms r")
    (auto simp: core_registry_def [of r] intro: suspend_core suspend_unexpired)

lemma suspend_le: "registry_le r (suspend r)"
  by (auto simp: registry_le_def suspend_def intro: entries_le_map_ran)

lemma expire_entries [simp]: "gr_entries (expire_at r now) = map_ran (\<lambda>_. expire_entry now) (gr_entries r)"
  by (simp add: expire_at_def Let_def)

lemma expire_keeps [simp]:
  "gr_config (expire_at r now) = gr_config r" "gr_winner_recovery (expire_at r now) = gr_winner_recovery r"
  "gr_last_event_seq (expire_at r now) = gr_last_event_seq r"
  "gr_last_delivery_anchor_ms (expire_at r now) = gr_last_delivery_anchor_ms r"
  "gr_last_monotonic_ms (expire_at r now) = gr_last_monotonic_ms r"
  "gr_synchronized (expire_at r now) = gr_synchronized r" "gr_counters (expire_at r now) = gr_counters r"
  by (simp_all add: expire_at_def Let_def)

lemma expire_unexpired: "unexpired now (map_ran (\<lambda>_. expire_entry now) es)"
  by (auto simp: unexpired_def map_ran_conv)

text \<open>Which generations still have a role after expiry.\<close>

lemma expire_admits:
  assumes "wf_entries c (gr_entries r)"
  shows "entry_is_some_and (map_ran (\<lambda>_. expire_entry now) (gr_entries r)) i (\<lambda>e. accepting e now) \<longleftrightarrow>
    i \<in> accepting_ids (map_ran (\<lambda>_. expire_entry now) (gr_entries r))"
proof -
  have "live_resource (re_storage e) \<noteq> None" if "map_of (gr_entries r) i = Some e" "re_state e = Accepting" for e
    using assms that by (auto simp: wf_entries_def wf_entry_def open_state_def)
  then show ?thesis
    by (auto simp: entry_is_some_and_iff accepting_ids_def accepting_def map_ran_conv)
qed

lemma accepting_ids_expire: "accepting_ids (map_ran (\<lambda>_. expire_entry now) es) \<subseteq> accepting_ids es"
  by (auto simp: accepting_ids_def map_ran_conv)

lemma option_list_filter: "option_list (option_filter p x) = filter p (option_list x)"
  by (cases x) (simp_all add: option_filter_def)

lemma roles_expire:
  assumes "wf_entries c (gr_entries r)"
  shows "roles (expire_at r now) =
    filter (\<lambda>i. i \<in> accepting_ids (gr_entries (expire_at r now))) (roles r)"
  by (simp add: roles_def expire_at_def Let_def expire_admits [OF assms] option_list_filter)

lemma recent_expire: "wf_entries c (gr_entries r) \<Longrightarrow>
    gr_recent (expire_at r now) = filter (\<lambda>i. i \<in> accepting_ids (gr_entries (expire_at r now))) (gr_recent r)"
  by (simp add: expire_at_def Let_def expire_admits)

lemma expire_core: "core_registry r \<Longrightarrow> core_registry (expire_at r now)"
proof -
  assume core: "core_registry r"
  then have es: "wf_entries (gr_config r) (gr_entries r)" by (simp add: core_registry_def)
  have "length (filter p (gr_recent r)) \<le> rc_maximum_recent (gr_config r)" for p
    using core by (meson core_registry_def wf_roles_def le_trans length_filter_le)
  then have "wf_roles (expire_at r now)"
    using core accepting_ids_expire [of now "gr_entries r"]
    by (auto simp: wf_roles_def core_registry_def roles_expire [OF es] recent_expire [OF es])
  with core show ?thesis
    using accepting_ids_expire [of now "gr_entries r"]
    by (auto simp: core_registry_def wf_recovery_def wf_sync_def dom_map_ran map_ran_conv
        intro: wf_entries_map_ran wf_entry_expire)
qed

lemma expire_entries_le: "entries_le es (map_ran (\<lambda>_. expire_entry now) es)"
  by (rule entries_le_map_ran) simp

lemma wf_entries_expire: "wf_entries c es \<Longrightarrow> wf_entries c (map_ran (\<lambda>_. expire_entry now) es)"
  by (rule wf_entries_map_ran) (simp_all add: wf_entry_expire)

lemma expire_le: "registry_le r (expire_at r now)"
  by (simp add: registry_le_def expire_entries_le)

section \<open>The clock\<close>

lemma core_clock [simp]:
  "core_registry (r\<lparr>gr_last_monotonic_ms := t\<rparr>) = core_registry r"
  "core_registry (r\<lparr>gr_last_delivery_anchor_ms := t\<rparr>) = core_registry r"
  "core_registry (r\<lparr>gr_watermark_current := c\<rparr>) = core_registry r"
  "core_registry (r\<lparr>gr_watermark_recent := rs\<rparr>) = core_registry r"
  "core_registry (r\<lparr>gr_counters := cs\<rparr>) = core_registry r"
  by (simp_all add: core_registry_def wf_recovery_def wf_roles_def wf_sync_def roles_def)

lemma core_event_seq: "core_registry r \<Longrightarrow> core_registry (r\<lparr>gr_last_event_seq := Some q\<rparr>)"
  by (simp add: core_registry_def wf_recovery_def wf_roles_def wf_sync_def roles_def)

lemma check_clock_Ok:
  "check_clock r now = Ok u \<longleftrightarrow> option_le (gr_last_monotonic_ms r) (Some now)"
  by (cases "gr_last_monotonic_ms r") (simp_all add: check_clock_def)

lemma check_delivery_clock_Ok:
  "check_delivery_clock r now = Ok u \<longleftrightarrow> option_le (gr_last_delivery_anchor_ms r) (Some now)"
  by (cases "gr_last_delivery_anchor_ms r") (simp_all add: check_delivery_clock_def)

lemma is_ok_clock [simp]:
  "is_ok (check_clock r now) = option_le (gr_last_monotonic_ms r) (Some now)"
  "is_ok (check_delivery_clock r now) = option_le (gr_last_delivery_anchor_ms r) (Some now)"
  by (simp_all add: check_clock_def check_delivery_clock_def option_le_def split: option.splits)

lemma check_clock_eq:
  "check_clock r now =
     (if option_le (gr_last_monotonic_ms r) (Some now) then Ok () else Err RegistryClockMovedBackwards)"
  by (cases "gr_last_monotonic_ms r") (simp_all add: check_clock_def ensure_def)

lemma advance_clock_Ok:
  "advance_clock r now = (Ok u, r') \<longleftrightarrow> option_le (gr_last_monotonic_ms r) (Some now) \<and>
     r' = (expire_at r now)\<lparr>gr_last_monotonic_ms := Some now\<rparr>"
  by (auto simp: advance_clock_def check_clock_eq)

lemma advance_clock_Err:
  "advance_clock r now = (Err e, r') \<longleftrightarrow> \<not> option_le (gr_last_monotonic_ms r) (Some now) \<and>
     e = RegistryClockMovedBackwards \<and> r' = suspend r"
  by (auto simp: advance_clock_def check_clock_eq)

lemma clock_wf: "core_registry r \<Longrightarrow> wf_registry ((expire_at r now)\<lparr>gr_last_monotonic_ms := Some now\<rparr>)"
  by (simp add: wf_registry_def expire_core expire_unexpired)

lemma clock_le:
  "option_le (gr_last_monotonic_ms r) (Some now) \<Longrightarrow>
     registry_le r ((expire_at r now)\<lparr>gr_last_monotonic_ms := Some now\<rparr>)"
  using expire_le [of r now] by (simp add: registry_le_def)

lemma advance_clock_wf: "advance_clock r now = (x, r') \<Longrightarrow> wf_registry r \<Longrightarrow> wf_registry r'"
  by (cases x) (auto simp: advance_clock_Ok advance_clock_Err suspend_wf intro: clock_wf simp: wf_registry_def [of r])

lemma advance_clock_le: "advance_clock r now = (x, r') \<Longrightarrow> registry_le r r'"
  by (cases x) (auto simp: advance_clock_Ok advance_clock_Err suspend_le intro: clock_le)

lemma effective_now_ge: "t \<le> effective_now r t" "option_le (gr_last_monotonic_ms r) (Some (effective_now r t))"
  by (auto simp: effective_now_def option_le_def split: option.splits)

section \<open>Winner recovery\<close>

lemma remember_keeps [simp]:
  "gr_config (remember_winner_recovery r i) = gr_config r" "gr_entries (remember_winner_recovery r i) = gr_entries r"
  "gr_current (remember_winner_recovery r i) = gr_current r" "gr_recent (remember_winner_recovery r i) = gr_recent r"
  "gr_last_event_seq (remember_winner_recovery r i) = gr_last_event_seq r"
  "gr_last_delivery_anchor_ms (remember_winner_recovery r i) = gr_last_delivery_anchor_ms r"
  "gr_last_monotonic_ms (remember_winner_recovery r i) = gr_last_monotonic_ms r"
  "gr_synchronized (remember_winner_recovery r i) = gr_synchronized r"
  "gr_counters (remember_winner_recovery r i) = gr_counters r"
  by (simp_all add: remember_winner_recovery_def Let_def)

lemma prune_keeps [simp]:
  "gr_config (prune_winner_recovery r now) = gr_config r" "gr_entries (prune_winner_recovery r now) = gr_entries r"
  "gr_current (prune_winner_recovery r now) = gr_current r" "gr_recent (prune_winner_recovery r now) = gr_recent r"
  "gr_last_event_seq (prune_winner_recovery r now) = gr_last_event_seq r"
  "gr_last_delivery_anchor_ms (prune_winner_recovery r now) = gr_last_delivery_anchor_ms r"
  "gr_last_monotonic_ms (prune_winner_recovery r now) = gr_last_monotonic_ms r"
  "gr_synchronized (prune_winner_recovery r now) = gr_synchronized r"
  "gr_counters (prune_winner_recovery r now) = gr_counters r"
  by (simp_all add: prune_winner_recovery_def Let_def)

lemma prune_subset: "set (gr_winner_recovery (prune_winner_recovery r now)) \<subseteq> set (gr_winner_recovery r)"
  by (auto simp: prune_winner_recovery_def Let_def)

text \<open>Registries that differ in their recovery list only.\<close>

lemma core_recovery:
  assumes "core_registry r" "gr_config r' = gr_config r" "gr_entries r' = gr_entries r"
    and "gr_current r' = gr_current r" "gr_recent r' = gr_recent r" "gr_last_event_seq r' = gr_last_event_seq r"
    and "gr_synchronized r' = gr_synchronized r" "wf_recovery r'"
    and "\<not> gr_synchronized r \<Longrightarrow> gr_winner_recovery r' = []"
  shows "core_registry r'"
  using assms by (simp add: core_registry_def wf_roles_def wf_sync_def roles_def)

lemma remember_recovery:
  assumes "wf_recovery r" "i \<in> dom (map_of (gr_entries r))"
  shows "wf_recovery (remember_winner_recovery r i)"
proof (cases "i \<in> set (gr_winner_recovery r)")
  case False
  let ?w = "gr_winner_recovery r"
  have "distinct (tl ?w)" "set (tl ?w) \<subseteq> set ?w"
    using assms(1) by (cases ?w; simp add: wf_recovery_def; blast)+
  moreover have "length (tl ?w) + 1 \<le> MAX_ZCASH_WINNER_RECOVERY_JOBS" "length ?w \<noteq> MAX_ZCASH_WINNER_RECOVERY_JOBS \<longrightarrow>
      length ?w + 1 \<le> MAX_ZCASH_WINNER_RECOVERY_JOBS"
    using assms(1) by (auto simp: wf_recovery_def MAX_ZCASH_WINNER_RECOVERY_JOBS_def)
  ultimately show ?thesis
    using False assms unfolding wf_recovery_def remember_winner_recovery_def Let_def by auto
qed (simp add: remember_winner_recovery_def assms(1))

lemma prune_recovery: "wf_recovery r \<Longrightarrow> wf_recovery (prune_winner_recovery r now)"
  unfolding wf_recovery_def prune_winner_recovery_def Let_def by (auto intro: le_trans [OF length_filter_le])

lemma remember_core:
  "core_registry r \<Longrightarrow> gr_synchronized r \<Longrightarrow> i \<in> dom (map_of (gr_entries r)) \<Longrightarrow>
     core_registry (remember_winner_recovery r i)"
  by (rule core_recovery [of r]) (simp_all add: remember_recovery core_registry_def)

lemma prune_core: "core_registry r \<Longrightarrow> core_registry (prune_winner_recovery r now)"
  by (rule core_recovery [of r]) (use prune_subset [of r now] in \<open>auto simp: prune_recovery core_registry_def wf_sync_def\<close>)

lemma filter_recovery_core:
  "core_registry r \<Longrightarrow> core_registry (r\<lparr>gr_winner_recovery := filter p (gr_winner_recovery r)\<rparr>)"
  by (rule core_recovery [of r])
    (auto simp: wf_recovery_def core_registry_def wf_sync_def intro: le_trans [OF length_filter_le])

section \<open>Activation\<close>

lemma accepting_ids_update:
  "accepting_ids (AList.update i e es) =
     (if re_state e = Accepting then insert i (accepting_ids es) else accepting_ids es - {i})"
  by (auto simp: accepting_ids_def update_conv)

lemma wf_entries_update:
  assumes "wf_entries c es" "wf_entry i e" "map_of es i = None \<Longrightarrow> length es < rc_maximum_generations c"
  shows "wf_entries c (AList.update i e es)"
proof -
  have "i \<notin> fst ` set es \<longleftrightarrow> map_of es i = None" by (simp add: map_of_eq_None_iff)
  then show ?thesis
    using assms unfolding wf_entries_def
    by (auto simp: length_update_alist distinct_update update_conv Suc_le_eq)
qed

lemma deadline_Ok: "deadline a d = Ok t \<longleftrightarrow> unat t = unat a + unat d"
  by (simp add: deadline_def checked_add_Some unat_ucast_up)

lemma winner_recovery_deadline_Ok: "winner_recovery_deadline t = Ok w \<longleftrightarrow> unat w = unat t + 60000"
  by (simp add: winner_recovery_deadline_def checked_add_Some ZCASH_WINNER_RECOVERY_TAIL_MS_def)

lemma from_descriptor_descriptor: "BackendGeneration_from_descriptor d = Ok g \<Longrightarrow> bg_descriptor g = d"
  by (auto simp: BackendGeneration_from_descriptor_def Let_def)

lemma from_descriptor_fields:
  "BackendGeneration_from_descriptor d = Ok g \<Longrightarrow> is_ok (JobDescriptor_validate d) \<and> bg_id g = JobId (jd_job_id d)"
  by (auto simp: BackendGeneration_from_descriptor_def Let_def JobId_new_def unit_result_is_ok split: if_splits)

lemma wf_entry_new:
  assumes "BackendGeneration_from_descriptor d = Ok g" "winner_recovery_deadline t = Ok w"
  shows "wf_entry (bg_id g) \<lparr>re_storage = Live g a, re_accept_until_ms = t, re_winner_recovery_until_ms = w,
    re_state = Accepting\<rparr>"
  using assms from_descriptor_descriptor [OF assms(1)]
  by (simp add: wf_entry_def winner_recovery_deadline_Ok)

text \<open>The registry with a new current generation, before the recovery list is updated.\<close>

definition activated :: "generation_registry \<Rightarrow> backend_generation \<Rightarrow> u64 \<Rightarrow> u64 \<Rightarrow> job_id option \<Rightarrow> generation_registry" where
  "activated r g t w prior = r\<lparr>gr_recent := option_list prior @ gr_recent r,
     gr_entries := AList.update (bg_id g) \<lparr>re_storage = Live g (length (gr_counters r)), re_accept_until_ms = t,
       re_winner_recovery_until_ms = w, re_state = Accepting\<rparr> (gr_entries r),
     gr_counters := gr_counters r @ [0], gr_current := Some (bg_id g)\<rparr>"

definition accepting_current :: "generation_registry \<Rightarrow> u64 \<Rightarrow> job_id option" where
  "accepting_current r now =
     option_filter (\<lambda>prior. entry_is_some_and (gr_entries r) prior (\<lambda>e. accepting e now)) (gr_current r)"

lemma activate_Ok:
  assumes "activate r d anchor = (Ok u, r')"
  obtains g t w where "BackendGeneration_from_descriptor d = Ok g" "map_of (gr_entries r) (bg_id g) = None"
    "deadline anchor (maximum_age_ms g) = Ok t" "winner_recovery_deadline t = Ok w"
    "accepting_current r anchor \<noteq> None \<Longrightarrow> length (gr_recent r) \<noteq> rc_maximum_recent (gr_config r)"
    "length (gr_entries r) \<noteq> rc_maximum_generations (gr_config r)"
    "r' = prune_winner_recovery (remember_winner_recovery
       (activated r g t w (accepting_current r anchor)) (bg_id g)) anchor"
proof -
  from assms obtain g where g: "BackendGeneration_from_descriptor d = Ok g"
    by (auto simp: activate_def split: result.splits)
  note act = assms [unfolded activate_def g result.case Let_def accepting_current_def [symmetric]]
  from act obtain t w where t: "deadline anchor (maximum_age_ms g) = Ok t" "winner_recovery_deadline t = Ok w"
    by (auto split: if_splits result.splits option.splits)
  with act show thesis
    by (intro that [OF g _ t]; cases "accepting_current r anchor") (auto simp: activated_def split: if_splits)
qed

lemma activate_Err:
  assumes "activate r d anchor = (Err e, r')"
  shows "\<exists>recent. r' = r\<lparr>gr_recent := recent\<rparr>"
proof -
  have "\<exists>recent. r = r\<lparr>gr_recent := recent\<rparr>" by (rule exI [of _ "gr_recent r"]) simp
  then show ?thesis
    using assms by (auto simp: activate_def Let_def split: result.splits option.splits if_splits)
qed

lemma accepting_current_eq:
  assumes "core_registry r" "unexpired now (gr_entries r)" "anchor \<le> now"
  shows "accepting_current r anchor = gr_current r"
proof (cases "gr_current r")
  case (Some i)
  then have "i \<in> accepting_ids (gr_entries r)" using assms(1) by (auto simp: core_registry_def wf_roles_def roles_def)
  then obtain e where e: "map_of (gr_entries r) i = Some e" "re_state e = Accepting" by (auto simp: accepting_ids_def)
  with assms have "live_resource (re_storage e) \<noteq> None" "now < re_accept_until_ms e"
    by (auto simp: core_registry_def wf_entries_def wf_entry_def unexpired_def)
  with e assms(3) have "entry_is_some_and (gr_entries r) i (\<lambda>e. accepting e anchor)"
    by (auto simp: entry_is_some_and_iff accepting_def)
  then show ?thesis by (simp add: accepting_current_def option_filter_def Some)
qed (simp add: accepting_current_def option_filter_def)

lemma activated_core:
  assumes core: "core_registry r" and sync: "gr_synchronized r"
    and new: "map_of (gr_entries r) (bg_id g) = None" "length (gr_entries r) \<noteq> rc_maximum_generations (gr_config r)"
    and room: "gr_current r \<noteq> None \<Longrightarrow> length (gr_recent r) \<noteq> rc_maximum_recent (gr_config r)"
    and g: "BackendGeneration_from_descriptor d = Ok g" "winner_recovery_deadline t = Ok w"
  shows "core_registry (activated r g t w (gr_current r))"
proof -
  have "wf_entries (gr_config r) (gr_entries r)" "length (gr_entries r) \<le> rc_maximum_generations (gr_config r)"
    using core by (simp_all add: core_registry_def wf_entries_def)
  then have "wf_entries (gr_config r) (gr_entries (activated r g t w (gr_current r)))"
    unfolding activated_def using new wf_entry_new [OF g] by (simp add: wf_entries_update)
  moreover have "wf_roles (activated r g t w (gr_current r))"
    using core room new by (cases "gr_current r")
      (auto simp: core_registry_def wf_roles_def roles_def activated_def accepting_ids_update, auto simp: accepting_ids_def)
  moreover have "wf_recovery (activated r g t w (gr_current r))" "wf_sync (activated r g t w (gr_current r))"
    using core sync by (auto simp: core_registry_def wf_recovery_def wf_sync_def activated_def update_conv)
  ultimately show ?thesis by (simp add: core_registry_def activated_def)
qed

lemma activate_core:
  assumes "activate r d anchor = (Ok u, r')" "core_registry r" "gr_synchronized r"
    and "unexpired now (gr_entries r)" "anchor \<le> now"
  shows "core_registry r'"
proof -
  note prior = accepting_current_eq [OF assms(2,4,5)]
  from assms(1) obtain g t w where r': "r' = prune_winner_recovery (remember_winner_recovery
       (activated r g t w (gr_current r)) (bg_id g)) anchor"
    and a: "core_registry (activated r g t w (gr_current r))"
    by (rule activate_Ok) (use activated_core [OF assms(2,3)] prior in auto)
  moreover have "bg_id g \<in> dom (map_of (gr_entries (activated r g t w (gr_current r))))"
    "gr_synchronized (activated r g t w (gr_current r))"
    using assms(3) by (simp_all add: activated_def update_conv dom_def)
  ultimately show ?thesis by (simp add: prune_core remember_core)
qed

section \<open>Invalidation and closure\<close>

lemma update_same: "map_of es i = Some e \<Longrightarrow> AList.update i e es = es"
  by (induction es) (auto split: if_splits)

lemmas role_defs = drop_current_def drop_recent_def set_entry_def

lemma drop_keeps [simp]:
  "gr_config (drop_current i r) = gr_config r" "gr_config (drop_recent i r) = gr_config r"
  "gr_entries (drop_current i r) = gr_entries r" "gr_entries (drop_recent i r) = gr_entries r"
  "gr_last_event_seq (drop_current i r) = gr_last_event_seq r" "gr_last_event_seq (drop_recent i r) = gr_last_event_seq r"
  "gr_last_delivery_anchor_ms (drop_current i r) = gr_last_delivery_anchor_ms r"
  "gr_last_delivery_anchor_ms (drop_recent i r) = gr_last_delivery_anchor_ms r"
  "gr_last_monotonic_ms (drop_current i r) = gr_last_monotonic_ms r"
  "gr_last_monotonic_ms (drop_recent i r) = gr_last_monotonic_ms r"
  "gr_synchronized (drop_current i r) = gr_synchronized r" "gr_synchronized (drop_recent i r) = gr_synchronized r"
  "gr_counters (drop_current i r) = gr_counters r" "gr_counters (drop_recent i r) = gr_counters r"
  "gr_winner_recovery (drop_current i r) = gr_winner_recovery r" "gr_winner_recovery (drop_recent i r) = gr_winner_recovery r"
  by (simp_all add: role_defs)

lemma set_entry_keeps [simp]:
  "gr_config (set_entry i e r) = gr_config r" "gr_entries (set_entry i e r) = AList.update i e (gr_entries r)"
  "gr_current (set_entry i e r) = gr_current r" "gr_recent (set_entry i e r) = gr_recent r"
  "gr_last_event_seq (set_entry i e r) = gr_last_event_seq r" "gr_counters (set_entry i e r) = gr_counters r"
  "gr_last_delivery_anchor_ms (set_entry i e r) = gr_last_delivery_anchor_ms r"
  "gr_last_monotonic_ms (set_entry i e r) = gr_last_monotonic_ms r"
  "gr_synchronized (set_entry i e r) = gr_synchronized r"
  "gr_winner_recovery (set_entry i e r) = gr_winner_recovery r"
  by (simp_all add: role_defs)

lemma roles_drop: "roles (drop_recent i (drop_current i r)) = filter (\<lambda>j. j \<noteq> i) (roles r)"
  by (cases "gr_current r") (auto simp: roles_def role_defs)

lemma recent_drop [simp]: "gr_recent (drop_recent i (drop_current i r)) = filter (\<lambda>j. j \<noteq> i) (gr_recent r)"
  by (simp add: role_defs)

text \<open>Making a generation terminal and taking its roles away keeps the invariant.\<close>

lemma retire_core:
  assumes core: "core_registry r" and e: "map_of (gr_entries r) i = Some e" "wf_entry i e'" "re_state e' \<noteq> Accepting"
  shows "core_registry (drop_recent i (drop_current i (set_entry i e' r)))" (is "core_registry ?r")
proof -
  have "length (filter (\<lambda>j. j \<noteq> i) (gr_recent r)) \<le> rc_maximum_recent (gr_config r)"
    using core by (meson core_registry_def wf_roles_def le_trans length_filter_le)
  moreover have "roles (set_entry i e' r) = roles r" by (simp add: roles_def)
  ultimately have "wf_roles ?r"
    using core e by (auto simp: core_registry_def wf_roles_def roles_drop accepting_ids_update)
  moreover have "wf_entries (gr_config r) (gr_entries ?r)"
    using core e by (auto simp: core_registry_def intro: wf_entries_update)
  moreover have "wf_recovery ?r" "wf_sync ?r"
    using core e by (auto simp: core_registry_def wf_recovery_def wf_sync_def update_conv accepting_ids_update)
  ultimately show ?thesis by (simp add: core_registry_def)
qed

lemma wf_entry_state: "wf_entry i e \<Longrightarrow> \<not> open_state s \<Longrightarrow> wf_entry i (e\<lparr>re_state := s\<rparr>)"
  by (simp add: wf_entry_def)

lemma close_core: "core_registry r \<Longrightarrow> core_registry (close_generation r i)"
proof (cases "map_of (gr_entries r) i")
  case (Some e)
  assume core: "core_registry r"
  with Some have "wf_entry i (e\<lparr>re_state := Closed\<rparr>)"
    by (simp add: core_registry_def wf_entries_def wf_entry_state)
  with core Some have "core_registry (drop_recent i (drop_current i (set_entry i (e\<lparr>re_state := Closed\<rparr>) r)))"
    by (simp add: retire_core)
  from filter_recovery_core [OF this] show ?thesis by (simp add: close_generation_def Some Let_def)
qed (simp add: close_generation_def)

text \<open>Superseding the current generation moves it to the recent ones with a shorter deadline.\<close>

definition supersede :: "job_id \<Rightarrow> registry_entry \<Rightarrow> u64 \<Rightarrow> generation_registry \<Rightarrow> generation_registry" where
  "supersede i e t r =
     (let r' = set_entry i (e\<lparr>re_accept_until_ms := t, re_state := Accepting\<rparr>) r
      in if i \<in> set (gr_recent r) then r' else r'\<lparr>gr_current := None, gr_recent := i # gr_recent r\<rparr>)"

lemma accepting_role:
  "core_registry r \<Longrightarrow> map_of (gr_entries r) i = Some e \<Longrightarrow> re_state e = Accepting \<Longrightarrow>
     gr_current r = Some i \<and> i \<notin> set (gr_recent r) \<or> i \<in> set (gr_recent r) \<and> gr_current r \<noteq> Some i"
  by (auto simp: core_registry_def wf_roles_def roles_def accepting_ids_def)

lemma supersede_core:
  assumes core: "core_registry r" and e: "map_of (gr_entries r) i = Some e" "re_state e = Accepting"
    and t: "t \<le> re_accept_until_ms e"
    and room: "i \<notin> set (gr_recent r) \<Longrightarrow> length (gr_recent r) \<noteq> rc_maximum_recent (gr_config r)"
  shows "core_registry (supersede i e t r)"
proof -
  let ?e = "e\<lparr>re_accept_until_ms := t, re_state := Accepting\<rparr>"
  have "wf_entry i e" using core e by (simp add: core_registry_def wf_entries_def)
  then have "wf_entry i ?e" using e t by (auto simp: wf_entry_def word_le_nat_alt)
  then have "wf_entries (gr_config r) (AList.update i ?e (gr_entries r))"
    using core e by (auto simp: core_registry_def intro: wf_entries_update)
  moreover have "i \<in> accepting_ids (gr_entries r)" using e by (simp add: accepting_ids_def)
  then have "accepting_ids (AList.update i ?e (gr_entries r)) = accepting_ids (gr_entries r)"
    by (auto simp: accepting_ids_update)
  ultimately show ?thesis
    using core room accepting_role [OF core e]
    by (auto simp: core_registry_def wf_recovery_def wf_roles_def wf_sync_def roles_def supersede_def Let_def update_conv)
qed

text \<open>What \<open>invalidate_job\<close> does, by cases.\<close>

lemma invalidate_job_Err: "invalidate_job r i reason grace anchor = (Err e, r') \<Longrightarrow> r' = r"
  by (auto simp: invalidate_job_def Let_def split: option.splits result.splits if_splits)

lemma finish_drop:
  "\<not> entry_is_some_and (gr_entries r) i (\<lambda>e. accepting e anchor) \<Longrightarrow>
     finish_invalidation i anchor r = drop_recent i (drop_current i r)"
  by (simp add: finish_invalidation_def Let_def)

lemma finish_keep:
  "entry_is_some_and (gr_entries r) i (\<lambda>e. accepting e anchor) \<Longrightarrow>
     finish_invalidation i anchor r = drop_current i r"
  by (simp add: finish_invalidation_def Let_def)

lemma invalidate_job_cases:
  assumes "invalidate_job r i reason grace anchor = (Ok u, r')" "core_registry r"
  obtains "r' = r"
  | e e' where "map_of (gr_entries r) i = Some e" "wf_entry i e'" "re_state e' \<noteq> Accepting" "entry_le e e'"
      "re_storage e' = re_storage e" "r' = drop_recent i (drop_current i (set_entry i e' r))"
  | e t where "map_of (gr_entries r) i = Some e" "re_state e = Accepting" "t \<le> re_accept_until_ms e"
      "i \<notin> set (gr_recent r) \<Longrightarrow> length (gr_recent r) \<noteq> rc_maximum_recent (gr_config r)"
      "r' = supersede i e t r"
proof (cases "map_of (gr_entries r) i")
  case None
  with assms show thesis by (intro that(1)) (simp add: invalidate_job_def)
next
  case (Some e)
  then have wf: "wf_entry i e" using assms(2) by (simp add: core_registry_def wf_entries_def)
  show thesis
  proof (cases "re_state e = Accepting")
    case False
    with assms(1) Some have "r' = drop_recent i (drop_current i (set_entry i e r))"
      by (simp add: invalidate_job_def set_entry_def update_same)
    with Some wf False show thesis by (intro that(2) [of e e]) auto
  next
    case True
    show thesis
    proof (cases "reason = Superseded \<and> grace \<noteq> 0")
      case False
      with assms(1) Some True have "r' = finish_invalidation i anchor (set_entry i (e\<lparr>re_state := Invalidated\<rparr>) r)"
        by (auto simp: invalidate_job_def)
      then have "r' = drop_recent i (drop_current i (set_entry i (e\<lparr>re_state := Invalidated\<rparr>) r))"
        by (simp add: finish_drop entry_is_some_and_iff update_conv accepting_def)
      with Some wf True show thesis
        by (intro that(2) [of e "e\<lparr>re_state := Invalidated\<rparr>"]) (auto simp: wf_entry_state entry_le_def)
    next
      case superseded: True
      then obtain proposed where p: "deadline anchor grace = Ok proposed"
        and room: "i \<notin> set (gr_recent r) \<Longrightarrow> length (gr_recent r) \<noteq> rc_maximum_recent (gr_config r)"
        using assms(1) Some True by (auto simp: invalidate_job_def Let_def split: result.splits if_splits)
      define t where "t = min (re_accept_until_ms e) proposed"
      show thesis
      proof (cases "anchor < t")
        case False
        with assms(1) Some True superseded p room
        have "r' = drop_recent i (drop_current i (set_entry i (e\<lparr>re_accept_until_ms := t, re_state := Invalidated\<rparr>) r))"
          by (auto simp: invalidate_job_def Let_def t_def [symmetric] finish_drop entry_is_some_and_iff update_conv accepting_def
              split: if_splits)
        with Some wf True show thesis
          by (intro that(2) [of e "e\<lparr>re_accept_until_ms := t, re_state := Invalidated\<rparr>"])
            (auto simp: wf_entry_def entry_le_def t_def word_le_nat_alt min_def)
      next
        case later: True
        have "live_resource (re_storage e) \<noteq> None" using wf True by (simp add: wf_entry_def)
        with assms(1) Some True superseded p room later accepting_role [OF assms(2) Some True]
        have "r' = supersede i e t r"
          by (auto simp: invalidate_job_def Let_def t_def [symmetric] finish_keep entry_is_some_and_iff update_conv accepting_def
              supersede_def drop_current_def split: if_splits)
        with Some True room show thesis by (intro that(3) [of e t]) (auto simp: t_def)
      qed
    qed
  qed
qed

lemma invalidate_job_core:
  "invalidate_job r i reason grace anchor = (Ok u, r') \<Longrightarrow> core_registry r \<Longrightarrow> core_registry r'"
  by (erule invalidate_job_cases) (auto intro: retire_core supersede_core)

section \<open>Events\<close>

text \<open>The fields that the handling of one event leaves alone.\<close>

definition same_frame :: "generation_registry \<Rightarrow> generation_registry \<Rightarrow> bool" where
  "same_frame r r' \<longleftrightarrow> gr_config r' = gr_config r \<and> gr_last_event_seq r' = gr_last_event_seq r \<and>
     gr_last_delivery_anchor_ms r' = gr_last_delivery_anchor_ms r \<and>
     gr_last_monotonic_ms r' = gr_last_monotonic_ms r \<and> gr_synchronized r' = gr_synchronized r"

lemma activate_frame: "activate r d anchor = (Ok u, r') \<Longrightarrow> same_frame r r' \<and> entries_le (gr_entries r) (gr_entries r')"
  by (erule activate_Ok) (auto simp: same_frame_def activated_def intro: entries_le_update)

lemma supersede_frame:
  "map_of (gr_entries r) i = Some e \<Longrightarrow> re_state e = Accepting \<Longrightarrow> t \<le> re_accept_until_ms e \<Longrightarrow>
     same_frame r (supersede i e t r) \<and> entries_le (gr_entries r) (gr_entries (supersede i e t r))"
  by (auto simp: same_frame_def supersede_def Let_def entry_le_def intro!: entries_le_update)

lemma invalidate_job_frame:
  assumes "invalidate_job r i reason grace anchor = (Ok u, r')" "core_registry r"
  shows "same_frame r r' \<and> entries_le (gr_entries r) (gr_entries r')"
  using assms
proof (rule invalidate_job_cases)
  fix e e' assume "map_of (gr_entries r) i = Some e" "entry_le e e'"
    "r' = drop_recent i (drop_current i (set_entry i e' r))"
  then show ?thesis by (auto simp: same_frame_def intro: entries_le_update)
qed (auto simp: same_frame_def [of r r] supersede_frame)

lemma close_frame: "same_frame r (close_generation r i) \<and> entries_le (gr_entries r) (gr_entries (close_generation r i))"
  by (cases "map_of (gr_entries r) i")
    (auto simp: close_generation_def Let_def same_frame_def entry_le_def intro!: entries_le_update)

lemma filter_recovery_frame [simp]:
  "same_frame r (r\<lparr>gr_winner_recovery := w\<rparr>)" "same_frame (r\<lparr>gr_winner_recovery := w\<rparr>) r' = same_frame r r'"
  "same_frame r (r\<lparr>gr_recent := w\<rparr>)" "same_frame r r"
  by (simp_all add: same_frame_def)

lemma dispatch_frame:
  assumes "dispatch_event r event anchor = (Ok u, r')" "core_registry r"
  shows "same_frame r r' \<and> entries_le (gr_entries r) (gr_entries r')"
proof (cases event)
  case (JobInvalidated q jid reason grace)
  then obtain i r1 where r1: "r1 = r \<or> r1 = r\<lparr>gr_winner_recovery := filter (\<lambda>retained. retained \<noteq> i) (gr_winner_recovery r)\<rparr>"
    and inv: "invalidate_job r1 i reason grace anchor = (Ok u, r')"
    using assms(1) by (auto simp: dispatch_event_def Let_def split: result.splits if_splits)
  then have "core_registry r1" using assms(2) filter_recovery_core [of r] by auto
  from invalidate_job_frame [OF inv this] r1 show ?thesis by auto
qed (use assms(1) close_frame in \<open>auto simp: dispatch_event_def dest: activate_frame split: result.splits\<close>)

lemma dispatch_core:
  assumes "dispatch_event r event anchor = (Ok u, r')" "core_registry r" "gr_synchronized r"
    and "unexpired now (gr_entries r)" "anchor \<le> now"
  shows "core_registry r'"
proof (cases event)
  case (JobInvalidated q jid reason grace)
  then obtain i r1 where r1: "r1 = r \<or> r1 = r\<lparr>gr_winner_recovery := filter (\<lambda>retained. retained \<noteq> i) (gr_winner_recovery r)\<rparr>"
    and inv: "invalidate_job r1 i reason grace anchor = (Ok u, r')"
    using assms(1) by (auto simp: dispatch_event_def Let_def split: result.splits if_splits)
  then have "core_registry r1" using assms(2) filter_recovery_core [of r] by auto
  with inv show ?thesis by (rule invalidate_job_core)
next
  case (JobActivated q job)
  with assms show ?thesis by (auto simp: dispatch_event_def intro: activate_core)
qed (use assms(1,2) close_core in \<open>auto simp: dispatch_event_def split: result.splits\<close>)

lemma dispatch_Err:
  assumes "dispatch_event r event anchor = (Err e, r')"
  shows "same_frame r r' \<and> gr_entries r' = gr_entries r \<and> gr_counters r' = gr_counters r"
  using assms
  by (cases event)
    (auto simp: dispatch_event_def Let_def split: result.splits if_splits dest!: activate_Err invalidate_job_Err)

text \<open>Applying an event, successfully or not.\<close>

lemma check_event_Ok:
  "check_event h r event anchor policy = Ok u \<longleftrightarrow> gr_synchronized r \<and>
     option_le (gr_last_delivery_anchor_ms r) (Some anchor) \<and> option_le (gr_last_monotonic_ms r) (Some policy) \<and>
     anchor \<le> policy \<and> is_ok (BackendEvent_validate h event) \<and>
     (\<exists>previous. gr_last_event_seq r = Some previous \<and> unat (BackendEvent_event_seq event) = unat previous + 1)"
  by (auto simp: check_event_def check_clock_Ok check_delivery_clock_Ok unit_result_is_ok checked_add_Some)

definition event_applied :: "generation_registry \<Rightarrow> backend_event \<Rightarrow> u64 \<Rightarrow> u64 \<Rightarrow> generation_registry" where
  "event_applied r event anchor now =
     (let r = expire_at r now
      in r\<lparr>gr_last_event_seq := Some (BackendEvent_event_seq event), gr_watermark_current := gr_current r,
           gr_watermark_recent := gr_recent r, gr_last_delivery_anchor_ms := Some anchor,
           gr_last_monotonic_ms := Some now\<rparr>)"

lemma apply_event_at_Ok:
  "apply_event_at h r event anchor policy = (Ok u, r') \<longleftrightarrow>
     check_event h r event anchor policy = Ok () \<and>
     (\<exists>r1. dispatch_event (expire_at r (effective_now r policy)) event anchor = (Ok (), r1) \<and>
       r' = event_applied r1 event anchor (effective_now r policy))"
  by (auto simp: apply_event_at_def try_apply_event_def event_applied_def Let_def split: result.splits prod.splits)

lemma apply_event_at_Err:
  assumes "apply_event_at h r event anchor policy = (Err e, r')"
  obtains r1 where "r' = suspend r1" "same_frame r r1" "gr_counters r1 = gr_counters r"
    "gr_entries r1 = gr_entries r \<or> gr_entries r1 = map_ran (\<lambda>_. expire_entry (effective_now r policy)) (gr_entries r)"
proof (cases "check_event h r event anchor policy")
  case (Err d)
  with assms show thesis
    by (intro that [of r]) (auto simp: apply_event_at_def try_apply_event_def Let_def)
next
  case (Ok v)
  with assms obtain r1 where "dispatch_event (expire_at r (effective_now r policy)) event anchor = (Err e, r1)"
      "r' = suspend r1"
    by (auto simp: apply_event_at_def try_apply_event_def Let_def split: result.splits prod.splits)
  with dispatch_Err [OF this(1)] show thesis by (intro that [of r1]) (auto simp: same_frame_def)
qed

lemma event_applied_wf: "core_registry r \<Longrightarrow> wf_registry (event_applied r event anchor now)"
  using core_event_seq [OF expire_core [of r now], of "BackendEvent_event_seq event"]
  by (simp add: wf_registry_def event_applied_def Let_def expire_unexpired)

lemma apply_event_at_wf:
  assumes "apply_event_at h r event anchor policy = (x, r')" "wf_registry r"
  shows "wf_registry r'"
proof (cases x)
  case (Err e)
  let ?t = "effective_now r policy"
  from assms(1) [unfolded Err] show ?thesis
  proof (rule apply_event_at_Err)
    fix r1 assume r1: "r' = suspend r1" "same_frame r r1"
      "gr_entries r1 = gr_entries r \<or> gr_entries r1 = map_ran (\<lambda>_. expire_entry ?t) (gr_entries r)"
    have es: "wf_entries (gr_config r1) (gr_entries r1)"
      using r1 assms(2) by (auto simp: same_frame_def wf_registry_def core_registry_def wf_entries_expire)
    have "unexpired m (gr_entries r1)" if m: "gr_last_monotonic_ms r = Some m" for m
    proof -
      have "m \<le> ?t" using effective_now_ge(2) [of r policy] m by simp
      then show ?thesis using r1(3) assms(2) m
        by (auto simp: wf_registry_def intro: unexpired_antimono [OF expire_unexpired])
    qed
    with suspend_core [OF es] r1 assms(2) show ?thesis
      by (auto simp: wf_registry_def same_frame_def suspend_unexpired split: option.splits)
  qed
next
  case (Ok u)
  let ?r = "expire_at r (effective_now r policy)"
  from assms(1) Ok obtain r1 where "check_event h r event anchor policy = Ok ()"
      "dispatch_event ?r event anchor = (Ok (), r1)" "r' = event_applied r1 event anchor (effective_now r policy)"
    by (auto simp: apply_event_at_Ok)
  moreover from this have "anchor \<le> effective_now r policy" "gr_synchronized ?r"
    using effective_now_ge(1) [of policy r] by (auto simp: check_event_Ok)
  moreover have "core_registry ?r" using assms(2) by (simp add: wf_registry_def expire_core)
  ultimately show ?thesis
    using dispatch_core [of ?r event anchor "()" r1 "effective_now r policy"] expire_unexpired
    by (auto intro: event_applied_wf)
qed

lemma apply_event_at_le:
  assumes "apply_event_at h r event anchor policy = (x, r')" "wf_registry r"
  shows "registry_le r r'"
proof (cases x)
  case (Err e)
  from assms(1) [unfolded Err] show ?thesis
  proof (rule apply_event_at_Err)
    fix r1 assume r1: "r' = suspend r1" "same_frame r r1"
      "gr_entries r1 = gr_entries r \<or> gr_entries r1 = map_ran (\<lambda>_. expire_entry (effective_now r policy)) (gr_entries r)"
    have "entries_le (gr_entries r) (gr_entries r1)"
      using r1(3) by (auto simp: expire_entries_le)
    with r1(2) have "registry_le r r1" by (simp add: registry_le_def same_frame_def)
    with suspend_le [of r1] r1(1) show ?thesis by (metis registry_le_trans)
  qed
next
  case (Ok u)
  let ?t = "effective_now r policy"
  let ?r = "expire_at r ?t"
  from assms(1) Ok obtain r1 where r1: "check_event h r event anchor policy = Ok ()"
      "dispatch_event ?r event anchor = (Ok (), r1)" "r' = event_applied r1 event anchor ?t"
    by (auto simp: apply_event_at_Ok)
  have frame: "same_frame ?r r1" "entries_le (gr_entries ?r) (gr_entries r1)"
    using dispatch_frame [OF r1(2)] assms(2) by (auto simp: wf_registry_def expire_core)
  have "entries_le (gr_entries r) (gr_entries r')"
    using expire_le [of r ?t] frame(2) expire_le [of r1 ?t] r1(3)
    by (auto simp: registry_le_def event_applied_def Let_def intro: entries_le_trans)
  then show ?thesis
    using frame(1) r1 effective_now_ge(2) [of r policy]
    by (auto simp: registry_le_def same_frame_def event_applied_def Let_def check_event_Ok word_le_nat_alt)
qed

end
