(* ===== verification/Registry_Snapshot.thy ===== *)
theory Registry_Snapshot
  imports Registry_Invariants
begin

text \<open>
  Snapshots of the generation registry: what \<open>prepare_snapshot\<close> computes, that installing it keeps the
  registry's invariant and its lifecycle order, and which counters it creates.
\<close>

section \<open>Prepared entries\<close>

text \<open>An entry prepared for \<open>i\<close>: accepting, and for a known identifier a continuation of the old entry.\<close>

definition prepared_ok :: "generation_registry \<Rightarrow> u64 \<Rightarrow> job_id \<Rightarrow> registry_entry \<Rightarrow> bool" where
  "prepared_ok r anchor i e \<longleftrightarrow> wf_entry i e \<and> re_state e = Accepting \<and> anchor < re_accept_until_ms e \<and>
     (\<forall>old. map_of (gr_entries r) i = Some old \<longrightarrow>
        entry_le old e \<and> re_storage e = re_storage old \<and> open_state (re_state old))"

text \<open>The counters created on the way: the new resources of \<open>ps\<close> sit at distinct new addresses.\<close>

definition new_resources :: "generation_registry \<Rightarrow> nat \<Rightarrow> nat \<Rightarrow> entries \<Rightarrow> bool" where
  "new_resources r lo hi ps \<longleftrightarrow>
     (\<forall>i e. (i, e) \<in> set ps \<and> map_of (gr_entries r) i = None \<longrightarrow>
        (\<exists>g a. re_storage e = Live g a \<and> lo \<le> a \<and> a < hi)) \<and>
     (\<forall>i e j d g g' a. (i, e) \<in> set ps \<and> (j, d) \<in> set ps \<and> map_of (gr_entries r) i = None \<and>
        map_of (gr_entries r) j = None \<and> re_storage e = Live g a \<and> re_storage d = Live g' a \<longrightarrow> i = j)"

lemma new_resources_append:
  assumes "new_resources r lo mid ps" "new_resources r mid hi qs" "lo \<le> mid" "mid \<le> hi"
  shows "new_resources r lo hi (ps @ qs)"
proof -
  have apart: False if "(j, d) \<in> set ps" "(k, d') \<in> set qs" "map_of (gr_entries r) j = None"
      "map_of (gr_entries r) k = None" "re_storage d = Live g a" "re_storage d' = Live g' a" for j k d d' g g' a
  proof -
    have "a < mid" using assms(1) that(1,3,5) unfolding new_resources_def by fastforce
    moreover have "mid \<le> a" using assms(2) that(2,4,6) unfolding new_resources_def by fastforce
    ultimately show False by simp
  qed
  have range: "\<exists>g a. re_storage d = Live g a \<and> lo \<le> a \<and> a < hi"
    if "(j, d) \<in> set (ps @ qs)" "map_of (gr_entries r) j = None" for j d
  proof (cases "(j, d) \<in> set ps")
    case True
    with assms(1) that(2) obtain g a where "re_storage d = Live g a" "lo \<le> a" "a < mid"
      unfolding new_resources_def by blast
    with assms(4) show ?thesis by auto
  next
    case False
    with that(1) have "(j, d) \<in> set qs" by simp
    with assms(2) that(2) obtain g a where "re_storage d = Live g a" "mid \<le> a" "a < hi"
      unfolding new_resources_def by blast
    with assms(3) show ?thesis by auto
  qed
  moreover have "j = k" if jk: "(j, d) \<in> set (ps @ qs)" "(k, d') \<in> set (ps @ qs)" "map_of (gr_entries r) j = None"
      "map_of (gr_entries r) k = None" "re_storage d = Live g a" "re_storage d' = Live g' a" for j k d d' g g' a
  proof -
    consider "(j, d) \<in> set ps" "(k, d') \<in> set ps" | "(j, d) \<in> set qs" "(k, d') \<in> set qs"
      | "(j, d) \<in> set ps" "(k, d') \<in> set qs" | "(j, d) \<in> set qs" "(k, d') \<in> set ps"
      using jk(1,2) by auto
    then show ?thesis
    proof cases
      case 1
      with assms(1) jk show ?thesis unfolding new_resources_def by blast
    next
      case 2
      with assms(2) jk show ?thesis unfolding new_resources_def by blast
    qed (use apart jk in blast)+
  qed
  ultimately show ?thesis unfolding new_resources_def by blast
qed

lemma new_resources_Cons:
  assumes "new_resources r mid hi ps" "lo \<le> mid" "mid \<le> hi"
    and "map_of (gr_entries r) i = None \<Longrightarrow> \<exists>g. re_storage e = Live g lo \<and> lo < mid"
  shows "new_resources r lo hi ((i, e) # ps)"
proof -
  have "new_resources r lo mid [(i, e)]" using assms(4) by (auto simp: new_resources_def)
  from new_resources_append [OF this assms(1-3)] show ?thesis by simp
qed

lemma prepare_acceptable_Ok:
  assumes "prepare_acceptable r counters job anchor = Ok ((i, e), counters')" "wf_entries c (gr_entries r)"
  shows "prepared_ok r anchor i e \<and> i = JobId (jd_job_id (aj_job job)) \<and>
    (if map_of (gr_entries r) i = None
     then \<exists>g. re_storage e = Live g (length counters) \<and> counters' = counters @ [0] else counters' = counters)"
proof -
  from assms(1) obtain g t where g: "BackendGeneration_from_descriptor (aj_job job) = Ok g"
    and t: "deadline anchor (aj_accept_for_ms job) = Ok t" "aj_accept_for_ms job \<noteq> 0" and i: "i = bg_id g"
    by (auto simp: prepare_acceptable_def Let_def split: if_splits option.splits)
  have key: "i = JobId (jd_job_id (aj_job job))" using from_descriptor_fields [OF g] i by simp
  have "unat (aj_accept_for_ms job) \<noteq> 0" using t(2) by (simp add: unat_eq_zero)
  then have later: "anchor < t" using t(1) by (simp add: deadline_Ok word_less_nat_alt)
  show ?thesis
  proof (cases "map_of (gr_entries r) i")
    case None
    with assms(1) g t i obtain w where "winner_recovery_deadline t = Ok w"
      "e = \<lparr>re_storage = Live g (length counters), re_accept_until_ms = t, re_winner_recovery_until_ms = w, re_state = Accepting\<rparr>"
      "counters' = counters @ [0]"
      by (auto simp: prepare_acceptable_def Let_def split: if_splits)
    with wf_entry_new [OF g this(1), of "length counters"] None i later key show ?thesis
      by (auto simp: prepared_ok_def)
  next
    case (Some old)
    note eq = assms(1) [unfolded prepare_acceptable_def g and_then.simps Let_def t(1) Some [unfolded i] option.case]
    have "re_state old \<noteq> Invalidated" "re_state old \<noteq> Closed" "live_resource (re_storage old) \<noteq> None"
      "counters' = counters" "anchor < re_accept_until_ms e"
      and e: "e = \<lparr>re_storage = re_storage old, re_accept_until_ms = min (re_accept_until_ms old) t,
         re_winner_recovery_until_ms = re_winner_recovery_until_ms old, re_state = Accepting\<rparr>"
      using eq by (auto simp: not_le split: if_splits)
    moreover from this have "open_state (re_state old)" by (cases "re_state old") simp_all
    moreover have wf: "wf_entry i old" using assms(2) Some by (simp add: wf_entries_def)
    moreover from calculation have le: "entry_le old e" by (auto simp: entry_le_def)
    moreover have "wf_entry i e" by (rule wf_entry_le [OF wf le]) (use calculation in auto)
    ultimately show ?thesis using Some key by (auto simp: prepared_ok_def)
  qed
qed

lemma prepare_jobs_Ok:
  assumes "prepare_jobs r anchor seen counters jobs = Ok (ps, counters')" "wf_entries c (gr_entries r)"
  shows "distinct (map fst ps) \<and> set (map fst ps) \<inter> set seen = {} \<and>
    map fst ps = map (\<lambda>job. JobId (jd_job_id (aj_job job))) jobs \<and>
    (\<forall>(i, e) \<in> set ps. prepared_ok r anchor i e) \<and>
    (\<exists>n. counters' = counters @ replicate n 0) \<and> new_resources r (length counters) (length counters') ps"
  using assms(1)
proof (induction jobs arbitrary: seen counters ps)
  case Nil
  then show ?case by (auto simp: new_resources_def intro: exI [of _ 0])
next
  case (Cons job jobs)
  from Cons.prems obtain i e c1 ps' where p: "prepare_acceptable r counters job anchor = Ok ((i, e), c1)"
      "i \<notin> set seen" "prepare_jobs r anchor (seen @ [i]) c1 jobs = Ok (ps', counters')" "ps = (i, e) # ps'"
    by (auto split: if_splits)
  note acc = prepare_acceptable_Ok [OF p(1) assms(2)]
  note IH = Cons.IH [OF p(3)]
  from IH obtain n where n: "counters' = c1 @ replicate n 0" by blast
  have c1: "length counters \<le> length c1" "\<exists>k. c1 = counters @ replicate k 0"
    using acc by (auto split: if_splits intro: exI [of _ 0] exI [of _ "Suc 0"])
  with n have "\<exists>n. counters' = counters @ replicate n 0" by (auto simp: replicate_add [symmetric])
  moreover have "new_resources r (length counters) (length counters') ps"
    unfolding p(4) by (rule new_resources_Cons [of r "length c1"]) (use IH acc c1(1) n in \<open>auto split: if_splits\<close>)
  moreover have d: "distinct (map fst ps')" "set (map fst ps') \<inter> set (seen @ [i]) = {}"
    using IH by blast+
  then have "distinct (map fst ps)" "set (map fst ps) \<inter> set seen = {}" using p(2,4) by auto
  moreover have "map fst ps = map (\<lambda>job. JobId (jd_job_id (aj_job job))) (job # jobs)"
    using IH acc p(4) by simp
  moreover have "\<forall>(i, e) \<in> set ps. prepared_ok r anchor i e" using IH acc p(4) by auto
  ultimately show ?case by blast
qed

lemma prepared_of:
  "map_of ps i = Some e \<Longrightarrow> \<forall>(i, e) \<in> set ps. prepared_ok r anchor i e \<Longrightarrow>
     prepared_ok r anchor i e \<and> i \<in> set (map fst ps)"
  by (force dest: map_of_SomeD)

text \<open>Each prepared entry carries its job's descriptor and expires no later than the job's own lease.\<close>

definition prepared_for :: "u64 \<Rightarrow> acceptable_job \<Rightarrow> job_id \<times> registry_entry \<Rightarrow> bool" where
  "prepared_for anchor job p \<longleftrightarrow> bg_descriptor (entry_generation (snd p)) = aj_job job \<and>
     unat (re_accept_until_ms (snd p)) \<le> unat anchor + unat (aj_accept_for_ms job)"

lemma prepare_acceptable_for:
  assumes "prepare_acceptable r counters job anchor = Ok (p, counters')"
  shows "prepared_for anchor job p"
proof -
  from assms obtain g t where g: "BackendGeneration_from_descriptor (aj_job job) = Ok g"
    and t: "deadline anchor (aj_accept_for_ms job) = Ok t"
    by (auto simp: prepare_acceptable_def Let_def split: if_splits option.splits)
  have "bg_descriptor g = aj_job job" "unat t = unat anchor + unat (aj_accept_for_ms job)"
    using from_descriptor_descriptor [OF g] t by (simp_all add: deadline_Ok)
  with assms show ?thesis
    by (auto simp: prepare_acceptable_def g t Let_def prepared_for_def word_le_nat_alt min_def split: if_splits option.splits)
qed

lemma prepare_jobs_for:
  "prepare_jobs r anchor seen counters jobs = Ok (ps, counters') \<Longrightarrow> list_all2 (prepared_for anchor) jobs ps"
  by (induction jobs arbitrary: seen counters ps)
    (auto split: if_splits dest: prepare_acceptable_for)

section \<open>The installed entries\<close>

lemma insert_prepared_map_of:
  "distinct (map fst ps) \<Longrightarrow> map_of (insert_prepared es ps) = map_of es ++ map_of ps"
proof (induction ps arbitrary: es)
  case (Cons p ps)
  obtain i e where p: "p = (i, e)" by (cases p)
  with Cons.prems have "map_of ps i = None" by (simp add: map_of_eq_None_iff)
  then show ?case
    using Cons by (auto simp: insert_prepared_def p update_conv map_add_def fun_eq_iff split: option.splits)
qed (simp add: insert_prepared_def)

lemma insert_prepared_distinct: "distinct (map fst es) \<Longrightarrow> distinct (map fst (insert_prepared es ps))"
  by (induction ps arbitrary: es) (auto simp: insert_prepared_def distinct_update)

lemma omit_entry_le: "entry_le e (omit_entry seen i e)"
  by (auto simp: entry_le_def omit_entry_def split: admission_state.splits)

lemma omit_entry_open: "i \<notin> set seen \<Longrightarrow> \<not> open_state (re_state (omit_entry seen i e))"
  by (auto simp: omit_entry_def split: admission_state.splits)

definition snapshot_entries :: "entries \<Rightarrow> entries \<Rightarrow> entries" where
  "snapshot_entries es ps = map_ran (omit_entry (map fst ps)) (insert_prepared es ps)"

lemma snapshot_entries_map_of:
  assumes "distinct (map fst ps)"
  shows "map_of (snapshot_entries es ps) i =
    (case map_of ps i of Some e \<Rightarrow> Some e | None \<Rightarrow> map_option (omit_entry (map fst ps) i) (map_of es i))"
proof (cases "map_of ps i")
  case None
  then show ?thesis by (simp add: snapshot_entries_def map_ran_conv insert_prepared_map_of [OF assms] map_add_def)
next
  case (Some e)
  then have "i \<in> set (map fst ps)" by (force dest: map_of_SomeD)
  with Some show ?thesis
    by (simp add: snapshot_entries_def map_ran_conv insert_prepared_map_of [OF assms] map_add_def omit_entry_def)
qed

lemma snapshot_accepting:
  assumes "distinct (map fst ps)" "\<forall>(i, e) \<in> set ps. prepared_ok r anchor i e"
  shows "accepting_ids (snapshot_entries es ps) = set (map fst ps)"
proof -
  have "i \<in> accepting_ids (snapshot_entries es ps) \<longleftrightarrow> i \<in> set (map fst ps)" for i
  proof (cases "map_of ps i")
    case None
    then have i: "i \<notin> set (map fst ps)" by (simp add: map_of_eq_None_iff)
    have "re_state (omit_entry (map fst ps) i e) \<noteq> Accepting" for e
      using omit_entry_open [OF i, of e] by (auto simp: open_state_def)
    with None i show ?thesis by (auto simp: accepting_ids_def snapshot_entries_map_of [OF assms(1)])
  next
    case (Some e)
    with prepared_of [OF _ assms(2)] have "re_state e = Accepting" "i \<in> set (map fst ps)"
      by (simp_all add: prepared_ok_def)
    with Some show ?thesis by (simp add: accepting_ids_def snapshot_entries_map_of [OF assms(1)])
  qed
  then show ?thesis by blast
qed

lemma snapshot_entries_wf:
  assumes "wf_entries c (gr_entries r)" "distinct (map fst ps)" "\<forall>(i, e) \<in> set ps. prepared_ok r anchor i e"
    and "length (snapshot_entries (gr_entries r) ps) \<le> rc_maximum_generations c"
  shows "wf_entries c (snapshot_entries (gr_entries r) ps)"
proof -
  have "wf_entry i e'" if "map_of (snapshot_entries (gr_entries r) ps) i = Some e'" for i e'
  proof (cases "map_of ps i")
    case None
    then have i: "i \<notin> set (map fst ps)" by (simp add: map_of_eq_None_iff)
    from None that obtain e where e: "map_of (gr_entries r) i = Some e" "e' = omit_entry (map fst ps) i e"
      by (auto simp: snapshot_entries_map_of [OF assms(2)])
    then have "wf_entry i e" using assms(1) by (simp add: wf_entries_def)
    then show ?thesis unfolding e(2)
      by (rule wf_entry_le [OF _ omit_entry_le])
        (use omit_entry_open [OF i, of e] omit_entry_le [of e "map fst ps" i] in \<open>auto simp: entry_le_def\<close>)
  next
    case (Some e)
    with that prepared_of [OF Some assms(3)] show ?thesis
      by (simp add: snapshot_entries_map_of [OF assms(2)] prepared_ok_def)
  qed
  then show ?thesis
    using assms(1,4) by (simp add: wf_entries_def snapshot_entries_def insert_prepared_distinct)
qed

lemma snapshot_entries_le:
  assumes "distinct (map fst ps)" "\<forall>(i, e) \<in> set ps. prepared_ok r anchor i e"
  shows "entries_le (gr_entries r) (snapshot_entries (gr_entries r) ps)"
  unfolding entries_le_def
proof (intro allI impI)
  fix i e assume e: "map_of (gr_entries r) i = Some e"
  show "\<exists>e'. map_of (snapshot_entries (gr_entries r) ps) i = Some e' \<and> entry_le e e'"
    using e prepared_of [OF _ assms(2), of i] by (cases "map_of ps i")
      (auto simp: snapshot_entries_map_of [OF assms(1)] omit_entry_le prepared_ok_def)
qed

section \<open>Preparing and installing\<close>

lemma prepare_snapshot_Ok:
  assumes "prepare_snapshot r q current recent anchor = Ok p" "wf_entries (gr_config r) (gr_entries r)"
  obtains pc pr where "ps_current p = (case pc of [] \<Rightarrow> None | (i, _) # _ \<Rightarrow> Some i)" "ps_recent p = map fst pr"
    "ps_entries p = snapshot_entries (gr_entries r) (pc @ pr)"
    "distinct (map fst (pc @ pr))" "\<forall>(i, e) \<in> set (pc @ pr). prepared_ok r anchor i e"
    "map fst pc = map (\<lambda>job. JobId (jd_job_id (aj_job job))) (option_list current)"
    "map fst pr = map (\<lambda>job. JobId (jd_job_id (aj_job job))) recent"
    "length recent \<le> rc_maximum_recent (gr_config r)"
    "length (ps_entries p) \<le> rc_maximum_generations (gr_config r)"
    "option_le (gr_last_event_seq r) (Some q)" "option_le (gr_last_delivery_anchor_ms r) (Some anchor)"
    "\<exists>n. ps_counters p = gr_counters r @ replicate n 0"
    "new_resources r (length (gr_counters r)) (length (ps_counters p)) (pc @ pr)"
    "list_all2 (prepared_for anchor) (option_list current @ recent) (pc @ pr)"
proof -
  from assms(1) obtain pc c1 pr c2 where
    pc: "prepare_jobs r anchor [] (gr_counters r) (option_list current) = Ok (pc, c1)" and
    pr: "prepare_jobs r anchor (map fst pc) c1 recent = Ok (pr, c2)"
    and p: "p = \<lparr>ps_entries = snapshot_entries (gr_entries r) (pc @ pr),
      ps_current = (case pc of [] \<Rightarrow> None | (i, _) # _ \<Rightarrow> Some i), ps_recent = map fst pr, ps_counters = c2\<rparr>"
    and chk: "length recent \<le> rc_maximum_recent (gr_config r)"
      "length (ps_entries p) \<le> rc_maximum_generations (gr_config r)"
      "option_le (gr_last_event_seq r) (Some q)" "option_le (gr_last_delivery_anchor_ms r) (Some anchor)"
    by (cases "gr_last_event_seq r")
      (auto simp: prepare_snapshot_def Let_def option_list_def snapshot_entries_def check_delivery_clock_Ok
        unit_result_is_ok split: if_splits)
  note jc = prepare_jobs_Ok [OF pc assms(2)] and jr = prepare_jobs_Ok [OF pr assms(2)]
  obtain n k where c: "c1 = gr_counters r @ replicate n 0" "c2 = c1 @ replicate k 0" using jc jr by blast
  have "new_resources r (length (gr_counters r)) (length c2) (pc @ pr)"
    by (rule new_resources_append [of _ _ "length c1"]) (use jc jr c in auto)
  moreover have "distinct (map fst pc)" "distinct (map fst pr)" "set (map fst pr) \<inter> set (map fst pc) = {}"
    using jc jr by blast+
  then have "distinct (map fst (pc @ pr))" by auto
  moreover have "\<exists>n. c2 = gr_counters r @ replicate n 0" using c by (auto simp: replicate_add [symmetric])
  moreover have "list_all2 (prepared_for anchor) (option_list current @ recent) (pc @ pr)"
    using prepare_jobs_for [OF pc] prepare_jobs_for [OF pr] by (rule list_all2_appendI)
  ultimately show thesis using jc jr chk by (intro that [of pc pr]) (auto simp: p)
qed

text \<open>The registry right after the prepared snapshot is stored.\<close>

definition installed :: "generation_registry \<Rightarrow> prepared_snapshot \<Rightarrow> u64 \<Rightarrow> u64 \<Rightarrow> u64 \<Rightarrow> generation_registry" where
  "installed r p q anchor now = r\<lparr>gr_entries := ps_entries p, gr_current := ps_current p,
     gr_recent := ps_recent p, gr_counters := ps_counters p,
     gr_watermark_current := ps_current p, gr_watermark_recent := ps_recent p,
     gr_last_event_seq := Some q, gr_last_delivery_anchor_ms := Some anchor,
     gr_last_monotonic_ms := Some now, gr_synchronized := True\<rparr>"

lemma apply_snapshot_Ok:
  "apply_snapshot r q current recent anchor = (Ok u, r') \<longleftrightarrow>
     (\<exists>p. prepare_snapshot r q current recent anchor = Ok p \<and>
       (let t = effective_now r anchor; r1 = expire_at (installed r p q anchor t) t
        in r' = prune_winner_recovery (foldl remember_winner_recovery r1 (roles r1)) t))"
  by (auto simp: apply_snapshot_def installed_def Let_def roles_def option_list_def split: result.splits)

lemma apply_snapshot_Err:
  "apply_snapshot r q current recent anchor = (Err e, r') \<longleftrightarrow>
     prepare_snapshot r q current recent anchor = Err e \<and> r' = suspend r"
  by (auto simp: apply_snapshot_def Let_def split: result.splits)

lemma remember_all_keeps [simp]:
  "gr_config (foldl remember_winner_recovery r is) = gr_config r"
  "gr_entries (foldl remember_winner_recovery r is) = gr_entries r"
  "gr_current (foldl remember_winner_recovery r is) = gr_current r"
  "gr_recent (foldl remember_winner_recovery r is) = gr_recent r"
  "gr_last_event_seq (foldl remember_winner_recovery r is) = gr_last_event_seq r"
  "gr_last_delivery_anchor_ms (foldl remember_winner_recovery r is) = gr_last_delivery_anchor_ms r"
  "gr_last_monotonic_ms (foldl remember_winner_recovery r is) = gr_last_monotonic_ms r"
  "gr_synchronized (foldl remember_winner_recovery r is) = gr_synchronized r"
  "gr_counters (foldl remember_winner_recovery r is) = gr_counters r"
  by (induction "is" arbitrary: r) simp_all

lemma remember_all_core:
  "core_registry r \<Longrightarrow> gr_synchronized r \<Longrightarrow> set is \<subseteq> dom (map_of (gr_entries r)) \<Longrightarrow>
     core_registry (foldl remember_winner_recovery r is)"
  by (induction "is" arbitrary: r) (simp_all add: remember_core)

lemma installed_core:
  assumes "prepare_snapshot r q current recent anchor = Ok p" "core_registry r"
  shows "core_registry (installed r p q anchor now)"
proof -
  have es: "wf_entries (gr_config r) (gr_entries r)" using assms(2) by (simp add: core_registry_def)
  obtain pc pr where p: "ps_current p = (case pc of [] \<Rightarrow> None | (i, _) # _ \<Rightarrow> Some i)" "ps_recent p = map fst pr"
    "ps_entries p = snapshot_entries (gr_entries r) (pc @ pr)"
    "distinct (map fst (pc @ pr))" "\<forall>(i, e) \<in> set (pc @ pr). prepared_ok r anchor i e"
    "map fst pc = map (\<lambda>job. JobId (jd_job_id (aj_job job))) (option_list current)"
    "map fst pr = map (\<lambda>job. JobId (jd_job_id (aj_job job))) recent"
    "length recent \<le> rc_maximum_recent (gr_config r)" "length (ps_entries p) \<le> rc_maximum_generations (gr_config r)"
    by (rule prepare_snapshot_Ok [OF assms(1) es])
  have "option_list (ps_current p) = map fst pc"
    using p(1,6) by (cases current; cases pc) (auto split: prod.splits)
  then have roles: "roles (installed r p q anchor now) = map fst (pc @ pr)"
    by (simp add: roles_def installed_def p(2))
  have "length (ps_recent p) = length recent" unfolding p(2,7) by simp
  with p(4,8) snapshot_accepting [OF p(4,5), of "gr_entries r"] roles have "wf_roles (installed r p q anchor now)"
    unfolding wf_roles_def by (simp add: installed_def p(3))
  moreover have "wf_entries (gr_config r) (ps_entries p)"
    using snapshot_entries_wf [OF es p(4,5)] p(3,9) by simp
  moreover have "dom (map_of (gr_entries r)) \<subseteq> dom (map_of (ps_entries p))"
    using snapshot_entries_le [OF p(4,5)] unfolding p(3) entries_le_def by blast
  then have "wf_recovery (installed r p q anchor now)"
    using assms(2) unfolding core_registry_def wf_recovery_def installed_def
    by simp (blast intro: order_trans)
  ultimately show ?thesis by (simp add: core_registry_def wf_sync_def installed_def)
qed

lemma apply_snapshot_wf:
  assumes "apply_snapshot r q current recent anchor = (x, r')" "wf_registry r"
  shows "wf_registry r'"
proof (cases x)
  case (Ok u)
  let ?t = "effective_now r anchor"
  from assms(1) Ok obtain p where p: "prepare_snapshot r q current recent anchor = Ok p"
    and r': "r' = prune_winner_recovery (foldl remember_winner_recovery (expire_at (installed r p q anchor ?t) ?t)
      (roles (expire_at (installed r p q anchor ?t) ?t))) ?t"
    by (auto simp: apply_snapshot_Ok Let_def)
  let ?r = "expire_at (installed r p q anchor ?t) ?t"
  have core: "core_registry ?r" using installed_core [OF p] assms(2) by (simp add: wf_registry_def expire_core)
  moreover have "set (roles ?r) \<subseteq> dom (map_of (gr_entries ?r))"
    using core by (auto simp: core_registry_def wf_roles_def accepting_ids_def)
  moreover have "gr_synchronized ?r" by (simp add: installed_def)
  ultimately have "core_registry r'" unfolding r' by (intro prune_core remember_all_core)
  moreover have "gr_last_monotonic_ms r' = Some ?t" by (simp add: r' installed_def)
  ultimately show ?thesis by (simp add: wf_registry_def r' expire_unexpired)
qed (use assms suspend_wf in \<open>auto simp: apply_snapshot_Err\<close>)

lemma apply_snapshot_le:
  assumes "apply_snapshot r q current recent anchor = (x, r')" "wf_registry r"
  shows "registry_le r r'"
proof (cases x)
  case (Ok u)
  let ?t = "effective_now r anchor"
  from assms(1) Ok obtain p where p: "prepare_snapshot r q current recent anchor = Ok p"
    and r': "r' = prune_winner_recovery (foldl remember_winner_recovery (expire_at (installed r p q anchor ?t) ?t)
      (roles (expire_at (installed r p q anchor ?t) ?t))) ?t"
    by (auto simp: apply_snapshot_Ok Let_def)
  have es: "wf_entries (gr_config r) (gr_entries r)" using assms(2) by (simp add: wf_registry_def core_registry_def)
  have "entries_le (gr_entries r) (ps_entries p)" "option_le (gr_last_event_seq r) (Some q)"
      "option_le (gr_last_delivery_anchor_ms r) (Some anchor)"
    by (rule prepare_snapshot_Ok [OF p es]; use snapshot_entries_le in metis)+
  moreover have "entries_le (ps_entries p) (gr_entries r')" by (simp add: r' installed_def expire_entries_le)
  ultimately show ?thesis
    using effective_now_ge(2) [of r anchor] by (auto simp: registry_le_def r' installed_def intro: entries_le_trans)
qed (use assms suspend_le in \<open>auto simp: apply_snapshot_Err\<close>)

end
