(* ===== verification/Registry_Admission.thy ===== *)
theory Registry_Admission
  imports Registry_Snapshot
begin

text \<open>
  The generation registry as a state machine together with its outstanding admission guards: every
  operation keeps the registry's invariant, moves along its lifecycle order and keeps the counters equal to
  the number of outstanding guards. The properties of the registry close the theory.
\<close>

section \<open>Accounting of guards\<close>

definition storage_of :: "generation_registry \<Rightarrow> job_id \<Rightarrow> generation_storage option" where
  "storage_of r i = map_option re_storage (map_of (gr_entries r) i)"

definition guard_count :: "(generation_admission \<Rightarrow> bool) \<Rightarrow> generation_admission list \<Rightarrow> nat" where
  "guard_count p gs = length (filter p gs)"

text \<open>Every live entry owns one counter, every counter counts its guards, an ordinary guard holds the live
  resource of its generation, and the other guards hold resources of their own.\<close>

definition guards_ok :: "generation_registry \<Rightarrow> generation_admission list \<Rightarrow> bool" where
  "guards_ok r gs \<longleftrightarrow>
     (\<forall>i g a. storage_of r i = Some (Live g a) \<longrightarrow> a < length (gr_counters r)) \<and>
     (\<forall>i j g g' a. storage_of r i = Some (Live g a) \<and> storage_of r j = Some (Live g' a) \<longrightarrow> i = j) \<and>
     (\<forall>a < length (gr_counters r). unat (gr_counters r ! a) = guard_count (\<lambda>x. ga_counter x = a) gs) \<and>
     (\<forall>x \<in> set gs. ga_counter x < length (gr_counters r) \<and>
        (if ga_role x = Ordinary
         then storage_of r (GenerationAdmission_job_id x) = Some (Live (ga_generation x) (ga_counter x))
         else \<forall>i g. storage_of r i \<noteq> Some (Live g (ga_counter x))))"

text \<open>A registry that keeps every resource and gives new identifiers new counters.\<close>

definition extends :: "generation_registry \<Rightarrow> generation_registry \<Rightarrow> bool" where
  "extends r r' \<longleftrightarrow> (\<exists>n. gr_counters r' = gr_counters r @ replicate n 0) \<and>
     (\<forall>i s. storage_of r i = Some s \<longrightarrow> storage_of r' i = Some s) \<and>
     (\<forall>i s. storage_of r i = None \<and> storage_of r' i = Some s \<longrightarrow>
        (\<exists>g a. s = Live g a \<and> length (gr_counters r) \<le> a \<and> a < length (gr_counters r'))) \<and>
     (\<forall>i j g g' a. storage_of r i = None \<and> storage_of r j = None \<and>
        storage_of r' i = Some (Live g a) \<and> storage_of r' j = Some (Live g' a) \<longrightarrow> i = j)"

lemma extends_same: "storage_of r' = storage_of r \<Longrightarrow> gr_counters r' = gr_counters r \<Longrightarrow> extends r r'"
  by (auto simp: extends_def intro: exI [of _ 0])

lemma guard_count_simps [simp]:
  "guard_count p [] = 0" "guard_count p (x # gs) = (if p x then Suc (guard_count p gs) else guard_count p gs)"
  by (simp_all add: guard_count_def)

lemma guard_count_zero: "guard_count p gs = 0 \<longleftrightarrow> (\<forall>x \<in> set gs. \<not> p x)"
  by (auto simp: guard_count_def filter_empty_conv)

lemma extends_old: "extends r r' \<Longrightarrow> storage_of r i = Some s \<Longrightarrow> storage_of r' i = Some s"
  by (auto simp: extends_def)

lemma extends_new:
  assumes "extends r r'" "storage_of r' i = Some (Live g a)"
  shows "storage_of r i = Some (Live g a) \<or>
    storage_of r i = None \<and> length (gr_counters r) \<le> a \<and> a < length (gr_counters r')"
proof (cases "storage_of r i")
  case None
  with assms show ?thesis unfolding extends_def by blast
next
  case (Some s)
  with extends_old [OF assms(1)] assms(2) show ?thesis by simp
qed

lemma guards_ok_address: "guards_ok r gs \<Longrightarrow> storage_of r i = Some (Live g a) \<Longrightarrow> a < length (gr_counters r)"
  unfolding guards_ok_def by blast

lemma guards_ok_inj:
  "guards_ok r gs \<Longrightarrow> storage_of r i = Some (Live g a) \<Longrightarrow> storage_of r j = Some (Live g' a) \<Longrightarrow> i = j"
  unfolding guards_ok_def by blast

lemma guards_ok_guard: "guards_ok r gs \<Longrightarrow> x \<in> set gs \<Longrightarrow> ga_counter x < length (gr_counters r)"
  unfolding guards_ok_def by blast

lemma guards_ok_ordinary:
  "guards_ok r gs \<Longrightarrow> x \<in> set gs \<Longrightarrow> ga_role x = Ordinary \<Longrightarrow>
     storage_of r (GenerationAdmission_job_id x) = Some (Live (ga_generation x) (ga_counter x))"
  unfolding guards_ok_def by fastforce

lemma guards_ok_other:
  "guards_ok r gs \<Longrightarrow> x \<in> set gs \<Longrightarrow> ga_role x \<noteq> Ordinary \<Longrightarrow> storage_of r i \<noteq> Some (Live g (ga_counter x))"
  unfolding guards_ok_def by fastforce

lemma guards_ok_count:
  "guards_ok r gs \<Longrightarrow> a < length (gr_counters r) \<Longrightarrow>
     unat (gr_counters r ! a) = guard_count (\<lambda>x. ga_counter x = a) gs"
  unfolding guards_ok_def by blast

lemma guards_okI:
  assumes "\<And>i g a. storage_of r i = Some (Live g a) \<Longrightarrow> a < length (gr_counters r)"
    and "\<And>i j g g' a. storage_of r i = Some (Live g a) \<Longrightarrow> storage_of r j = Some (Live g' a) \<Longrightarrow> i = j"
    and "\<And>a. a < length (gr_counters r) \<Longrightarrow> unat (gr_counters r ! a) = guard_count (\<lambda>x. ga_counter x = a) gs"
    and "\<And>x. x \<in> set gs \<Longrightarrow> ga_counter x < length (gr_counters r)"
    and "\<And>x. x \<in> set gs \<Longrightarrow> ga_role x = Ordinary \<Longrightarrow>
      storage_of r (GenerationAdmission_job_id x) = Some (Live (ga_generation x) (ga_counter x))"
    and "\<And>x i g. x \<in> set gs \<Longrightarrow> ga_role x \<noteq> Ordinary \<Longrightarrow> storage_of r i \<noteq> Some (Live g (ga_counter x))"
  shows "guards_ok r gs"
  unfolding guards_ok_def using assms by (simp; blast)

lemma guards_ok_extends:
  assumes ok: "guards_ok r gs" and ext: "extends r r'"
  shows "guards_ok r' gs"
proof (rule guards_okI)
  from ext obtain n where n: "gr_counters r' = gr_counters r @ replicate n 0" by (auto simp: extends_def)
  fix i j g g' a
  assume i: "storage_of r' i = Some (Live g a)"
  from extends_new [OF ext this] guards_ok_address [OF ok, of i g a] n
  show "a < length (gr_counters r')" by auto
  assume j: "storage_of r' j = Some (Live g' a)"
  show "i = j"
  proof (cases "storage_of r i = None \<and> storage_of r j = None")
    case True
    with i j ext show ?thesis unfolding extends_def by blast
  next
    case False
    with extends_new [OF ext i] extends_new [OF ext j] guards_ok_address [OF ok]
    have "storage_of r i = Some (Live g a)" "storage_of r j = Some (Live g' a)" by (auto dest: leD)
    with ok show ?thesis by (rule guards_ok_inj)
  qed
next
  from ext obtain n where n: "gr_counters r' = gr_counters r @ replicate n 0" by (auto simp: extends_def)
  fix a assume a: "a < length (gr_counters r')"
  show "unat (gr_counters r' ! a) = guard_count (\<lambda>x. ga_counter x = a) gs"
  proof (cases "a < length (gr_counters r)")
    case True
    with guards_ok_count [OF ok] n show ?thesis by (simp add: nth_append)
  next
    case False
    with guards_ok_guard [OF ok] have "guard_count (\<lambda>x. ga_counter x = a) gs = 0" by (auto simp: guard_count_zero)
    with False a n show ?thesis by (simp add: nth_append)
  qed
next
  from ext obtain n where n: "gr_counters r' = gr_counters r @ replicate n 0" by (auto simp: extends_def)
  fix x i g assume x: "x \<in> set gs"
  with guards_ok_guard [OF ok] n show "ga_counter x < length (gr_counters r')" by fastforce
  show "storage_of r' (GenerationAdmission_job_id x) = Some (Live (ga_generation x) (ga_counter x))"
    if "ga_role x = Ordinary"
    using extends_old [OF ext guards_ok_ordinary [OF ok x that]] .
  show "storage_of r' i \<noteq> Some (Live g (ga_counter x))" if "ga_role x \<noteq> Ordinary"
    using extends_new [OF ext, of i g "ga_counter x"] guards_ok_other [OF ok x that] guards_ok_guard [OF ok x] by auto
qed

section \<open>Operations that create or keep resources\<close>

lemma storage_of_cong: "gr_entries r' = gr_entries r \<Longrightarrow> storage_of r' = storage_of r"
  by (simp add: storage_of_def fun_eq_iff)

lemma storage_map_ran:
  assumes "gr_entries r' = map_ran f (gr_entries r)" "\<And>i e. re_storage (f i e) = re_storage e"
  shows "storage_of r' = storage_of r"
proof
  show "storage_of r' i = storage_of r i" for i
    by (cases "map_of (gr_entries r) i") (simp_all add: storage_of_def assms map_ran_conv)
qed

lemma storage_suspend [simp]: "storage_of (suspend r) = storage_of r"
  by (rule storage_map_ran [where f = "\<lambda>_. suspend_entry"]) simp_all

lemma storage_expire [simp]: "storage_of (expire_at r now) = storage_of r"
  by (rule storage_map_ran [where f = "\<lambda>_. expire_entry now"]) simp_all

lemma storage_event_applied [simp]: "storage_of (event_applied r event anchor now) = storage_of r"
  by (rule storage_map_ran [where f = "\<lambda>_. expire_entry now"]) (simp_all add: event_applied_def Let_def)

lemma storage_of_simps [simp]:
  "storage_of (prune_winner_recovery r now) = storage_of r" "storage_of (remember_winner_recovery r i) = storage_of r"
  "storage_of (drop_current i r) = storage_of r" "storage_of (drop_recent i r) = storage_of r"
  "storage_of (r\<lparr>gr_last_monotonic_ms := t\<rparr>) = storage_of r" "storage_of (r\<lparr>gr_winner_recovery := w\<rparr>) = storage_of r"
  "storage_of (r\<lparr>gr_counters := cs\<rparr>) = storage_of r"
  "storage_of (r\<lparr>gr_recent := rs\<rparr>) = storage_of r" "storage_of (r\<lparr>gr_current := c\<rparr>) = storage_of r"
  by (rule storage_of_cong; simp)+

lemma storage_set_entry:
  "map_of (gr_entries r) i = Some e \<Longrightarrow> re_storage e' = re_storage e \<Longrightarrow> storage_of (set_entry i e' r) = storage_of r"
  by (auto simp: storage_of_def set_entry_def update_conv fun_eq_iff)

lemma extends_suspend: "extends r r1 \<Longrightarrow> extends r (suspend r1)"
  by (simp add: extends_def)

lemma advance_clock_extends: "advance_clock r now = (x, r') \<Longrightarrow> extends r r'"
  by (cases x) (auto simp: advance_clock_Ok advance_clock_Err intro!: extends_same)

lemma activate_extends:
  assumes "activate r d anchor = (Ok u, r')"
  shows "extends r r'"
proof -
  from assms obtain g t w where g: "map_of (gr_entries r) (bg_id g) = None"
    and r': "r' = prune_winner_recovery (remember_winner_recovery (activated r g t w (accepting_current r anchor)) (bg_id g)) anchor"
    by (rule activate_Ok)
  have "storage_of r' = (storage_of r)(bg_id g \<mapsto> Live g (length (gr_counters r)))"
    by (auto simp: r' storage_of_def activated_def update_conv fun_eq_iff)
  moreover have "gr_counters r' = gr_counters r @ replicate 1 0" by (simp add: r' activated_def)
  moreover have "storage_of r (bg_id g) = None" using g by (simp add: storage_of_def)
  ultimately show ?thesis unfolding extends_def by (intro conjI exI [of _ 1]) (auto split: if_splits)
qed

lemma invalidate_job_extends:
  "invalidate_job r i reason grace anchor = (Ok u, r') \<Longrightarrow> core_registry r \<Longrightarrow> extends r r'"
  by (erule invalidate_job_cases)
    (auto simp: supersede_def Let_def storage_set_entry intro!: extends_same)

lemma close_extends: "extends r (close_generation r i)"
  by (cases "map_of (gr_entries r) i")
    (auto simp: close_generation_def Let_def storage_set_entry intro!: extends_same)

lemma extends_recovery: "extends (r\<lparr>gr_winner_recovery := w\<rparr>) r' = extends r r'"
  by (simp add: extends_def)

lemma dispatch_extends:
  assumes "dispatch_event r event anchor = (Ok u, r')" "core_registry r"
  shows "extends r r'"
proof (cases event)
  case (JobInvalidated q jid reason grace)
  then obtain i r1 where r1: "r1 = r \<or> r1 = r\<lparr>gr_winner_recovery := filter (\<lambda>retained. retained \<noteq> i) (gr_winner_recovery r)\<rparr>"
    and inv: "invalidate_job r1 i reason grace anchor = (Ok u, r')"
    using assms(1) by (auto simp: dispatch_event_def Let_def split: result.splits if_splits)
  then have "core_registry r1" using assms(2) filter_recovery_core [of r] by auto
  from invalidate_job_extends [OF inv this] r1 show ?thesis by (auto simp: extends_recovery)
qed (use assms(1) close_extends extends_same [of r r] activate_extends in
    \<open>auto simp: dispatch_event_def split: result.splits\<close>)

lemma apply_event_at_extends:
  assumes "apply_event_at h r event anchor policy = (x, r')" "wf_registry r"
  shows "extends r r'"
proof (cases x)
  case (Err e)
  from assms(1) [unfolded Err] show ?thesis
  proof (rule apply_event_at_Err)
    fix r1 assume "r' = suspend r1" "gr_counters r1 = gr_counters r"
      "gr_entries r1 = gr_entries r \<or> gr_entries r1 = map_ran (\<lambda>_. expire_entry (effective_now r policy)) (gr_entries r)"
    then show ?thesis
      using storage_of_cong [of r1 r] storage_map_ran [of r1 "\<lambda>_. expire_entry (effective_now r policy)" r]
      by (auto intro!: extends_suspend extends_same)
  qed
next
  case (Ok u)
  let ?r = "expire_at r (effective_now r policy)"
  from assms(1) Ok obtain r1 where r1: "dispatch_event ?r event anchor = (Ok (), r1)"
      "r' = event_applied r1 event anchor (effective_now r policy)"
    by (auto simp: apply_event_at_Ok)
  have "extends ?r r1" using dispatch_extends [OF r1(1)] assms(2) by (simp add: wf_registry_def expire_core)
  then show ?thesis by (simp add: extends_def r1(2)) (simp add: event_applied_def Let_def)
qed

lemma apply_snapshot_extends:
  assumes "apply_snapshot r q current recent anchor = (x, r')" "wf_registry r"
  shows "extends r r'"
proof (cases x)
  case (Ok u)
  let ?t = "effective_now r anchor"
  from assms(1) Ok obtain p where p: "prepare_snapshot r q current recent anchor = Ok p"
    and r': "r' = prune_winner_recovery (foldl remember_winner_recovery (expire_at (installed r p q anchor ?t) ?t)
      (roles (expire_at (installed r p q anchor ?t) ?t))) ?t"
    by (auto simp: apply_snapshot_Ok Let_def)
  have es: "wf_entries (gr_config r) (gr_entries r)" using assms(2) by (simp add: wf_registry_def core_registry_def)
  obtain ps where ps: "ps_entries p = snapshot_entries (gr_entries r) ps" "distinct (map fst ps)"
      "\<forall>(i, e) \<in> set ps. prepared_ok r anchor i e" "\<exists>n. ps_counters p = gr_counters r @ replicate n 0"
      "new_resources r (length (gr_counters r)) (length (ps_counters p)) ps"
    by (rule prepare_snapshot_Ok [OF p es]) blast
  have eq: "storage_of r' = storage_of (r\<lparr>gr_entries := ps_entries p\<rparr>)" "gr_counters r' = ps_counters p"
    using storage_map_ran [of r' "\<lambda>_. expire_entry ?t" "r\<lparr>gr_entries := ps_entries p\<rparr>"]
    by (simp_all add: r' installed_def)
  have storage: "storage_of r' i = (case map_of ps i of Some e \<Rightarrow> Some (re_storage e) | None \<Rightarrow> storage_of r i)" for i
    unfolding eq by (auto simp: storage_of_def ps(1) snapshot_entries_map_of [OF ps(2)] option.map_comp comp_def
        split: option.splits)
  have "storage_of r' i = Some s" if "storage_of r i = Some s" for i s
    unfolding storage using that prepared_of [OF _ ps(3), of i]
    by (cases "map_of ps i") (auto simp: storage_of_def prepared_ok_def)
  moreover have new: "\<exists>e. (i, e) \<in> set ps \<and> map_of (gr_entries r) i = None \<and> re_storage e = s"
    if "storage_of r i = None" "storage_of r' i = Some s" for i s
    using that(1) that(2) [unfolded storage]
    by (cases "map_of ps i") (auto simp: storage_of_def dest: map_of_SomeD)
  then have "\<exists>g a. s = Live g a \<and> length (gr_counters r) \<le> a \<and> a < length (gr_counters r')"
    if "storage_of r i = None" "storage_of r' i = Some s" for i s
    using new [OF that] ps(5) unfolding eq(2) new_resources_def by blast
  moreover have "i = j" if "storage_of r i = None" "storage_of r j = None" "storage_of r' i = Some (Live g a)"
      "storage_of r' j = Some (Live g' a)" for i j g g' a
    using new [OF that(1,3)] new [OF that(2,4)] ps(5) unfolding new_resources_def by blast
  ultimately show ?thesis unfolding extends_def using ps(4) [folded eq(2)] by blast
qed (use assms in \<open>auto simp: apply_snapshot_Err intro!: extends_suspend extends_same\<close>)

end
