(* ===== verification/Registry_Machine.thy ===== *)
theory Registry_Machine
  imports Registry_Admission
begin

text \<open>
  The generation registry as a state machine over its operations and its outstanding guards, its invariant as
  an instance of the library's \<open>monotone_system\<close>, and the properties of the registry.
\<close>

section \<open>Admissions\<close>

lemma begin_admission_Ok:
  "begin_admission r i now = (Ok x, r') \<longleftrightarrow>
     (\<exists>r1 e g a c. advance_clock r now = (Ok (), r1) \<and> gr_synchronized r1 \<and> map_of (gr_entries r1) i = Some e \<and>
        accepting e now \<and> re_storage e = Live g a \<and> unat c = unat (gr_counters r1 ! a) + 1 \<and>
        x = \<lparr>ga_generation = g, ga_counter = a, ga_role = Ordinary\<rparr> \<and>
        r' = r1\<lparr>gr_counters := (gr_counters r1)[a := c]\<rparr>)"
  (is "?l \<longleftrightarrow> ?r")
proof
  assume l: ?l
  then obtain r1 where r1: "advance_clock r now = (Ok (), r1)"
    by (auto simp: begin_admission_def split: prod.splits result.splits)
  from l obtain e where e: "gr_synchronized r1" "map_of (gr_entries r1) i = Some e" "accepting e now"
    by (auto simp: begin_admission_def r1 split: if_splits option.splits)
  then obtain g a where s: "re_storage e = Live g a" by (cases "re_storage e") (auto simp: accepting_def)
  from l obtain c where c: "checked_add (gr_counters r1 ! a) 1 = Some c"
    by (auto simp: begin_admission_def r1 e s split: option.splits)
  have "unat c = unat (gr_counters r1 ! a) + 1" using c by (simp add: checked_add_Some)
  moreover from l have "x = \<lparr>ga_generation = g, ga_counter = a, ga_role = Ordinary\<rparr>"
      "r' = r1\<lparr>gr_counters := (gr_counters r1)[a := c]\<rparr>"
    by (simp_all add: begin_admission_def r1 e s c)
  ultimately show ?r using r1 e s by blast
next
  assume ?r
  then obtain r1 e g a c where "advance_clock r now = (Ok (), r1)" "gr_synchronized r1" "map_of (gr_entries r1) i = Some e"
    "accepting e now" "re_storage e = Live g a" "checked_add (gr_counters r1 ! a) 1 = Some c"
    "x = \<lparr>ga_generation = g, ga_counter = a, ga_role = Ordinary\<rparr>" "r' = r1\<lparr>gr_counters := (gr_counters r1)[a := c]\<rparr>"
    by (auto simp: checked_add_Some)
  then show ?l by (simp add: begin_admission_def)
qed

lemma begin_admission_Err:
  "begin_admission r i now = (Err e, r') \<Longrightarrow> \<exists>x. advance_clock r now = (x, r')"
  by (auto simp: begin_admission_def split: prod.splits result.splits if_splits option.splits)

lemma guard_count_remove1:
  "x \<in> set gs \<Longrightarrow> guard_count p (remove1 x gs) = (if p x then guard_count p gs - 1 else guard_count p gs)"
proof (induction gs)
  case (Cons y gs)
  have "guard_count p gs \<noteq> 0" if "x \<in> set gs" "p x" using that by (auto simp: guard_count_zero)
  with Cons show ?case by auto
qed simp

lemma begin_guards:
  assumes ok: "guards_ok r gs" and s: "storage_of r i = Some (Live g a)" "bg_id g = i"
    and c: "unat c = unat (gr_counters r ! a) + 1"
  shows "guards_ok (r\<lparr>gr_counters := (gr_counters r)[a := c]\<rparr>) (\<lparr>ga_generation = g, ga_counter = a, ga_role = Ordinary\<rparr> # gs)"
    (is "guards_ok ?r (?x # gs)")
proof (rule guards_okI)
  note a = guards_ok_address [OF ok s(1)]
  show "unat (gr_counters ?r ! b) = guard_count (\<lambda>x. ga_counter x = b) (?x # gs)" if "b < length (gr_counters ?r)" for b
    using that c a guards_ok_count [OF ok, of b] by (auto simp: nth_list_update)
  show "ga_counter x < length (gr_counters ?r)" if "x \<in> set (?x # gs)" for x
    using that a guards_ok_guard [OF ok] by auto
  show "storage_of ?r (GenerationAdmission_job_id x) = Some (Live (ga_generation x) (ga_counter x))"
    if "x \<in> set (?x # gs)" "ga_role x = Ordinary" for x
    using that s guards_ok_ordinary [OF ok, of x] by (auto simp: GenerationAdmission_job_id_def)
  show "storage_of ?r j \<noteq> Some (Live g' (ga_counter x))" if "x \<in> set (?x # gs)" "ga_role x \<noteq> Ordinary" for x j g'
    using that guards_ok_other [OF ok, of x j g'] by auto
qed (use guards_ok_address [OF ok] guards_ok_inj [OF ok] in auto)

text \<open>A candidate guard gets a counter of its own.\<close>

lemma candidate_guards:
  assumes ok: "guards_ok r gs" and "ga_counter x = length (gr_counters r)" "ga_role x \<noteq> Ordinary"
  shows "guards_ok (r\<lparr>gr_counters := gr_counters r @ [1]\<rparr>) (x # gs)" (is "guards_ok ?r _")
proof (rule guards_okI)
  show "unat (gr_counters ?r ! b) = guard_count (\<lambda>y. ga_counter y = b) (x # gs)" if "b < length (gr_counters ?r)" for b
  proof (cases "b < length (gr_counters r)")
    case True
    with assms guards_ok_count [OF ok, of b] show ?thesis by (simp add: nth_append)
  next
    case False
    with that have b: "b = length (gr_counters r)" by simp
    have "guard_count (\<lambda>y. ga_counter y = b) gs = 0"
      using guards_ok_guard [OF ok] by (fastforce simp: guard_count_zero b)
    with assms b show ?thesis by (simp add: nth_append)
  qed
  show "ga_counter y < length (gr_counters ?r)" if "y \<in> set (x # gs)" for y
    using that assms(2) guards_ok_guard [OF ok, of y] by auto
  show "storage_of ?r (GenerationAdmission_job_id y) = Some (Live (ga_generation y) (ga_counter y))"
    if "y \<in> set (x # gs)" "ga_role y = Ordinary" for y
    using that assms(3) guards_ok_ordinary [OF ok, of y] by auto
  show "storage_of ?r j \<noteq> Some (Live g' (ga_counter y))" if "y \<in> set (x # gs)" "ga_role y \<noteq> Ordinary" for y j g'
    using that assms(2) guards_ok_other [OF ok, of y j g'] guards_ok_address [OF ok, of j g' "ga_counter x"] by auto
  show "b < length (gr_counters ?r)" if "storage_of ?r i = Some (Live g b)" for i g b
    using that guards_ok_address [OF ok, of i g b] by simp
qed (use guards_ok_inj [OF ok] in auto)

lemma drop_guards:
  assumes ok: "guards_ok r gs" and x: "x \<in> set gs"
  shows "guards_ok (drop_admission r x) (remove1 x gs)"
proof (rule guards_okI)
  have sub: "y \<in> set gs" if "y \<in> set (remove1 x gs)" for y using that set_remove1_subset by fastforce
  have st: "storage_of (drop_admission r x) = storage_of r" by (simp add: drop_admission_def)
  have a: "ga_counter x < length (gr_counters r)" by (rule guards_ok_guard [OF ok x])
  have "guard_count (\<lambda>y. ga_counter y = ga_counter x) gs \<noteq> 0" using x by (auto simp: guard_count_zero)
  then have "unat (gr_counters r ! ga_counter x) \<noteq> 0" using guards_ok_count [OF ok a] by simp
  then have dec: "unat (gr_counters r ! ga_counter x - 1) = unat (gr_counters r ! ga_counter x) - 1"
    by (metis unat_minus_one unat_0)
  show "unat (gr_counters (drop_admission r x) ! b) = guard_count (\<lambda>y. ga_counter y = b) (remove1 x gs)"
    if "b < length (gr_counters (drop_admission r x))" for b
    using that dec guards_ok_count [OF ok, of b]
    by (auto simp: drop_admission_def guard_count_remove1 [OF x] nth_list_update)
  show "ga_counter y < length (gr_counters (drop_admission r x))" if "y \<in> set (remove1 x gs)" for y
    using guards_ok_guard [OF ok sub [OF that]] by (simp add: drop_admission_def)
  show "storage_of (drop_admission r x) (GenerationAdmission_job_id y) = Some (Live (ga_generation y) (ga_counter y))"
    if "y \<in> set (remove1 x gs)" "ga_role y = Ordinary" for y
    using guards_ok_ordinary [OF ok sub [OF that(1)] that(2)] by (simp add: st)
  show "storage_of (drop_admission r x) j \<noteq> Some (Live g' (ga_counter y))"
    if "y \<in> set (remove1 x gs)" "ga_role y \<noteq> Ordinary" for y j g'
    using guards_ok_other [OF ok sub [OF that(1)] that(2)] by (simp add: st)
qed (use guards_ok_address [OF ok] guards_ok_inj [OF ok] in \<open>auto simp: drop_admission_def\<close>)

text \<open>What a candidate guard requires: the generation is kept for recovery, its tail has not ended, it builds on
  the parent of the current work, and the proof meets the Zcash network target.\<close>

definition candidate_ok ::
  "(bytes \<Rightarrow> bytes) \<Rightarrow> generation_registry \<Rightarrow> job_id \<Rightarrow> bytes \<Rightarrow> bytes \<Rightarrow> u64 \<Rightarrow> bool \<Rightarrow> registry_entry \<Rightarrow> bool" where
  "candidate_ok h r i nonce solution now allow e \<longleftrightarrow> gr_synchronized r \<and>
     i \<in> set (gr_winner_recovery (prune_winner_recovery r now)) \<and>
     map_of (gr_entries r) i = Some e \<and> now < re_winner_recovery_until_ms e \<and> re_state e \<noteq> Closed \<and>
     (case current_parent r now of None \<Rightarrow> allow | Some hash \<Rightarrow> entry_zcash_parent e = hash) \<and>
     rev (canonical_parent_header_hash_le h (jd_header_input (bg_descriptor (entry_generation e))) nonce solution)
       \<le> rev (TargetLe_as_bytes (jd_zcash_target_le (bg_descriptor (entry_generation e))))"

lemma begin_zcash_candidate_Ok:
  "begin_zcash_candidate h r i nonce solution now role allow = (Ok x, r') \<longleftrightarrow>
     (\<exists>r1 e. advance_clock r now = (Ok (), r1) \<and> candidate_ok h r1 i nonce solution now allow e \<and>
        x = \<lparr>ga_generation = entry_generation e, ga_counter = length (gr_counters r1), ga_role = role\<rparr> \<and>
        r' = (prune_winner_recovery r1 now)\<lparr>gr_counters := gr_counters r1 @ [1]\<rparr>)"
  by (cases "advance_clock r now"; cases "fst (advance_clock r now)")
    (auto simp: begin_zcash_candidate_def candidate_ok_def current_parent_def Let_def option_filter_None not_less
      split: if_splits option.splits)

lemma begin_zcash_candidate_Err:
  "begin_zcash_candidate h r i nonce solution now role allow = (Err e, r') \<Longrightarrow>
     \<exists>x r1. advance_clock r now = (x, r1) \<and> (r' = r1 \<or> r' = prune_winner_recovery r1 now)"
  by (auto simp: begin_zcash_candidate_def Let_def split: prod.splits result.splits if_splits option.splits)

section \<open>Retirement\<close>

definition retire_entry :: "generation_registry \<Rightarrow> job_id \<Rightarrow> registry_entry \<Rightarrow> registry_entry" where
  "retire_entry r i e = (if retires r i e then e\<lparr>re_storage := Tombstone (entry_generation e)\<rparr> else e)"

lemma collect_retired_Ok:
  "collect_retired r now = (Ok ids, r') \<longleftrightarrow>
     (\<exists>r1. advance_clock r now = (Ok (), r1) \<and>
        ids = sort (map fst (filter (\<lambda>(i, e). retires r1 i e) (gr_entries r1))) \<and>
        r' = r1\<lparr>gr_entries := map_ran (retire_entry r1) (gr_entries r1)\<rparr>)"
  unfolding retire_entry_def
  by (auto simp: collect_retired_def split: prod.splits result.splits)

lemma collect_retired_Err: "collect_retired r now = (Err e, r') \<Longrightarrow> advance_clock r now = (Err e, r')"
  by (auto simp: collect_retired_def split: prod.splits result.splits)

lemma retire_entry_le: "entry_le e (retire_entry r i e)"
  by (auto simp: entry_le_def retire_entry_def)

lemma retire_entry_state [simp]:
  "re_state (retire_entry r i e) = re_state e" "re_accept_until_ms (retire_entry r i e) = re_accept_until_ms e"
  by (simp_all add: retire_entry_def)

lemma retire_wf_entry: "wf_entry i e \<Longrightarrow> wf_entry i (retire_entry r i e)"
  by (rule wf_entry_le [OF _ retire_entry_le]) (auto simp: wf_entry_def retire_entry_def retires_def)

lemma retire_wf:
  assumes "wf_registry r"
  shows "wf_registry (r\<lparr>gr_entries := map_ran (retire_entry r) (gr_entries r)\<rparr>)"
proof -
  have acc: "accepting_ids (map_ran (retire_entry r) es) = accepting_ids es" for es
    by (auto simp: accepting_ids_def map_ran_conv)
  have "wf_entries (gr_config r) (map_ran (retire_entry r) (gr_entries r))"
    using assms by (intro wf_entries_map_ran) (auto simp: wf_registry_def core_registry_def retire_wf_entry)
  moreover have "unexpired m (gr_entries r) \<Longrightarrow> unexpired m (map_ran (retire_entry r) (gr_entries r))" for m
    by (auto simp: unexpired_def map_ran_conv)
  moreover have "dom (map_of (map_ran (retire_entry r) (gr_entries r))) = dom (map_of (gr_entries r))"
    by (auto simp: map_ran_conv dom_def)
  ultimately show ?thesis
    using assms by (simp add: wf_registry_def core_registry_def wf_recovery_def wf_roles_def wf_sync_def roles_def acc
        split: option.splits)
qed

text \<open>Only resources without a guard are released.\<close>

lemma retire_guards:
  assumes ok: "guards_ok r gs"
  shows "guards_ok (r\<lparr>gr_entries := map_ran (retire_entry r) (gr_entries r)\<rparr>) gs" (is "guards_ok ?r gs")
proof -
  have storage: "storage_of ?r i = map_option (\<lambda>e. re_storage (retire_entry r i e)) (map_of (gr_entries r) i)" for i
    by (simp add: storage_of_def map_ran_conv option.map_comp comp_def)
  have shrink: "storage_of r i = Some (Live g a)" if "storage_of ?r i = Some (Live g a)" for i g a
    using that unfolding storage by (auto simp: storage_of_def retire_entry_def split: if_splits)
  have keep: "storage_of ?r (GenerationAdmission_job_id x) = Some (Live (ga_generation x) (ga_counter x))"
    if x: "x \<in> set gs" "ga_role x = Ordinary" for x
  proof -
    from guards_ok_ordinary [OF ok x] obtain e where e: "map_of (gr_entries r) (GenerationAdmission_job_id x) = Some e"
      "re_storage e = Live (ga_generation x) (ga_counter x)" by (auto simp: storage_of_def)
    have "guard_count (\<lambda>y. ga_counter y = ga_counter x) gs \<noteq> 0" using x by (auto simp: guard_count_zero)
    then have "gr_counters r ! ga_counter x \<noteq> 0"
      using guards_ok_count [OF ok guards_ok_guard [OF ok x(1)]] by auto
    then show ?thesis by (simp add: storage e retire_entry_def retires_def storage_in_flight_def)
  qed
  have "storage_of ?r i \<noteq> Some (Live g (ga_counter x))" if "x \<in> set gs" "ga_role x \<noteq> Ordinary" for x i g
    using shrink guards_ok_other [OF ok that] by blast
  then show ?thesis
    by (intro guards_okI)
      (use keep guards_ok_address [OF ok shrink] guards_ok_inj [OF ok shrink shrink] guards_ok_count [OF ok]
        guards_ok_guard [OF ok] in auto)
qed

section \<open>The state machine\<close>

type_synonym machine = "generation_registry \<times> generation_admission list"

text \<open>One call of an operation, or the drop of an outstanding guard.\<close>

inductive registry_step :: "(bytes \<Rightarrow> bytes) \<Rightarrow> machine \<Rightarrow> machine \<Rightarrow> bool" for h where
  suspend: "registry_step h (r, gs) (suspend r, gs)"
| admissible: "GenerationRegistry_admissible_job_ids r now = (x, r') \<Longrightarrow> registry_step h (r, gs) (r', gs)"
| current: "current_generation r now = (x, r') \<Longrightarrow> registry_step h (r, gs) (r', gs)"
| recovery: "winner_recovery_job_ids r now = (x, r') \<Longrightarrow> registry_step h (r, gs) (r', gs)"
| snapshot: "apply_snapshot r q c rs anchor = (x, r') \<Longrightarrow> registry_step h (r, gs) (r', gs)"
| event: "apply_event_at h r event anchor policy = (x, r') \<Longrightarrow> registry_step h (r, gs) (r', gs)"
| admit: "begin_admission r i now = (Ok x, r') \<Longrightarrow> registry_step h (r, gs) (r', x # gs)"
| refuse: "begin_admission r i now = (Err e, r') \<Longrightarrow> registry_step h (r, gs) (r', gs)"
| candidate: "begin_zcash_candidate h r i nonce solution now role allow = (Ok x, r') \<Longrightarrow> role \<noteq> Ordinary \<Longrightarrow>
    registry_step h (r, gs) (r', x # gs)"
| no_candidate: "begin_zcash_candidate h r i nonce solution now role allow = (Err e, r') \<Longrightarrow> registry_step h (r, gs) (r', gs)"
| collect: "collect_retired r now = (x, r') \<Longrightarrow> registry_step h (r, gs) (r', gs)"
| drop: "x \<in> set gs \<Longrightarrow> registry_step h (r, gs) (drop_admission r x, remove1 x gs)"

definition registry_start :: "machine \<Rightarrow> bool" where
  "registry_start m \<longleftrightarrow> (\<exists>a b c. GenerationRegistryConfig_new a b = Ok c \<and> m = (GenerationRegistry_new c, []))"

definition machine_ok :: "machine \<Rightarrow> bool" where
  "machine_ok m \<longleftrightarrow> wf_registry (fst m) \<and> guards_ok (fst m) (snd m)"

definition machine_le :: "machine \<Rightarrow> machine \<Rightarrow> bool" where
  "machine_le m m' \<longleftrightarrow> registry_le (fst m) (fst m')"

lemma start_ok: "registry_start m \<Longrightarrow> machine_ok m"
  by (auto simp: registry_start_def machine_ok_def GenerationRegistry_new_def wf_registry_def core_registry_def
      wf_entries_def wf_recovery_def wf_roles_def wf_sync_def roles_def accepting_ids_def guards_ok_def storage_of_def)

lemma ok_extends: "machine_ok (r, gs) \<Longrightarrow> wf_registry r' \<Longrightarrow> extends r r' \<Longrightarrow> machine_ok (r', gs)"
  by (auto simp: machine_ok_def intro: guards_ok_extends)

lemma prune_wf: "wf_registry r \<Longrightarrow> wf_registry (prune_winner_recovery r now)"
  by (auto simp: wf_registry_def prune_core split: option.splits)

lemma prune_le: "registry_le r (prune_winner_recovery r now)"
  by (simp add: registry_le_def)

lemma counters_wf [simp]: "wf_registry (r\<lparr>gr_counters := cs\<rparr>) = wf_registry r"
  by (cases "gr_last_monotonic_ms r") (simp_all add: wf_registry_def)

lemma counters_le [simp]: "registry_le r (r'\<lparr>gr_counters := cs\<rparr>) = registry_le r r'"
  by (simp add: registry_le_def)

lemma advance_ok:
  assumes "advance_clock r now = (x, r')" "machine_ok (r, gs)"
  shows "machine_ok (r', gs) \<and> registry_le r r'"
  using assms advance_clock_wf [OF assms(1)] advance_clock_extends [OF assms(1)] advance_clock_le [OF assms(1)]
  by (auto simp: machine_ok_def intro: guards_ok_extends)

lemma prune_ok:
  assumes "machine_ok (r, gs)"
  shows "machine_ok (prune_winner_recovery r now, gs)"
  by (rule ok_extends [OF assms]) (use assms in \<open>auto simp: machine_ok_def prune_wf intro: extends_same\<close>)

text \<open>The read-only queries advance the clock and may prune the recovery list.\<close>

lemma query_cases:
  assumes "GenerationRegistry_admissible_job_ids r now = (x, r') \<or> current_generation r now = (y, r') \<or>
    winner_recovery_job_ids r now = (z, r')"
  shows "\<exists>u r1. advance_clock r now = (u, r1) \<and> (r' = r1 \<or> r' = prune_winner_recovery r1 now)"
  using assms
  by (elim disjE)
    (auto simp: GenerationRegistry_admissible_job_ids_def current_generation_def winner_recovery_job_ids_def Let_def
      split: prod.splits result.splits if_splits option.splits)

lemma advance_prune_ok:
  assumes "advance_clock r now = (u, r1)" "r' = r1 \<or> r' = prune_winner_recovery r1 now" "machine_ok (r, gs)"
  shows "machine_ok (r', gs) \<and> registry_le r r'"
  using assms(2) advance_ok [OF assms(1,3)] prune_ok [of r1 gs now] prune_le [of r1 now] registry_le_trans [of r r1] by auto

lemma entry_of_ok: "wf_registry r \<Longrightarrow> map_of (gr_entries r) i = Some e \<Longrightarrow> wf_entry i e"
  by (simp add: wf_registry_def core_registry_def wf_entries_def)

lemma admit_ok:
  assumes "begin_admission r i now = (Ok x, r')" "machine_ok (r, gs)"
  shows "machine_ok (r', x # gs) \<and> registry_le r r'"
proof -
  from assms(1) obtain r1 e g a c where r1: "advance_clock r now = (Ok (), r1)" and e: "map_of (gr_entries r1) i = Some e"
    "re_storage e = Live g a" "unat c = unat (gr_counters r1 ! a) + 1"
    and x: "x = \<lparr>ga_generation = g, ga_counter = a, ga_role = Ordinary\<rparr>" "r' = r1\<lparr>gr_counters := (gr_counters r1)[a := c]\<rparr>"
    by (auto simp: begin_admission_Ok)
  note ok = advance_ok [OF r1 assms(2)]
  then have "wf_entry i e" using e(1) by (auto simp: machine_ok_def intro: entry_of_ok)
  then have "bg_id g = i" using e(2) by (simp add: wf_entry_def)
  moreover have "storage_of r1 i = Some (Live g a)" using e by (simp add: storage_of_def)
  ultimately show ?thesis using ok e(3) unfolding x by (simp add: machine_ok_def begin_guards)
qed

lemma candidate_step_ok:
  assumes "begin_zcash_candidate h r i nonce solution now role allow = (Ok x, r')" "role \<noteq> Ordinary" "machine_ok (r, gs)"
  shows "machine_ok (r', x # gs) \<and> registry_le r r'"
proof -
  from assms(1) obtain r1 where r1: "advance_clock r now = (Ok (), r1)"
    and x: "ga_counter x = length (gr_counters r1)" "ga_role x = role"
      "r' = (prune_winner_recovery r1 now)\<lparr>gr_counters := gr_counters r1 @ [1]\<rparr>"
    by (auto simp: begin_zcash_candidate_Ok)
  have ok: "machine_ok (prune_winner_recovery r1 now, gs)" "registry_le r (prune_winner_recovery r1 now)"
    using advance_prune_ok [OF r1 _ assms(3)] by blast+
  then have "guards_ok r' (x # gs)"
    using candidate_guards [of "prune_winner_recovery r1 now" gs x] x assms(2) by (simp add: machine_ok_def)
  with ok x show ?thesis by (simp add: machine_ok_def)
qed

lemma collect_ok:
  assumes "collect_retired r now = (x, r')" "machine_ok (r, gs)"
  shows "machine_ok (r', gs) \<and> registry_le r r'"
proof (cases x)
  case (Err e)
  with assms show ?thesis by (auto dest!: collect_retired_Err dest: advance_ok)
next
  case (Ok ids)
  with assms(1) obtain r1 where r1: "advance_clock r now = (Ok (), r1)"
    and r': "r' = r1\<lparr>gr_entries := map_ran (retire_entry r1) (gr_entries r1)\<rparr>" by (auto simp: collect_retired_Ok)
  note ok = advance_ok [OF r1 assms(2)]
  have "entries_le (gr_entries r1) (map_ran (retire_entry r1) (gr_entries r1))"
    by (rule entries_le_map_ran) (simp add: retire_entry_le)
  then have "registry_le r1 r'" by (simp add: registry_le_def r')
  with ok show ?thesis
    unfolding r' by (auto simp: machine_ok_def retire_wf retire_guards intro: registry_le_trans)
qed

lemma step_ok: "registry_step h m m' \<Longrightarrow> machine_ok m \<Longrightarrow> machine_ok m' \<and> machine_le m m'"
proof (induction rule: registry_step.induct)
  case (suspend r gs)
  have "extends r (suspend r)" by (rule extends_same) simp_all
  with suspend show ?case using suspend_wf suspend_le
    by (auto simp: machine_le_def machine_ok_def intro: guards_ok_extends)
next
  case (snapshot r q c rs anchor x r' gs)
  then show ?case using apply_snapshot_wf apply_snapshot_le apply_snapshot_extends
    by (fastforce simp: machine_le_def machine_ok_def intro: guards_ok_extends)
next
  case (event r event anchor policy x r' gs)
  then show ?case using apply_event_at_wf apply_event_at_le apply_event_at_extends
    by (fastforce simp: machine_le_def machine_ok_def intro: guards_ok_extends)
next
  case (drop x gs r)
  then show ?case using drop_guards [of r gs x] by (simp add: machine_ok_def machine_le_def drop_admission_def)
qed (auto simp: machine_le_def dest!: query_cases [OF disjI1] query_cases [OF disjI2, OF disjI1] query_cases [OF disjI2, OF disjI2]
    begin_admission_Err begin_zcash_candidate_Err dest: advance_prune_ok advance_ok admit_ok candidate_step_ok collect_ok)

interpretation registry: monotone_system registry_start "registry_step h" machine_ok machine_le for h
proof
  show "machine_le s t \<Longrightarrow> machine_le t u \<Longrightarrow> machine_le s u" for s t u
    unfolding machine_le_def by (rule registry_le_trans)
qed (auto simp: machine_le_def dest: start_ok step_ok)

end
