(* ===== verification/Client_Config.thy ===== *)
theory Client_Config
  imports Registry_Machine
begin

text \<open>
  Configuration, identities and the monotonic time domain of \<open>crates/wcash-pool-backend-client/src/unix.rs\<close>. A
  \<open>Duration\<close> and an \<open>Instant\<close> are numbers of nanoseconds, a path is its bytes, and the address of an \<open>Arc\<close> stands for
  the pointer that \<open>Arc::ptr_eq\<close> compares.
\<close>

section \<open>Expected identities\<close>

definition DEFAULT_CONNECT_TIMEOUT :: nat where "DEFAULT_CONNECT_TIMEOUT = 5 * 10 ^ 9"
definition DEFAULT_REQUEST_TIMEOUT :: nat where "DEFAULT_REQUEST_TIMEOUT = 10 * 10 ^ 9"
definition MAX_TIMEOUT :: nat where "MAX_TIMEOUT = 300 * 10 ^ 9"
definition DEFAULT_EVENT_QUEUE_CAPACITY :: nat where "DEFAULT_EVENT_QUEUE_CAPACITY = 1024"
definition MAX_EVENT_QUEUE_CAPACITY :: nat where "MAX_EVENT_QUEUE_CAPACITY = 4096"
definition MAX_SOCKET_PATH_BYTES :: nat where "MAX_SOCKET_PATH_BYTES = 100"

datatype client_config_error =
    EmptySocketPath
  | RelativeSocketPath
  | NonCanonicalSocketPath
  | SocketPathContainsNul
  | SocketPathTooLong nat nat
  | InvalidTimeout string
  | InvalidEventQueueCapacity nat nat
  | ZeroNetworkIdentity string
  | ZeroPayoutCommitment string
  | ZeroShareTargetCeiling
  | DuplicatePersistentIdentity

record expected_backend =
  eb_wcash_genesis :: bytes
  eb_zcash_genesis :: bytes
  eb_chain_id :: u32
  eb_wcash_payout_commitment :: bytes
  eb_zcash_payout_commitment :: bytes
  eb_share_target_ceiling_be :: target_be
  eb_backend_instance :: "uuid option"
  eb_journal_stream :: "uuid option"

definition ExpectedBackend_new ::
  "bytes \<Rightarrow> bytes \<Rightarrow> u32 \<Rightarrow> bytes \<Rightarrow> bytes \<Rightarrow> target_be \<Rightarrow> (client_config_error, expected_backend) result" where
  "ExpectedBackend_new wcash_genesis zcash_genesis chain_id wcash_payout_commitment zcash_payout_commitment share_target_ceiling_be =
     (if FixedHex_is_zero wcash_genesis then Err (ZeroNetworkIdentity ''wcash_genesis'')
      else if FixedHex_is_zero zcash_genesis then Err (ZeroNetworkIdentity ''zcash_genesis'')
      else if chain_id = 0 then Err (ZeroNetworkIdentity ''chain_id'')
      else if FixedHex_is_zero wcash_payout_commitment then Err (ZeroPayoutCommitment ''wcash_payout_commitment'')
      else if FixedHex_is_zero zcash_payout_commitment then Err (ZeroPayoutCommitment ''zcash_payout_commitment'')
      else if TargetBe_is_zero share_target_ceiling_be then Err ZeroShareTargetCeiling
      else Ok \<lparr>eb_wcash_genesis = wcash_genesis, eb_zcash_genesis = zcash_genesis, eb_chain_id = chain_id,
               eb_wcash_payout_commitment = wcash_payout_commitment, eb_zcash_payout_commitment = zcash_payout_commitment,
               eb_share_target_ceiling_be = share_target_ceiling_be, eb_backend_instance = None, eb_journal_stream = None\<rparr>)"

definition with_backend_instance :: "expected_backend \<Rightarrow> uuid \<Rightarrow> expected_backend" where
  "with_backend_instance e i = e\<lparr>eb_backend_instance := Some i\<rparr>"

definition with_journal_stream :: "expected_backend \<Rightarrow> uuid \<Rightarrow> expected_backend" where
  "with_journal_stream e i = e\<lparr>eb_journal_stream := Some i\<rparr>"

section \<open>Socket paths\<close>

text \<open>The standard library's \<open>Path::components\<close> on Unix: empty and \<open>.\<close> segments are dropped, except for a leading
  \<open>.\<close> of a relative path.\<close>

datatype path_component = RootDir | CurDir | ParentDir | NormalComponent string

fun split_path :: "string \<Rightarrow> string \<Rightarrow> string list" where
  "split_path segment [] = [rev segment]"
| "split_path segment (c # cs) = (if c = CHR ''/'' then rev segment # split_path [] cs else split_path (c # segment) cs)"

definition segment_component :: "string \<Rightarrow> path_component list" where
  "segment_component s = (if s = [] \<or> s = ''.'' then [] else if s = ''..'' then [ParentDir] else [NormalComponent s])"

definition is_absolute :: "string \<Rightarrow> bool" where
  "is_absolute path = (path \<noteq> [] \<and> hd path = CHR ''/'')"

definition path_components :: "string \<Rightarrow> path_component list" where
  "path_components path =
     (let segments = split_path [] path
      in (if is_absolute path then [RootDir] else if hd segments = ''.'' then [CurDir] else []) @
         concat (map segment_component segments))"

definition validate_socket_path :: "string \<Rightarrow> (client_config_error, unit) result" where
  "validate_socket_path path =
     (if path = [] then Err EmptySocketPath
      else if \<not> is_absolute path then Err RelativeSocketPath
      else if list_ex (\<lambda>component. component = CurDir \<or> component = ParentDir) (path_components path) then
        Err NonCanonicalSocketPath
      else if CHR 0x00 \<in> set path then Err SocketPathContainsNul
      else if MAX_SOCKET_PATH_BYTES < length path then Err (SocketPathTooLong (length path) MAX_SOCKET_PATH_BYTES)
      else Ok ())"

section \<open>Configuration\<close>

definition client_validate_timeout :: "string \<Rightarrow> nat \<Rightarrow> (client_config_error, unit) result" where
  "client_validate_timeout field duration =
     (if duration = 0 \<or> MAX_TIMEOUT < duration then Err (InvalidTimeout field) else Ok ())"

record backend_client_config =
  cc_socket_path :: string
  cc_expected :: expected_backend
  cc_connect_timeout :: nat
  cc_request_timeout :: nat
  cc_event_queue_capacity :: nat

definition BackendClientConfig_validate :: "backend_client_config \<Rightarrow> (client_config_error, unit) result" where
  "BackendClientConfig_validate c = try_all
     [validate_socket_path (cc_socket_path c),
      client_validate_timeout ''connect_timeout'' (cc_connect_timeout c),
      client_validate_timeout ''request_timeout'' (cc_request_timeout c),
      ensure (1 \<le> cc_event_queue_capacity c \<and> cc_event_queue_capacity c \<le> MAX_EVENT_QUEUE_CAPACITY)
        (InvalidEventQueueCapacity (cc_event_queue_capacity c) MAX_EVENT_QUEUE_CAPACITY),
      ensure (\<not> (eb_backend_instance (cc_expected c) \<noteq> None \<and>
                 eb_backend_instance (cc_expected c) = eb_journal_stream (cc_expected c))) DuplicatePersistentIdentity]"

definition BackendClientConfig_new :: "string \<Rightarrow> expected_backend \<Rightarrow> (client_config_error, backend_client_config) result" where
  "BackendClientConfig_new socket_path expected =
     (let config = \<lparr>cc_socket_path = socket_path, cc_expected = expected, cc_connect_timeout = DEFAULT_CONNECT_TIMEOUT,
                    cc_request_timeout = DEFAULT_REQUEST_TIMEOUT, cc_event_queue_capacity = DEFAULT_EVENT_QUEUE_CAPACITY\<rparr>
      in and_then (BackendClientConfig_validate config) (\<lambda>_. Ok config))"

definition with_timeouts :: "backend_client_config \<Rightarrow> nat \<Rightarrow> nat \<Rightarrow> (client_config_error, backend_client_config) result" where
  "with_timeouts c connect_timeout request_timeout =
     (let c = c\<lparr>cc_connect_timeout := connect_timeout, cc_request_timeout := request_timeout\<rparr>
      in and_then (BackendClientConfig_validate c) (\<lambda>_. Ok c))"

definition with_event_queue_capacity :: "backend_client_config \<Rightarrow> nat \<Rightarrow> (client_config_error, backend_client_config) result" where
  "with_event_queue_capacity c capacity =
     (let c = c\<lparr>cc_event_queue_capacity := capacity\<rparr>
      in and_then (BackendClientConfig_validate c) (\<lambda>_. Ok c))"

text \<open>The check meant to refuse a \<open>.\<close> component cannot: for an absolute path the standard library never reports one.\<close>

lemma dot_component_accepted: "validate_socket_path ''/run/./backend.sock'' = Ok ()"
  by code_simp

section \<open>The monotonic time domain\<close>

type_synonym instant = nat

datatype timeline_error = AnchorPredatesTimeline | TimelineClockMovedBackwards | MillisecondRangeExceeded

datatype monotonic_anchor = MonotonicAnchor (anchor_instant: instant)

record monotonic_timeline =
  mt_origin :: instant

definition instant_ms :: "monotonic_timeline \<Rightarrow> instant \<Rightarrow> (timeline_error, u64) result" where
  "instant_ms timeline i =
     (if i < mt_origin timeline then Err TimelineClockMovedBackwards
      else let millis = (i - mt_origin timeline) div 10 ^ 6
           in if 2 ^ 64 \<le> millis then Err MillisecondRangeExceeded else Ok (of_nat millis))"

text \<open>\<open>now\<close> is the instant the clock shows.\<close>

definition timeline_now_ms :: "monotonic_timeline \<Rightarrow> instant \<Rightarrow> (timeline_error, u64) result" where
  "timeline_now_ms timeline now = instant_ms timeline now"

definition anchor_ms :: "monotonic_timeline \<Rightarrow> monotonic_anchor \<Rightarrow> (timeline_error, u64) result" where
  "anchor_ms timeline anchor =
     (if anchor_instant anchor < mt_origin timeline then Err AnchorPredatesTimeline
      else instant_ms timeline (anchor_instant anchor))"

text \<open>Reading the time domain later never gives a smaller position, and an anchor taken before a reading is not after it.\<close>

lemma instant_ms_mono:
  assumes "instant_ms t i = Ok a" "instant_ms t j = Ok b" "i \<le> j"
  shows "a \<le> b"
proof -
  have "unat a = (i - mt_origin t) div 10 ^ 6" "unat b = (j - mt_origin t) div 10 ^ 6"
    using assms(1,2) by (auto simp: instant_ms_def Let_def unat_of_nat split: if_splits)
  then show ?thesis using assms(3) by (simp add: word_le_nat_alt div_le_mono)
qed

end
