(* ===== verification/Nonce_Allocator.thy ===== *)
theory Nonce_Allocator
  imports Nonce_Profile
begin

unbundle bit_operations_syntax

text \<open>
  \<open>crates/wcash-pool-core/src/nonce.rs\<close>: the allocator of session nonce prefixes. The mutex-protected
  range is part of the state record; every method takes the lock once, so an interleaving of threads
  is a sequence of operations. \<open>poisoned\<close> is the mutex's poison flag.
\<close>

section \<open>Leases, cursors and the allocator\<close>

definition capacity :: "nonce_profile \<Rightarrow> u64" where
  "capacity profile = (case profile of FourByte \<Rightarrow> push_bit 24 1 | EightByte \<Rightarrow> push_bit 56 1)"

datatype nonce_namespace_lease = NonceNamespaceLease (lease_namespace: u8)

datatype nonce_prefix_error =
    ZeroNamespace
  | NamespaceOutOfRange u8
  | Exhausted nonce_profile
  | Poisoned
  | InvalidCursor nonce_profile u64
  | LeaseMismatch u8 u8
  | InvalidReservation u64 u64
  | NonContiguousReservation u64 u64 u64

definition NonceNamespaceLease_new :: "u8 \<Rightarrow> (nonce_prefix_error, nonce_namespace_lease) result" where
  "NonceNamespaceLease_new namespace =
     (if namespace = 0 then Err ZeroNamespace
      else if namespace > 0x7f then Err (NamespaceOutOfRange namespace)
      else Ok (NonceNamespaceLease namespace))"

definition domain_byte :: "nonce_profile \<Rightarrow> nonce_namespace_lease \<Rightarrow> u8" where
  "domain_byte profile lease =
     (case profile of FourByte \<Rightarrow> lease_namespace lease | EightByte \<Rightarrow> 0x80 OR lease_namespace lease)"

record nonce_cursor =
  cursor_profile :: nonce_profile
  cursor_lease :: nonce_namespace_lease
  cursor_next :: u64

definition NonceCursor_new ::
  "nonce_profile \<Rightarrow> nonce_namespace_lease \<Rightarrow> u64 \<Rightarrow> (nonce_prefix_error, nonce_cursor) result" where
  "NonceCursor_new profile lease n =
     (if n > capacity profile then Err (InvalidCursor profile n)
      else Ok \<lparr>cursor_profile = profile, cursor_lease = lease, cursor_next = n\<rparr>)"

record nonce_prefix_allocator =
  na_profile :: nonce_profile
  na_lease :: nonce_namespace_lease
  range_next :: u64
  range_end_exclusive :: u64
  range_poisoned :: bool

definition NoncePrefixAllocator_new :: "nonce_profile \<Rightarrow> nonce_namespace_lease \<Rightarrow> nonce_prefix_allocator" where
  "NoncePrefixAllocator_new profile lease =
     \<lparr>na_profile = profile, na_lease = lease, range_next = 0, range_end_exclusive = capacity profile,
      range_poisoned = False\<rparr>"

definition allocator_restore ::
  "nonce_cursor \<Rightarrow> nonce_namespace_lease \<Rightarrow> (nonce_prefix_error, nonce_prefix_allocator) result" where
  "allocator_restore cursor lease =
     (if cursor_lease cursor \<noteq> lease then
        Err (LeaseMismatch (lease_namespace (cursor_lease cursor)) (lease_namespace lease))
      else Ok \<lparr>na_profile = cursor_profile cursor, na_lease = lease, range_next = cursor_next cursor,
               range_end_exclusive = capacity (cursor_profile cursor), range_poisoned = False\<rparr>)"

definition allocator_restore_reserved ::
  "nonce_cursor \<Rightarrow> nonce_namespace_lease \<Rightarrow> u64 \<Rightarrow> (nonce_prefix_error, nonce_prefix_allocator) result" where
  "allocator_restore_reserved cursor lease end_exclusive =
     (if cursor_lease cursor \<noteq> lease then
        Err (LeaseMismatch (lease_namespace (cursor_lease cursor)) (lease_namespace lease))
      else if end_exclusive \<le> cursor_next cursor \<or> end_exclusive > capacity (cursor_profile cursor) then
        Err (InvalidReservation (cursor_next cursor) end_exclusive)
      else Ok \<lparr>na_profile = cursor_profile cursor, na_lease = lease, range_next = cursor_next cursor,
               range_end_exclusive = end_exclusive, range_poisoned = False\<rparr>)"

definition extend_reserved ::
  "nonce_prefix_allocator \<Rightarrow> u64 \<Rightarrow> u64 \<Rightarrow> (nonce_prefix_error, unit) result \<times> nonce_prefix_allocator" where
  "extend_reserved a start end_exclusive =
     (if range_poisoned a then (Err Poisoned, a)
      else if start \<noteq> range_end_exclusive a \<or> end_exclusive \<le> start \<or> end_exclusive > capacity (na_profile a) then
        (Err (NonContiguousReservation (range_end_exclusive a) start end_exclusive), a)
      else (Ok (), a\<lparr>range_end_exclusive := end_exclusive\<rparr>))"

definition allocator_remaining :: "nonce_prefix_allocator \<Rightarrow> (nonce_prefix_error, u64) result" where
  "allocator_remaining a =
     (if range_poisoned a then Err Poisoned else Ok (saturating_sub (range_end_exclusive a) (range_next a)))"

definition allocate ::
  "nonce_prefix_allocator \<Rightarrow> (nonce_prefix_error, nonce_prefix) result \<times> nonce_prefix_allocator" where
  "allocate a =
     (if range_poisoned a then (Err Poisoned, a)
      else if range_next a \<ge> range_end_exclusive a then (Err (Exhausted (na_profile a)), a)
      else let value = range_next a;
               domain = domain_byte (na_profile a) (na_lease a);
               prefix = (case na_profile a of
                   FourByte \<Rightarrow> let counter = to_le_bytes 4 (ucast value :: u32)
                     in Four [domain, counter ! 0, counter ! 1, counter ! 2]
                 | EightByte \<Rightarrow> let counter = to_le_bytes 8 value
                     in Eight [domain, counter ! 0, counter ! 1, counter ! 2, counter ! 3, counter ! 4,
                               counter ! 5, counter ! 6])
           in (Ok prefix, a\<lparr>range_next := range_next a + 1\<rparr>))"

definition next_cursor :: "nonce_prefix_allocator \<Rightarrow> (nonce_prefix_error, nonce_cursor) result" where
  "next_cursor a =
     (if range_poisoned a then Err Poisoned else NonceCursor_new (na_profile a) (na_lease a) (range_next a))"

section \<open>Sources of numbered identifiers\<close>

text \<open>What the edge relies on when it hands out identifiers: a source issues at most one identifier per
  operation, numbered by its position, and nothing else moves the position.\<close>

fun run_source :: "('s \<Rightarrow> 'op \<Rightarrow> 'p option \<times> 's) \<Rightarrow> 's \<Rightarrow> 'op list \<Rightarrow> 'p list \<times> 's" where
  "run_source step s [] = ([], s)"
| "run_source step s (op # ops) =
     (let (issued, s') = step s op; (ps, s'') = run_source step s' ops
      in ((case issued of None \<Rightarrow> ps | Some p \<Rightarrow> p # ps), s''))"

locale numbered_source =
  fixes step :: "'s \<Rightarrow> 'op \<Rightarrow> 'p option \<times> 's" and inv :: "'s \<Rightarrow> bool"
    and pos :: "'s \<Rightarrow> nat" and owner :: "'s \<Rightarrow> 'k" and rank :: "'p \<Rightarrow> nat" and owner_of :: "'p \<Rightarrow> 'k"
  assumes step_inv: "inv s \<Longrightarrow> step s op = (r, s') \<Longrightarrow> inv s' \<and> owner s' = owner s"
    and step_issue: "inv s \<Longrightarrow> step s op = (Some p, s') \<Longrightarrow> rank p = pos s \<and> owner_of p = owner s \<and> pos s' = pos s + 1"
    and step_quiet: "inv s \<Longrightarrow> step s op = (None, s') \<Longrightarrow> pos s' = pos s"
begin

lemma run_numbers:
  assumes "inv s" "run_source step s ops = (ps, s')"
  shows "map rank ps = [pos s ..< pos s'] \<and> (\<forall>p \<in> set ps. owner_of p = owner s) \<and> inv s' \<and> owner s' = owner s \<and>
    pos s \<le> pos s'"
  using assms
proof (induction ops arbitrary: s ps)
  case (Cons op ops)
  obtain r t where t: "step s op = (r, t)" by (cases "step s op") auto
  obtain qs where qs: "run_source step t ops = (qs, s')" "ps = (case r of None \<Rightarrow> qs | Some p \<Rightarrow> p # qs)"
    using Cons.prems(2) by (auto simp: t split: prod.splits)
  have it: "inv t \<and> owner t = owner s" using step_inv [OF Cons.prems(1) t] .
  with Cons.IH [OF _ qs(1)] have IH: "map rank qs = [pos t ..< pos s'] \<and> (\<forall>p \<in> set qs. owner_of p = owner s) \<and> inv s' \<and>
      owner s' = owner s \<and> pos t \<le> pos s'" by simp
  show ?case
  proof (cases r)
    case None
    then show ?thesis using IH qs(2) step_quiet [OF Cons.prems(1)] t by simp
  next
    case (Some p)
    then show ?thesis using IH qs(2) step_issue [OF Cons.prems(1)] t by (auto simp: upt_conv_Cons)
  qed
qed simp

lemma run_distinct: "inv s \<Longrightarrow> run_source step s ops = (ps, s') \<Longrightarrow> distinct ps"
  by (metis run_numbers distinct_map distinct_upt)

text \<open>Two runs that do not start from overlapping positions of one owner issue disjoint identifiers.\<close>

lemma runs_disjoint:
  assumes "inv s" "run_source step s ops = (ps, s')" "inv t" "run_source step t ops' = (qs, t')"
    and "owner s \<noteq> owner t \<or> pos s' \<le> pos t \<or> pos t' \<le> pos s"
  shows "set ps \<inter> set qs = {}"
proof (rule ccontr)
  assume "set ps \<inter> set qs \<noteq> {}"
  then obtain p where p: "p \<in> set ps" "p \<in> set qs" by auto
  from p have "rank p \<in> set (map rank ps)" "rank p \<in> set (map rank qs)" by auto
  then have "pos s \<le> rank p \<and> rank p < pos s'" "pos t \<le> rank p \<and> rank p < pos t'"
    using run_numbers [OF assms(1,2)] run_numbers [OF assms(3,4)] by auto
  moreover have "owner s = owner t" using run_numbers [OF assms(1,2)] run_numbers [OF assms(3,4)] p by metis
  ultimately show False using assms(5) by linarith
qed

end

section \<open>The allocator is such a source\<close>

datatype nonce_op = Allocate | ExtendReserved u64 u64 | Poison

fun allocator_step :: "nonce_prefix_allocator \<Rightarrow> nonce_op \<Rightarrow> nonce_prefix option \<times> nonce_prefix_allocator" where
  "allocator_step a Allocate =
     (case allocate a of (Ok p, a') \<Rightarrow> (Some p, a') | (Err _, a') \<Rightarrow> (None, a'))"
| "allocator_step a (ExtendReserved start end_exclusive) = (None, snd (extend_reserved a start end_exclusive))"
| "allocator_step a Poison = (None, a\<lparr>range_poisoned := True\<rparr>)"

definition wf_lease :: "nonce_namespace_lease \<Rightarrow> bool" where
  "wf_lease l \<longleftrightarrow> lease_namespace l \<noteq> 0 \<and> lease_namespace l \<le> 0x7f"

definition wf_allocator :: "nonce_prefix_allocator \<Rightarrow> bool" where
  "wf_allocator a \<longleftrightarrow> wf_lease (na_lease a) \<and> range_next a \<le> range_end_exclusive a \<and>
     range_end_exclusive a \<le> capacity (na_profile a)"

definition prefix_counter :: "nonce_prefix \<Rightarrow> nat" where
  "prefix_counter p = le_val (tl (NoncePrefix_as_bytes p))"

definition allocator_owner :: "nonce_prefix_allocator \<Rightarrow> nonce_profile \<times> u8" where
  "allocator_owner a = (na_profile a, domain_byte (na_profile a) (na_lease a))"

definition prefix_owner :: "nonce_prefix \<Rightarrow> nonce_profile \<times> u8" where
  "prefix_owner p = (NoncePrefix_profile p, hd (NoncePrefix_as_bytes p))"

lemma NonceNamespaceLease_new_wf: "NonceNamespaceLease_new n = Ok l \<longleftrightarrow> l = NonceNamespaceLease n \<and> wf_lease l"
  by (auto simp: NonceNamespaceLease_new_def wf_lease_def)

lemma unat_capacity: "unat (capacity p) = (case p of FourByte \<Rightarrow> 2 ^ 24 | EightByte \<Rightarrow> 2 ^ 56)"
  by (cases p) (simp_all add: capacity_def push_bit_eq_mult)

text \<open>The counter bytes of a prefix, as the first bytes of the counter's little-endian form.\<close>

lemma take_to_le_bytes: "k \<le> n \<Longrightarrow> take k (to_le_bytes n w) = to_le_bytes k w"
proof (induction n arbitrary: k w)
  case (Suc n)
  then show ?case by (cases k) auto
qed simp

lemma nths_3: "length xs = 4 \<Longrightarrow> [xs ! 0, xs ! 1, xs ! 2] = take 3 xs"
  by (auto simp: numeral_eq_Suc length_Suc_conv)

lemma nths_7: "length xs = 8 \<Longrightarrow> [xs ! 0, xs ! 1, xs ! 2, xs ! 3, xs ! 4, xs ! 5, xs ! 6] = take 7 xs"
  by (auto simp: numeral_eq_Suc length_Suc_conv)

lemma allocate_Ok:
  assumes "allocate a = (Ok p, a')"
  shows "a' = a\<lparr>range_next := range_next a + 1\<rparr> \<and> \<not> range_poisoned a \<and> range_next a < range_end_exclusive a \<and>
    NoncePrefix_profile p = na_profile a \<and>
    NoncePrefix_as_bytes p = domain_byte (na_profile a) (na_lease a) #
      (case na_profile a of FourByte \<Rightarrow> to_le_bytes 3 (ucast (range_next a) :: u32) | EightByte \<Rightarrow> to_le_bytes 7 (range_next a))"
proof -
  have "[x ! 0, x ! 1, x ! 2] = to_le_bytes 3 (ucast (range_next a) :: u32)"
    if "x = to_le_bytes 4 (ucast (range_next a) :: u32)" for x
    unfolding that by (subst nths_3) (simp_all add: take_to_le_bytes)
  moreover have "[x ! 0, x ! 1, x ! 2, x ! 3, x ! 4, x ! 5, x ! 6] = to_le_bytes 7 (range_next a)"
    if "x = to_le_bytes 8 (range_next a)" for x
    unfolding that by (subst nths_7) (simp_all add: take_to_le_bytes)
  ultimately show ?thesis
    using assms by (auto simp: allocate_def Let_def split: if_splits nonce_profile.splits)
qed

lemma next_below_capacity:
  assumes "wf_allocator a" "range_next a < range_end_exclusive a"
  shows "unat (range_next a) < (case na_profile a of FourByte \<Rightarrow> 2 ^ 24 | EightByte \<Rightarrow> 2 ^ 56)"
    and "unat (range_next a + 1) = unat (range_next a) + 1"
proof -
  have lt: "unat (range_next a) < unat (range_end_exclusive a)" and "unat (range_end_exclusive a) \<le> unat (capacity (na_profile a))"
    using assms by (simp_all add: wf_allocator_def word_less_nat_alt word_le_nat_alt)
  then show "unat (range_next a) < (case na_profile a of FourByte \<Rightarrow> 2 ^ 24 | EightByte \<Rightarrow> 2 ^ 56)"
    by (simp add: unat_capacity)
  have "unat (range_next a) + 1 < 2 ^ 64"
    using lt unat_bound [of "range_end_exclusive a"] by simp
  then show "unat (range_next a + 1) = unat (range_next a) + 1"
    by (subst unat_add_of_less) simp_all
qed

lemma allocate_prefix:
  assumes "wf_allocator a" "allocate a = (Ok p, a')"
  shows "prefix_counter p = unat (range_next a)" and "prefix_owner p = allocator_owner a" and "wf_prefix p"
    and "wf_allocator a'" and "allocator_owner a' = allocator_owner a" and "unat (range_next a') = unat (range_next a) + 1"
proof -
  note ok = allocate_Ok [OF assms(2)]
  then have lt: "range_next a < range_end_exclusive a" by simp
  note bnd = next_below_capacity [OF assms(1) lt]
  show "prefix_counter p = unat (range_next a)"
    using ok bnd(1) by (cases "na_profile a")
      (simp_all add: prefix_counter_def le_val_to_le_bytes unat_ucast_mod)
  show "prefix_owner p = allocator_owner a" "wf_prefix p"
    using ok by (auto simp: prefix_owner_def allocator_owner_def wf_prefix_def split: nonce_profile.splits)
  show "unat (range_next a') = unat (range_next a) + 1" using ok bnd(2) by simp
  moreover have "unat (range_next a) + 1 \<le> unat (range_end_exclusive a)" using lt by (simp add: word_less_nat_alt)
  ultimately show "wf_allocator a'" using ok assms(1) by (simp add: wf_allocator_def word_le_nat_alt)
  show "allocator_owner a' = allocator_owner a" using ok by (simp add: allocator_owner_def)
qed

lemma allocate_Err: "allocate a = (Err e, a') \<Longrightarrow> a' = a \<and> (e = Poisoned \<and> range_poisoned a \<or>
    e = Exhausted (na_profile a) \<and> range_end_exclusive a \<le> range_next a)"
  by (auto simp: allocate_def Let_def split: if_splits)

lemma extend_reserved_facts:
  assumes "wf_allocator a" "extend_reserved a start e = (r, a')"
  shows "wf_allocator a' \<and> allocator_owner a' = allocator_owner a \<and> range_next a' = range_next a"
  using assms by (auto simp: extend_reserved_def wf_allocator_def allocator_owner_def split: if_splits)

interpretation allocator: numbered_source allocator_step wf_allocator "\<lambda>a. unat (range_next a)" allocator_owner
  prefix_counter prefix_owner
proof
  fix a op r a' p
  assume wf: "wf_allocator a"
  show "wf_allocator a' \<and> allocator_owner a' = allocator_owner a" if "allocator_step a op = (r, a')"
  proof (cases op)
    case Allocate
    with that show ?thesis
      using allocate_prefix(4,5) [OF wf] allocate_Err wf by (auto split: prod.splits result.splits)
  next
    case (ExtendReserved x y)
    with that show ?thesis using extend_reserved_facts [OF wf, of x y] by (cases "extend_reserved a x y") auto
  next
    case Poison
    with that wf show ?thesis by (auto simp: wf_allocator_def allocator_owner_def)
  qed
  show "prefix_counter p = unat (range_next a) \<and> prefix_owner p = allocator_owner a \<and>
      unat (range_next a') = unat (range_next a) + 1" if "allocator_step a op = (Some p, a')"
    using that allocate_prefix [OF wf] by (cases op) (auto split: prod.splits result.splits)
  show "unat (range_next a') = unat (range_next a)" if "allocator_step a op = (None, a')"
    using that allocate_Err extend_reserved_facts [OF wf prod.collapse [symmetric]]
    by (cases op) (auto split: prod.splits result.splits)
qed

lemma run_wf_prefix:
  assumes "wf_allocator a" "run_source allocator_step a ops = (ps, a')"
  shows "\<forall>p \<in> set ps. wf_prefix p"
  using assms
proof (induction ops arbitrary: a ps)
  case (Cons op ops)
  obtain r b where b: "allocator_step a op = (r, b)" by (cases "allocator_step a op") auto
  obtain qs where qs: "run_source allocator_step b ops = (qs, a')" "ps = (case r of None \<Rightarrow> qs | Some p \<Rightarrow> p # qs)"
    using Cons.prems(2) by (auto simp: b split: prod.splits)
  have "\<forall>p \<in> set qs. wf_prefix p" using Cons.IH [OF _ qs(1)] allocator.step_inv [OF Cons.prems(1) b] by simp
  moreover have "wf_prefix p" if "r = Some p" for p
    using that b allocate_prefix(3) [OF Cons.prems(1)] by (cases op) (auto split: prod.splits result.splits)
  ultimately show ?case using qs(2) by (auto split: option.splits)
qed simp

text \<open>The first byte of a prefix names its profile and namespace.\<close>

lemma high_bit_clear: "n \<le> 0x7f \<Longrightarrow> (0x80 :: u8) AND n = 0"
proof -
  assume "n \<le> 0x7f"
  then have "unat n div 2 ^ 7 = 0" by (simp add: word_le_nat_alt)
  then have "\<not> bit (unat n) 7" by (simp add: bit_iff_odd)
  then have "\<not> bit n 7" by (simp add: bit_unsigned_iff)
  then have "n AND 2 ^ 7 = 0" by (simp only: and_exp_eq_0_iff_not_bit not_False_eq_True)
  then show ?thesis by (simp add: and.commute)
qed

lemma unat_or_high_bit: "n \<le> 0x7f \<Longrightarrow> unat (0x80 OR n :: u8) = 128 + unat n"
proof -
  assume n: "n \<le> 0x7f"
  then have "(0x80 :: u8) OR n = 0x80 + n" by (simp add: disjunctive_add_eq_or high_bit_clear)
  moreover have "unat n \<le> 127" using n by (simp add: word_le_nat_alt)
  ultimately show ?thesis by (simp add: unat_add_of_less)
qed

lemma domain_byte_inj:
  assumes "wf_lease l" "wf_lease m" "domain_byte p l = domain_byte q m"
  shows "p = q \<and> l = m"
proof -
  have "unat (lease_namespace l) \<le> 127" "unat (lease_namespace m) \<le> 127"
    using assms by (simp_all add: wf_lease_def word_le_nat_alt)
  moreover have "unat (domain_byte p l) = unat (domain_byte q m)" using assms(3) by simp
  ultimately have "p = q \<and> unat (lease_namespace l) = unat (lease_namespace m)"
    using assms(1,2) by (auto simp: domain_byte_def wf_lease_def unat_or_high_bit split: nonce_profile.splits)
  then show ?thesis by (cases l; cases m) (simp add: word_unat_eq_iff)
qed

lemma NoncePrefixAllocator_new_wf: "wf_lease l \<Longrightarrow> wf_allocator (NoncePrefixAllocator_new p l)"
  by (simp add: wf_allocator_def NoncePrefixAllocator_new_def)

lemma next_cursor_Ok:
  "next_cursor a = Ok c \<Longrightarrow> cursor_profile c = na_profile a \<and> cursor_lease c = na_lease a \<and> cursor_next c = range_next a"
  by (auto simp: next_cursor_def NonceCursor_new_def split: if_splits)

lemma restored_allocator:
  assumes "allocator_restore c l = Ok b \<or> allocator_restore_reserved c l e = Ok b"
    and "wf_lease l" "cursor_next c \<le> capacity (cursor_profile c)"
  shows "wf_allocator b" and "na_profile b = cursor_profile c" and "na_lease b = cursor_lease c"
    and "range_next b = cursor_next c"
  using assms
  by (auto simp: allocator_restore_def allocator_restore_reserved_def wf_allocator_def not_le split: if_splits)

lemma issued_header_nonce:
  assumes "wf_allocator a" "run_source allocator_step a ops = (ps, a')" "p \<in> set ps" "join_nonce p s = Ok n"
  shows "hd n = domain_byte (na_profile a) (na_lease a)" and "NoncePrefix_profile p = na_profile a" and "wf_prefix p"
proof -
  have o: "prefix_owner p = allocator_owner a" using allocator.run_numbers [OF assms(1,2)] assms(3) by blast
  show wf: "wf_prefix p" using run_wf_prefix [OF assms(1,2)] assms(3) by blast
  from o show "NoncePrefix_profile p = na_profile a" by (simp add: prefix_owner_def allocator_owner_def)
  from wf have "NoncePrefix_as_bytes p \<noteq> []" by (cases p) (auto simp: wf_prefix_def)
  with assms(4) o show "hd n = domain_byte (na_profile a) (na_lease a)"
    by (simp add: join_nonce_Ok prefix_owner_def allocator_owner_def)
qed

section \<open>Properties\<close>

text \<open>C2 An allocator issues each counter of its range once and in order, whatever the interleaving of
  allocations, replenishments and lock poisoning: the issued prefixes are distinct, their counters
  are exactly the consecutive values between the two cursors, and the cursor stays inside the range.\<close>

theorem allocator_issues_consecutive:
  assumes "wf_allocator a" "run_source allocator_step a ops = (ps, a')"
  shows "distinct ps \<and> map prefix_counter ps = [unat (range_next a) ..< unat (range_next a')] \<and>
    (\<forall>p \<in> set ps. wf_prefix p \<and> prefix_owner p = allocator_owner a) \<and>
    range_next a' \<le> range_end_exclusive a' \<and> range_end_exclusive a' \<le> capacity (na_profile a')"
  using allocator.run_distinct [OF assms] allocator.run_numbers [OF assms] run_wf_prefix [OF assms]
  by (auto simp: wf_allocator_def)

theorem allocator_issues_consecutive_witness:
  "\<exists>ps a'. run_source allocator_step (NoncePrefixAllocator_new FourByte (NonceNamespaceLease 5))
       [Allocate, ExtendReserved 3 9, Allocate] = (ps, a') \<and>
     ps = [Four [5, 0, 0, 0], Four [5, 1, 0, 0]] \<and> map prefix_counter ps = [0, 1] \<and> distinct ps"
proof -
  let ?a = "NoncePrefixAllocator_new FourByte (NonceNamespaceLease 5)"
  have wf: "wf_allocator ?a" by (rule NoncePrefixAllocator_new_wf) (simp add: wf_lease_def)
  have run: "run_source allocator_step ?a [Allocate, ExtendReserved 3 9, Allocate] =
      ([Four [5, 0, 0, 0], Four [5, 1, 0, 0]], ?a\<lparr>range_next := 2\<rparr>)" by code_simp
  show ?thesis using allocator_issues_consecutive [OF wf run] run by (simp add: prefix_counter_def)
qed

text \<open>C3 Two sessions never mine the same header nonce: prefixes from two runs whose allocators differ in
  profile or namespace, or whose reserved ranges are fenced from one another, give different 32-byte
  nonces whatever the miners' suffixes.\<close>

theorem header_nonces_disjoint:
  assumes "wf_allocator a" "run_source allocator_step a ops = (ps, a')"
    and "wf_allocator b" "run_source allocator_step b ops' = (qs, b')"
    and "na_profile a \<noteq> na_profile b \<or> na_lease a \<noteq> na_lease b \<or> range_end_exclusive a' \<le> range_next b"
    and "p \<in> set ps" "q \<in> set qs" "join_nonce p s = Ok m" "join_nonce q t = Ok n"
  shows "m \<noteq> n"
proof
  assume mn: "m = n"
  note p = issued_header_nonce [OF assms(1,2,6,8)] and q = issued_header_nonce [OF assms(3,4,7,9)]
  have leases: "wf_lease (na_lease a)" "wf_lease (na_lease b)" using assms(1,3) by (simp_all add: wf_allocator_def)
  have same: "na_profile a = na_profile b \<and> na_lease a = na_lease b"
    by (rule domain_byte_inj [OF leases]) (use p q mn in simp)
  have "p = q" using join_nonce_inj assms(8,9) p q mn same by metis
  moreover have "range_next a' \<le> range_next b"
    using allocator.run_numbers [OF assms(1,2)] assms(5) same by (auto simp: wf_allocator_def)
  then have "set ps \<inter> set qs = {}"
    by (intro allocator.runs_disjoint [OF assms(1-4)]) (simp add: word_le_nat_alt)
  ultimately show False using assms(6,7) by blast
qed

theorem header_nonces_disjoint_witness:
  "\<exists>m n. join_nonce (Four [5, 0, 0, 0]) (TwentyEight (replicate 28 0)) = Ok m \<and>
     join_nonce (Eight [133, 0, 0, 0, 0, 0, 0, 0]) (TwentyFour (replicate 24 0)) = Ok n \<and> m \<noteq> n"
proof -
  let ?a = "NoncePrefixAllocator_new FourByte (NonceNamespaceLease 5)"
  let ?b = "NoncePrefixAllocator_new EightByte (NonceNamespaceLease 5)"
  have wf: "wf_allocator ?a" "wf_allocator ?b" by (rule NoncePrefixAllocator_new_wf, simp add: wf_lease_def)+
  have a: "run_source allocator_step ?a [Allocate] = ([Four [5, 0, 0, 0]], ?a\<lparr>range_next := 1\<rparr>)" by code_simp
  have b: "run_source allocator_step ?b [Allocate] = ([Eight [133, 0, 0, 0, 0, 0, 0, 0]], ?b\<lparr>range_next := 1\<rparr>)" by code_simp
  have "na_profile ?a \<noteq> na_profile ?b" by code_simp
  then show ?thesis
    using header_nonces_disjoint [OF wf(1) a wf(2) b, of "Four [5, 0, 0, 0]" "Eight [133, 0, 0, 0, 0, 0, 0, 0]"
        "TwentyEight (replicate 28 0)" _ "TwentyFour (replicate 24 0)"] by simp
qed

text \<open>C33 A restart from the persisted cursor never reissues: after any run, restoring the allocator's
  own cursor (whole namespace or a reserved sub-range) and running on gives only new prefixes, so all
  header nonces of the two runs are pairwise different.\<close>

theorem restart_never_reissues:
  assumes "wf_allocator a" "run_source allocator_step a ops = (ps, a')" "next_cursor a' = Ok cursor"
    and "allocator_restore cursor lease = Ok b \<or> allocator_restore_reserved cursor lease e = Ok b"
    and "run_source allocator_step b ops' = (qs, b')"
  shows "distinct (ps @ qs) \<and> (\<forall>i < length (ps @ qs). \<forall>j < length (ps @ qs). \<forall>s t n. i \<noteq> j \<longrightarrow>
    \<not> (join_nonce ((ps @ qs) ! i) s = Ok n \<and> join_nonce ((ps @ qs) ! j) t = Ok n))"
proof -
  note run = allocator.run_numbers [OF assms(1,2)]
  have lease: "lease = cursor_lease cursor"
    using assms(4) by (auto simp: allocator_restore_def allocator_restore_reserved_def split: if_splits)
  have owner: "cursor_profile cursor = na_profile a'" "cursor_lease cursor = na_lease a'" "cursor_next cursor = range_next a'"
    using next_cursor_Ok [OF assms(3)] by simp_all
  have "cursor_next cursor \<le> capacity (cursor_profile cursor)" "wf_lease lease"
    using run owner lease by (auto simp: wf_allocator_def)
  note b = restored_allocator [OF assms(4) this(2,1)]
  note run' = allocator.run_numbers [OF b(1) assms(5)]
  have "set ps \<inter> set qs = {}"
    by (rule allocator.runs_disjoint [OF assms(1,2) b(1) assms(5)]) (use b owner in simp)
  then have d: "distinct (ps @ qs)"
    using allocator.run_distinct [OF assms(1,2)] allocator.run_distinct [OF b(1) assms(5)] by simp
  have profile: "NoncePrefix_profile p = na_profile a'" "wf_prefix p" if "p \<in> set (ps @ qs)" for p
    using that run run' b owner run_wf_prefix [OF assms(1,2)] run_wf_prefix [OF b(1) assms(5)]
    by (auto simp: prefix_owner_def allocator_owner_def)
  have "(ps @ qs) ! i = (ps @ qs) ! j"
    if "i < length (ps @ qs)" "j < length (ps @ qs)" "join_nonce ((ps @ qs) ! i) s = Ok n" "join_nonce ((ps @ qs) ! j) t = Ok n"
    for i j s t n
    using join_nonce_inj [OF that(3,4)] profile [OF nth_mem [OF that(1)]] profile [OF nth_mem [OF that(2)]] by simp
  with d show ?thesis by (metis nth_eq_iff_index_eq)
qed

theorem restart_never_reissues_witness:
  "\<exists>cursor b. next_cursor ((NoncePrefixAllocator_new FourByte (NonceNamespaceLease 5))\<lparr>range_next := 1\<rparr>) = Ok cursor \<and>
     allocator_restore_reserved cursor (NonceNamespaceLease 5) 3 = Ok b \<and>
     run_source allocator_step b [Allocate] = ([Four [5, 1, 0, 0]], b\<lparr>range_next := 2\<rparr>) \<and>
     distinct ([Four [5, 0, 0, 0]] @ [Four [5, 1, 0, 0]])"
proof -
  let ?a = "NoncePrefixAllocator_new FourByte (NonceNamespaceLease 5)"
  let ?c = "\<lparr>cursor_profile = FourByte, cursor_lease = NonceNamespaceLease 5, cursor_next = 1\<rparr>"
  let ?b = "\<lparr>na_profile = FourByte, na_lease = NonceNamespaceLease 5, range_next = 1, range_end_exclusive = 3,
    range_poisoned = False\<rparr>"
  have wf: "wf_allocator ?a" by (rule NoncePrefixAllocator_new_wf) (simp add: wf_lease_def)
  have a: "run_source allocator_step ?a [Allocate] = ([Four [5, 0, 0, 0]], ?a\<lparr>range_next := 1\<rparr>)" by code_simp
  have c: "next_cursor (?a\<lparr>range_next := 1\<rparr>) = Ok ?c" by code_simp
  have r: "allocator_restore_reserved ?c (NonceNamespaceLease 5) 3 = Ok ?b" by code_simp
  have b: "run_source allocator_step ?b [Allocate] = ([Four [5, 1, 0, 0]], ?b\<lparr>range_next := 2\<rparr>)" by code_simp
  show ?thesis using restart_never_reissues [OF wf a c disjI2 [OF r] b] a c r b by blast
qed

lemma allocate_succeeds:
  assumes "\<not> range_poisoned a" "range_next a < range_end_exclusive a"
  obtains p where "allocate a = (Ok p, a\<lparr>range_next := range_next a + 1\<rparr>)"
  using assms by (auto simp: allocate_def Let_def not_le [symmetric])

lemma allocate_count:
  assumes "wf_allocator a" "\<not> range_poisoned a"
  shows "length (fst (run_source allocator_step a (replicate k Allocate))) =
    min k (unat (range_end_exclusive a) - unat (range_next a))"
  using assms
proof (induction k arbitrary: a)
  case (Suc k)
  show ?case
  proof (cases "range_next a < range_end_exclusive a")
    case True
    let ?a = "a\<lparr>range_next := range_next a + 1\<rparr>"
    obtain p where p: "allocate a = (Ok p, ?a)" using allocate_succeeds [OF Suc.prems(2) True] .
    note a' = allocate_prefix(4,6) [OF Suc.prems(1) p]
    have "unat (range_next a) < unat (range_end_exclusive a)" using True by (simp add: word_less_nat_alt)
    then show ?thesis using Suc.IH [OF a'(1)] a'(2) Suc.prems(2) p by (simp add: split_beta)
  next
    case False
    then have full: "allocate a = (Err (Exhausted (na_profile a)), a)" and "unat (range_end_exclusive a) \<le> unat (range_next a)"
      using Suc.prems(2) by (simp_all add: allocate_def not_less word_le_nat_alt)
    then show ?thesis using Suc.IH [OF Suc.prems] by (simp add: split_beta)
  qed
qed simp

text \<open>The remaining count is exact: an unpoisoned allocator that reports \<open>r\<close> remaining prefixes serves
  exactly the first \<open>r\<close> of any number of further allocations and reports exhaustion for the rest.\<close>

lemma remaining_is_exact:
  assumes "wf_allocator a" "allocator_remaining a = Ok r"
  shows "length (fst (run_source allocator_step a (replicate k Allocate))) = min k (unat r)"
proof -
  have "\<not> range_poisoned a" "unat r = unat (range_end_exclusive a) - unat (range_next a)"
    using assms(2) by (auto simp: allocator_remaining_def unat_saturating_sub split: if_splits)
  then show ?thesis using allocate_count [OF assms(1)] by simp
qed

end
