(* ===== verification/Mining_Session.thy ===== *)
theory Mining_Session
  imports Nonce_Allocator Registry_Machine
begin

text \<open>
  \<open>crates/wcash-pool-core/src/session.rs\<close>: one authenticated worker per connection, the jobs announced to it and
  the preparation of its submissions against the generation registry. Methods that borrow the registry or the
  allocator mutably return its new state. A guard that goes out of scope on an error path is dropped.
\<close>

section \<open>Workers\<close>

datatype session_state = Connected | Subscribed | Authorized | SessionClosed

datatype session_error =
    NilSessionId
  | NilIdentity
  | InvalidCanonicalLogin
  | InvalidAnnouncedJobLimit
  | UnexpectedState session_state session_state
  | IdentitySwitch
  | MissingIdentity
  | MissingNoncePrefix
  | LoginMismatch
  | JobNotAnnounced job_id
  | AnnouncedJobConflict job_id
  | AnnouncedJobCapacity nat
  | RegistryAssignmentMismatch job_id
  | HeaderTimeMismatch job_id
  | NonceProfileMismatch
  | SessionNonce nonce_prefix_error
  | SessionRegistry job_registry_error
  | SessionAssignment job_assignment_error

record authenticated_worker =
  aw_account_id :: uuid
  aw_worker_id :: uuid
  aw_canonical_login :: string
  aw_attribution_login :: string

definition AuthenticatedWorker_new ::
  "uuid \<Rightarrow> uuid \<Rightarrow> string \<Rightarrow> (session_error, authenticated_worker) result" where
  "AuthenticatedWorker_new account_id worker_id canonical_login =
     (if uuid_is_nil account_id \<or> uuid_is_nil worker_id then Err NilIdentity
      else if canonical_login = [] \<or> 128 < length canonical_login \<or>
        \<not> list_all (\<lambda>c. is_ascii_alphanumeric c \<or> c \<in> {CHR ''-'', CHR ''_'', CHR ''.'', CHR '':''}) canonical_login
      then Err InvalidCanonicalLogin
      else Ok \<lparr>aw_account_id = account_id, aw_worker_id = worker_id,
               aw_canonical_login = canonical_login, aw_attribution_login = canonical_login\<rparr>)"

definition with_submission_login ::
  "authenticated_worker \<Rightarrow> string \<Rightarrow> (session_error, authenticated_worker) result" where
  "with_submission_login w login =
     and_then (AuthenticatedWorker_new (aw_account_id w) (aw_worker_id w) login) (\<lambda>validated.
     Ok (w\<lparr>aw_canonical_login := aw_canonical_login validated\<rparr>))"

definition backend_identity :: "authenticated_worker \<Rightarrow> worker_identity" where
  "backend_identity w = \<lparr>wi_account_id = aw_account_id w, wi_worker_id = aw_worker_id w, wi_label = aw_attribution_login w\<rparr>"

section \<open>Sessions\<close>

record mining_session =
  ms_id :: uuid
  ms_state :: session_state
  ms_nonce_prefix :: "nonce_prefix option"
  ms_worker :: "authenticated_worker option"
  ms_announced_jobs :: "job_assignment list"
  ms_winner_recovery_jobs :: "job_assignment list"
  ms_maximum_announced_jobs :: nat

definition MiningSession_new :: "uuid \<Rightarrow> nat \<Rightarrow> (session_error, mining_session) result" where
  "MiningSession_new sid maximum_announced_jobs =
     (if uuid_is_nil sid then Err NilSessionId
      else if maximum_announced_jobs = 0 then Err InvalidAnnouncedJobLimit
      else Ok \<lparr>ms_id = sid, ms_state = Connected, ms_nonce_prefix = None, ms_worker = None,
               ms_announced_jobs = [], ms_winner_recovery_jobs = [],
               ms_maximum_announced_jobs = maximum_announced_jobs\<rparr>)"

definition session_require :: "mining_session \<Rightarrow> session_state \<Rightarrow> (session_error, unit) result" where
  "session_require s required = ensure (ms_state s = required) (UnexpectedState required (ms_state s))"

definition close_session :: "mining_session \<Rightarrow> mining_session" where
  "close_session s = s\<lparr>ms_state := SessionClosed, ms_worker := None, ms_nonce_prefix := None,
     ms_announced_jobs := [], ms_winner_recovery_jobs := []\<rparr>"

definition subscribe ::
  "mining_session \<Rightarrow> nonce_prefix_allocator \<Rightarrow>
     (session_error, nonce_prefix) result \<times> mining_session \<times> nonce_prefix_allocator" where
  "subscribe s allocator =
     (case session_require s Connected of
        Err e \<Rightarrow> (Err e, s, allocator)
      | Ok _ \<Rightarrow>
          (case allocate allocator of
             (Err e, allocator) \<Rightarrow> (Err (SessionNonce e), s, allocator)
           | (Ok prefix, allocator) \<Rightarrow>
               (Ok prefix, s\<lparr>ms_nonce_prefix := Some prefix, ms_state := Subscribed\<rparr>, allocator)))"

definition complete_authorization ::
  "mining_session \<Rightarrow> authenticated_worker \<Rightarrow> (session_error, unit) result \<times> mining_session" where
  "complete_authorization s worker =
     (case ms_state s of
        Subscribed \<Rightarrow> (Ok (), s\<lparr>ms_worker := Some worker, ms_state := Authorized\<rparr>)
      | Authorized \<Rightarrow> (if ms_worker s = Some worker then (Ok (), s) else (Err IdentitySwitch, s))
      | actual \<Rightarrow> (Err (UnexpectedState Subscribed actual), s))"

definition reject_authorization :: "mining_session \<Rightarrow> (session_error, unit) result \<times> mining_session" where
  "reject_authorization s =
     (case session_require s Subscribed of Err e \<Rightarrow> (Err e, s) | Ok _ \<Rightarrow> (Ok (), close_session s))"

definition find_assignment :: "mining_session \<Rightarrow> job_id \<Rightarrow> job_assignment option" where
  "find_assignment s i = List.find (\<lambda>a. ja_generation_id a = i) (ms_announced_jobs s @ ms_winner_recovery_jobs s)"

definition announce_job :: "mining_session \<Rightarrow> job_assignment \<Rightarrow> (session_error, unit) result \<times> mining_session" where
  "announce_job s assignment =
     (case session_require s Authorized of
        Err e \<Rightarrow> (Err e, s)
      | Ok _ \<Rightarrow>
          (case find_assignment s (ja_generation_id assignment) of
             Some existing \<Rightarrow>
               (if existing = assignment then Ok () else Err (AnnouncedJobConflict (ja_generation_id assignment)), s)
           | None \<Rightarrow>
               if length (ms_announced_jobs s) = ms_maximum_announced_jobs s then
                 (Err (AnnouncedJobCapacity (ms_maximum_announced_jobs s)), s)
               else (Ok (), s\<lparr>ms_announced_jobs := assignment # ms_announced_jobs s\<rparr>)))"

definition announced_target_binding :: "mining_session \<Rightarrow> job_id \<Rightarrow> target_binding option" where
  "announced_target_binding s i = map_option ja_target (find_assignment s i)"

definition remove_announced_job :: "mining_session \<Rightarrow> job_id \<Rightarrow> bool \<times> mining_session" where
  "remove_announced_job s i =
     (let announced = filter (\<lambda>a. ja_generation_id a \<noteq> i) (ms_announced_jobs s);
          recovery = filter (\<lambda>a. ja_generation_id a \<noteq> i) (ms_winner_recovery_jobs s)
      in (length announced \<noteq> length (ms_announced_jobs s) \<or> length recovery \<noteq> length (ms_winner_recovery_jobs s),
          s\<lparr>ms_announced_jobs := announced, ms_winner_recovery_jobs := recovery\<rparr>))"

text \<open>\<open>VecDeque::remove\<close> at the position of the first match is \<open>remove1\<close> of that assignment; \<open>pop_back\<close> is \<open>butlast\<close>.\<close>

definition retire_announced_job :: "mining_session \<Rightarrow> job_id \<Rightarrow> mining_session" where
  "retire_announced_job s i =
     (case List.find (\<lambda>a. ja_generation_id a = i) (ms_announced_jobs s) of
        None \<Rightarrow> s
      | Some assignment \<Rightarrow>
          (let kept = (if length (ms_winner_recovery_jobs s) = MAX_ZCASH_WINNER_RECOVERY_JOBS
                       then butlast (ms_winner_recovery_jobs s) else ms_winner_recovery_jobs s)
           in s\<lparr>ms_announced_jobs := remove1 assignment (ms_announced_jobs s),
                ms_winner_recovery_jobs := assignment # kept\<rparr>))"

definition retain_winner_recovery_jobs :: "mining_session \<Rightarrow> job_id list \<Rightarrow> mining_session" where
  "retain_winner_recovery_jobs s ids =
     s\<lparr>ms_winner_recovery_jobs := filter (\<lambda>a. ja_generation_id a \<in> set ids) (ms_winner_recovery_jobs s)\<rparr>"

definition notification_write_failed :: "mining_session \<Rightarrow> mining_session" where
  "notification_write_failed s = close_session s"

section \<open>Submissions\<close>

record submission_context =
  sc_session_id :: uuid
  sc_identity :: worker_identity
  sc_target_le :: target_le
  sc_time :: bytes
  sc_nonce :: bytes
  sc_solution :: bytes
  sc_admission :: generation_admission

text \<open>The check of a generation against the session's assignment and the submitted time.\<close>

definition check_generation ::
  "job_id \<Rightarrow> backend_generation \<Rightarrow> job_assignment \<Rightarrow> bytes \<Rightarrow> (session_error, unit) result" where
  "check_generation i generation assignment submitted_time =
     and_then (map_err (\<lambda>_. RegistryAssignmentMismatch i) (JobAssignment_new generation (ja_target assignment))) (\<lambda>_.
     ensure (header_time generation = submitted_time) (HeaderTimeMismatch i))"

text \<open>The retained generation of the registry must pass the same check before a candidate guard is asked for.\<close>

definition check_retained ::
  "generation_registry \<Rightarrow> job_id \<Rightarrow> job_assignment \<Rightarrow> bytes \<Rightarrow> (session_error, unit) result" where
  "check_retained r i assignment submitted_time =
     and_then (ok_or (GenerationRegistry_generation r i) (SessionRegistry (UnknownJob i))) (\<lambda>generation.
     check_generation i generation assignment submitted_time)"

definition obtain_admission ::
  "(bytes \<Rightarrow> bytes) \<Rightarrow> job_id \<Rightarrow> job_assignment \<Rightarrow> bytes \<Rightarrow> bytes \<Rightarrow> bytes \<Rightarrow> generation_registry \<Rightarrow> u64 \<Rightarrow> bool \<Rightarrow>
     (session_error, generation_admission) result \<times> generation_registry" where
  "obtain_admission sha256 i assignment submitted_time nonce solution r now_ms paused_only =
     (if paused_only then
        (case check_retained r i assignment submitted_time of
           Err e \<Rightarrow> (Err e, r)
         | Ok _ \<Rightarrow> (case begin_paused_zcash_candidate sha256 r i nonce solution now_ms of
             (x, r) \<Rightarrow> (map_err SessionRegistry x, r)))
      else (case begin_admission r i now_ms of
          (Ok admission, r) \<Rightarrow> (Ok admission, r)
        | (Err (RegistryStaleJob _), r) \<Rightarrow>
            (case check_retained r i assignment submitted_time of
               Err e \<Rightarrow> (Err e, r)
             | Ok _ \<Rightarrow> (case begin_zcash_winner_recovery sha256 r i nonce solution now_ms of
                 (x, r) \<Rightarrow> (map_err SessionRegistry x, r)))
        | (Err e, r) \<Rightarrow> (Err (SessionRegistry e), r)))"

definition prepare_submission_mode ::
  "(bytes \<Rightarrow> bytes) \<Rightarrow> mining_session \<Rightarrow> string \<Rightarrow> job_id \<Rightarrow> bytes \<Rightarrow> nonce_suffix \<Rightarrow> bytes \<Rightarrow> generation_registry \<Rightarrow> u64 \<Rightarrow>
     bool \<Rightarrow> (session_error, submission_context) result \<times> generation_registry" where
  "prepare_submission_mode sha256 s claimed_login i submitted_time nonce_suffix solution r now_ms paused_only =
     (case and_then (session_require s Authorized) (\<lambda>_.
           and_then (ok_or (ms_worker s) MissingIdentity) (\<lambda>worker.
           and_then (ok_or (ms_nonce_prefix s) MissingNoncePrefix) (\<lambda>prefix.
           and_then (ensure (claimed_login = aw_canonical_login worker) LoginMismatch) (\<lambda>_.
           and_then (ok_or (find_assignment s i) (JobNotAnnounced i)) (\<lambda>assignment.
           and_then (map_err (\<lambda>_. NonceProfileMismatch) (join_nonce prefix nonce_suffix)) (\<lambda>nonce.
           Ok (worker, assignment, nonce))))))) of
        Err e \<Rightarrow> (Err e, r)
      | Ok (worker, assignment, nonce) \<Rightarrow>
          (case obtain_admission sha256 i assignment submitted_time nonce solution r now_ms paused_only of
             (Err e, r) \<Rightarrow> (Err e, r)
           | (Ok admission, r) \<Rightarrow>
               (case check_generation i (ga_generation admission) assignment submitted_time of
                  Err e \<Rightarrow> (Err e, drop_admission r admission)
                | Ok _ \<Rightarrow>
                    (Ok \<lparr>sc_session_id = ms_id s, sc_identity = backend_identity worker,
                         sc_target_le = ShareTarget_to_backend (bd_target (ja_target assignment)),
                         sc_time = submitted_time, sc_nonce = nonce, sc_solution = solution,
                         sc_admission = admission\<rparr>, r))))"

definition prepare_submission where
  "prepare_submission sha256 s claimed_login i submitted_time nonce_suffix solution r now_ms =
     prepare_submission_mode sha256 s claimed_login i submitted_time nonce_suffix solution r now_ms False"

definition prepare_paused_zcash_candidate where
  "prepare_paused_zcash_candidate sha256 s claimed_login i submitted_time nonce_suffix solution r now_ms =
     prepare_submission_mode sha256 s claimed_login i submitted_time nonce_suffix solution r now_ms True"

text \<open>\<open>refilter_zcash_candidate\<close> consumes the context: its old guard is dropped on every path, after the new
  admission was asked for.\<close>

definition refilter_zcash_candidate ::
  "(bytes \<Rightarrow> bytes) \<Rightarrow> submission_context \<Rightarrow> generation_registry \<Rightarrow> u64 \<Rightarrow> bool \<Rightarrow>
     (session_error, submission_context) result \<times> generation_registry" where
  "refilter_zcash_candidate sha256 c r now_ms recovery_only =
     (let old = sc_admission c; i = GenerationAdmission_job_id old;
          candidate =
            (if GenerationAdmission_is_paused_zcash_candidate old \<or>
                (\<not> GenerationAdmission_is_winner_recovery old \<and> recovery_only)
             then begin_paused_zcash_candidate sha256 r i (sc_nonce c) (sc_solution c) now_ms
             else if recovery_only
             then begin_historical_zcash_candidate_during_pause sha256 r i (sc_nonce c) (sc_solution c) now_ms
             else begin_zcash_winner_recovery sha256 r i (sc_nonce c) (sc_solution c) now_ms)
      in case candidate of
        (Err e, r) \<Rightarrow> (Err (SessionRegistry e), drop_admission r old)
      | (Ok admission, r) \<Rightarrow>
          if bg_descriptor (ga_generation admission) \<noteq> bg_descriptor (ga_generation old)
          then (Err (RegistryAssignmentMismatch i), drop_admission (drop_admission r admission) old)
          else (Ok (c\<lparr>sc_admission := admission\<rparr>), drop_admission r old))"

end
