(* ===== verification/Backend_Client.thy ===== *)
theory Backend_Client
  imports Client_Config Frame_Codec Json_Value Mining_Session
begin

text \<open>
  The connection of \<open>crates/wcash-pool-backend-client/src/unix.rs\<close>: framing over a socket, request correlation, the
  replay and live phases of the journal stream, and the checks of every response.

  The socket is a script of what the peer and the operating system do: the outcome of each write and of each read, in
  order. A script that runs out means that nothing more happens before the deadline of the exchange. An operation takes
  the instant its exchange starts and returns the new client; \<open>serde_json\<close> is the parameter \<open>api\<close>.
\<close>

section \<open>Identities and deliveries\<close>

record backend_identity_info =
  bi_backend_session :: uuid
  bi_backend_instance :: uuid
  bi_journal_stream :: uuid
  bi_capabilities :: "backend_capability list"
  bi_current_event_seq :: u64

record backend_authority =
  ba_wcash_genesis :: bytes
  ba_zcash_genesis :: bytes
  ba_chain_id :: u32
  ba_wcash_payout_commitment :: bytes
  ba_zcash_payout_commitment :: bytes
  ba_share_target_ceiling_be :: target_be
  ba_backend_instance :: uuid
  ba_journal_stream :: uuid

record backend_connection_binding =
  cb_authority :: backend_authority
  cb_connection_token :: nat
  cb_snapshot_event_seq :: u64

datatype job_state_integration_error = IntegrationTimeline timeline_error | IntegrationRegistry job_registry_error

record delivered_backend_event =
  de_event :: backend_event
  de_anchor :: monotonic_anchor
  de_connection_binding :: backend_connection_binding

definition DeliveredBackendEvent_apply_to_registry ::
  "(bytes \<Rightarrow> bytes) \<Rightarrow> delivered_backend_event \<Rightarrow> generation_registry \<Rightarrow> monotonic_timeline \<Rightarrow>
     (job_state_integration_error, unit) result \<times> generation_registry" where
  "DeliveredBackendEvent_apply_to_registry sha256 d r timeline =
     (case anchor_ms timeline (de_anchor d) of
        Err e \<Rightarrow> (Err (IntegrationTimeline e), r)
      | Ok anchor \<Rightarrow> (case apply_event sha256 r (de_event d) anchor of (x, r) \<Rightarrow> (map_err IntegrationRegistry x, r)))"

definition DeliveredBackendEvent_apply_to_registry_at ::
  "(bytes \<Rightarrow> bytes) \<Rightarrow> delivered_backend_event \<Rightarrow> generation_registry \<Rightarrow> monotonic_timeline \<Rightarrow> u64 \<Rightarrow>
     (job_state_integration_error, unit) result \<times> generation_registry" where
  "DeliveredBackendEvent_apply_to_registry_at sha256 d r timeline policy_now_ms =
     (case anchor_ms timeline (de_anchor d) of
        Err e \<Rightarrow> (Err (IntegrationTimeline e), r)
      | Ok anchor \<Rightarrow> (case apply_event_at sha256 r (de_event d) anchor policy_now_ms of (x, r) \<Rightarrow> (map_err IntegrationRegistry x, r)))"

datatype backend_stream_phase = Replay | LiveStream

record share_submission =
  sb_job_id :: bytes
  sb_identity :: worker_identity
  sb_target_le :: target_le
  sb_time :: bytes
  sb_nonce :: bytes
  sb_solution :: bytes

record share_commit =
  cm_receipt :: share_receipt
  cm_replayed :: bool

record job_snapshot =
  js_event_seq :: u64
  js_current :: "acceptable_job option"
  js_recent :: "acceptable_job list"
  js_replayed_through_event_seq :: u64
  js_anchor :: monotonic_anchor
  js_connection_binding :: backend_connection_binding

definition JobSnapshot_apply_to_registry ::
  "job_snapshot \<Rightarrow> generation_registry \<Rightarrow> monotonic_timeline \<Rightarrow>
     (job_state_integration_error, unit) result \<times> generation_registry" where
  "JobSnapshot_apply_to_registry s r timeline =
     (case anchor_ms timeline (js_anchor s) of
        Err e \<Rightarrow> (Err (IntegrationTimeline e), r)
      | Ok anchor \<Rightarrow> (case apply_snapshot r (js_event_seq s) (js_current s) (js_recent s) anchor of
          (x, r) \<Rightarrow> (map_err IntegrationRegistry x, r)))"

record event_page =
  ep_after_event_seq :: u64
  ep_next_event_seq :: u64
  ep_complete :: bool
  ep_events :: "backend_event list"

record health_snapshot =
  hs_event_seq :: u64
  hs_healthy :: bool
  hs_recovery_only :: bool
  hs_pending_wcash :: u32
  hs_quarantined_wcash :: u32
  hs_pending_zcash :: u32

section \<open>Errors\<close>

datatype client_error =
    ClientConfig client_config_error
  | ClientConnect string
  | ClientTimeout string
  | ClientIo string string
  | CleanEof
  | TruncatedFrame string nat nat
  | ClientFrameTooLarge nat nat
  | ClientProtocol protocol_error
  | VersionMismatch u16 u64
  | WrongResponseId u64 u64
  | UnexpectedResponse string string
  | IdentityMismatch string
  | EventCursorAhead u64 u64
  | SnapshotCursorBehind u64 u64
  | MissingJournalIdentity
  | EventPageCursorMismatch u64 u64
  | EventPageLimitExceeded u16 nat
  | InvalidStreamPhase string backend_stream_phase backend_stream_phase
  | ReplayCursorMismatch u64 u64
  | ReplayIncomplete u64
  | EventWatermarkRollback string u64 u64
  | LiveEventSequenceMismatch u64 u64
  | LiveEventFlushIncomplete string u64 u64
  | ShareCommitEventMismatch u64
  | ShareCommitHistoryConflict u64 u64
  | HistoricalReplayRequiresProjection share_receipt
  | FreshShareCommitDidNotAdvance u64 u64
  | ContradictoryShareOutcome u64
  | EventQueueFull nat
  | BackendRejected backend_error_code string
  | ConnectionUnusable
  | RequestIdExhausted

text \<open>Inside an exchange an operation fails, or the deadline passes first.\<close>

datatype io_stop = Failed client_error | DeadlineElapsed

section \<open>The socket\<close>

datatype write_outcome = Written | WriteFailed string | WriteStalled

datatype read_outcome = Received bytes | ReadFailed string

record socket =
  sk_sent :: "bytes list"
  sk_writes :: "write_outcome list"
  sk_reads :: "read_outcome list"

definition write_all :: "socket \<Rightarrow> bytes \<Rightarrow> (io_stop, unit) result \<times> socket" where
  "write_all s frame =
     (case sk_writes s of
        [] \<Rightarrow> (Err DeadlineElapsed, s)
      | Written # ws \<Rightarrow> (Ok (), s\<lparr>sk_sent := sk_sent s @ [frame], sk_writes := ws\<rparr>)
      | WriteFailed e # ws \<Rightarrow> (Err (Failed (ClientIo ''write request'' e)), s\<lparr>sk_writes := ws\<rparr>)
      | WriteStalled # ws \<Rightarrow> (Err DeadlineElapsed, s\<lparr>sk_writes := ws\<rparr>))"

text \<open>One read fills at most the rest of the buffer; what a chunk has left stays for the next read. A read of no bytes
  is the end of the stream.\<close>

function read_exact_section ::
  "read_outcome list \<Rightarrow> bytes \<Rightarrow> nat \<Rightarrow> string \<Rightarrow> bool \<Rightarrow> (io_stop, bytes) result \<times> read_outcome list" where
  "read_exact_section reads got n section clean_eof_allowed =
     (if n \<le> length got then (Ok got, reads)
      else case reads of
        [] \<Rightarrow> (Err DeadlineElapsed, [])
      | ReadFailed e # rest \<Rightarrow> (Err (Failed (ClientIo ''read response'' e)), rest)
      | Received bs # rest \<Rightarrow>
          if bs = [] then
            (Err (Failed (if clean_eof_allowed \<and> got = [] then CleanEof else TruncatedFrame section n (length got))), rest)
          else let k = min (n - length got) (length bs)
               in read_exact_section ((if k < length bs then [Received (drop k bs)] else []) @ rest) (got @ take k bs) n
                    section clean_eof_allowed)"
  by auto
termination
  by (relation "measure (\<lambda>(_, got, n, _, _). n - length got)") (auto simp: Let_def min_def simp flip: length_greater_0_conv)

declare read_exact_section.simps [simp del]

text \<open>What the client calls of \<open>serde_json\<close>: writing a request, reading a message, and reading a value for its version.\<close>

record 'num json_api =
  api_to_vec :: "backend_request \<Rightarrow> (string, bytes) result"
  api_from_slice :: "bytes \<Rightarrow> (string, backend_message) result"
  api_value :: "bytes \<Rightarrow> (string, 'num json) result"
  api_as_u64 :: "'num \<Rightarrow> u64 option"

definition check_version :: "'num json_api \<Rightarrow> 'num json \<Rightarrow> (client_error, unit) result" where
  "check_version api value =
     (case Option.bind (Option.bind (json_get value ''v'') as_number) (api_as_u64 api) of
        None \<Rightarrow> Ok ()
      | Some actual \<Rightarrow> ensure (actual = ucast BACKEND_PROTOCOL_VERSION) (VersionMismatch BACKEND_PROTOCOL_VERSION actual))"

definition read_backend_message ::
  "(bytes \<Rightarrow> bytes) \<Rightarrow> 'num json_api \<Rightarrow> read_outcome list \<Rightarrow> (io_stop, backend_message) result \<times> read_outcome list" where
  "read_backend_message sha256 api reads =
     (case read_exact_section reads [] BACKEND_LENGTH_PREFIX_BYTES ''length prefix'' True of
        (Err e, reads) \<Rightarrow> (Err e, reads)
      | (Ok prefix, reads) \<Rightarrow>
          (let payload_length = unat (from_be_bytes prefix :: u32)
           in if payload_length = 0 then (Err (Failed (ClientProtocol (EmptyFrame ''backend''))), reads)
              else if MAX_BACKEND_PAYLOAD_BYTES < payload_length then
                (Err (Failed (ClientFrameTooLarge payload_length MAX_BACKEND_PAYLOAD_BYTES)), reads)
              else case read_exact_section reads [] payload_length ''payload'' False of
                (Err e, reads) \<Rightarrow> (Err e, reads)
              | (Ok payload, reads) \<Rightarrow>
                  (map_err Failed
                     (and_then (map_err (\<lambda>e. ClientProtocol (Json e)) (api_value api payload)) (\<lambda>value.
                      and_then (check_version api value) (\<lambda>_.
                      map_err ClientProtocol (decode_backend_message sha256 (api_from_slice api) (prefix @ payload))))), reads)))"

fun message_kind :: "backend_message \<Rightarrow> string" where
  "message_kind (HelloOk _ _) = ''hello_ok''"
| "message_kind (JobSnapshot _ _ _ _ _) = ''job_snapshot''"
| "message_kind (ShareCommitted _ _ _ _) = ''share_committed''"
| "message_kind (EventsPage _ _ _ _ _ _) = ''events_page''"
| "message_kind (HealthStatus _ _ _ _ _ _ _ _) = ''health_status''"
| "message_kind (BackendError _ _ _ _) = ''error''"
| "message_kind (BackendEventMessage _ _) = ''event''"

definition expected_response_kind :: "string \<Rightarrow> string" where
  "expected_response_kind operation =
     (if operation = ''hello'' then ''hello_ok''
      else if operation = ''subscribe_jobs'' then ''job_snapshot''
      else if operation = ''submit_share'' then ''share_committed''
      else if operation = ''read_events'' then ''events_page''
      else if operation = ''health'' then ''health_status''
      else ''correlated response'')"

section \<open>The client\<close>

record backend_client =
  bc_stream :: socket
  bc_config :: backend_client_config
  bc_identity :: backend_identity_info
  bc_connection_token :: nat
  bc_next_request_id :: u64
  bc_queued_events :: "delivered_backend_event list"
  bc_observed_events :: "backend_event list"
  bc_historical_events :: "backend_event list"
  bc_phase :: backend_stream_phase
  bc_replay_cursor :: u64
  bc_replay_complete :: bool
  bc_observed_event_high_watermark :: u64
  bc_live_event_cursor :: "u64 option"
  bc_subscribed_snapshot_event_seq :: "u64 option"
  bc_live_event_anchor_floor :: "monotonic_anchor option"
  bc_usable :: bool

definition invalidate :: "backend_client \<Rightarrow> client_error \<Rightarrow> (client_error, 'a) result \<times> backend_client" where
  "invalidate c error = (Err error, c\<lparr>bc_usable := False\<rparr>)"

definition ensure_usable :: "backend_client \<Rightarrow> (client_error, unit) result" where
  "ensure_usable c = ensure (bc_usable c) ConnectionUnusable"

definition client_authority :: "backend_client \<Rightarrow> backend_authority" where
  "client_authority c =
     (let e = cc_expected (bc_config c)
      in \<lparr>ba_wcash_genesis = eb_wcash_genesis e, ba_zcash_genesis = eb_zcash_genesis e, ba_chain_id = eb_chain_id e,
          ba_wcash_payout_commitment = eb_wcash_payout_commitment e, ba_zcash_payout_commitment = eb_zcash_payout_commitment e,
          ba_share_target_ceiling_be = eb_share_target_ceiling_be e,
          ba_backend_instance = bi_backend_instance (bc_identity c), ba_journal_stream = bi_journal_stream (bc_identity c)\<rparr>)"

definition is_bound_to :: "backend_client \<Rightarrow> backend_connection_binding \<Rightarrow> bool" where
  "is_bound_to c b \<longleftrightarrow> bc_phase c = LiveStream \<and> client_authority c = cb_authority b \<and>
     bc_subscribed_snapshot_event_seq c = Some (cb_snapshot_event_seq b) \<and> bc_connection_token c = cb_connection_token b"

definition connection_binding :: "backend_client \<Rightarrow> backend_connection_binding option" where
  "connection_binding c =
     Option.bind (bc_subscribed_snapshot_event_seq c) (\<lambda>snapshot_event_seq.
     if bc_phase c = LiveStream then
       Some \<lparr>cb_authority = client_authority c, cb_connection_token = bc_connection_token c, cb_snapshot_event_seq = snapshot_event_seq\<rparr>
     else None)"

definition push_bounded :: "nat \<Rightarrow> 'a list \<Rightarrow> 'a \<Rightarrow> 'a list" where
  "push_bounded maximum xs x = (if length xs = maximum then drop 1 xs else xs) @ [x]"

definition pop_queued_event :: "backend_client \<Rightarrow> delivered_backend_event option \<times> backend_client" where
  "pop_queued_event c =
     (case bc_queued_events c of
        [] \<Rightarrow> (None, c)
      | delivered # rest \<Rightarrow>
          (Some delivered, c\<lparr>bc_queued_events := rest,
             bc_observed_events := push_bounded (cc_event_queue_capacity (bc_config c)) (bc_observed_events c) (de_event delivered)\<rparr>))"

definition allocate_request_id :: "backend_client \<Rightarrow> (client_error, u64) result \<times> backend_client" where
  "allocate_request_id c =
     (case ensure_usable c of
        Err e \<Rightarrow> (Err e, c)
      | Ok _ \<Rightarrow>
          (case checked_add (bc_next_request_id c) 1 of
             None \<Rightarrow> invalidate c RequestIdExhausted
           | Some n \<Rightarrow> (Ok (bc_next_request_id c), c\<lparr>bc_next_request_id := n\<rparr>)))"

definition ensure_phase :: "backend_client \<Rightarrow> string \<Rightarrow> backend_stream_phase \<Rightarrow> (client_error, unit) result" where
  "ensure_phase c operation required =
     and_then (ensure_usable c) (\<lambda>_. ensure (bc_phase c = required) (InvalidStreamPhase operation required (bc_phase c)))"

definition observe_watermark :: "backend_client \<Rightarrow> string \<Rightarrow> u64 \<Rightarrow> (client_error, unit) result \<times> backend_client" where
  "observe_watermark c operation received =
     (if received < bc_observed_event_high_watermark c then
        invalidate c (EventWatermarkRollback operation (bc_observed_event_high_watermark c) received)
      else let c = c\<lparr>bc_observed_event_high_watermark := received\<rparr>
           in (Ok (), if bc_phase c = Replay \<and> bc_replay_cursor c < received then c\<lparr>bc_replay_complete := False\<rparr> else c))"

definition require_live_events_through ::
  "backend_client \<Rightarrow> string \<Rightarrow> u64 \<Rightarrow> (client_error, unit) result \<times> backend_client" where
  "require_live_events_through c operation required =
     (if bc_phase c \<noteq> LiveStream then (Ok (), c)
      else case bc_live_event_cursor c of
        None \<Rightarrow> invalidate c (UnexpectedResponse ''job_snapshot'' ''live response'')
      | Some delivered \<Rightarrow>
          if delivered < required then invalidate c (LiveEventFlushIncomplete operation required delivered) else (Ok (), c))"

section \<open>One exchange\<close>

text \<open>An unsolicited event while the response is awaited.\<close>

definition accept_event ::
  "string \<Rightarrow> bool \<Rightarrow> monotonic_anchor \<Rightarrow> backend_connection_binding option \<Rightarrow> backend_client \<Rightarrow> backend_event \<Rightarrow>
     (client_error, unit) result \<times> backend_client" where
  "accept_event operation allow_events event_anchor event_binding c event =
     (if \<not> allow_events then (Err (UnexpectedResponse (expected_response_kind operation) ''event''), c)
      else case bc_live_event_cursor c of
        None \<Rightarrow> (Err (UnexpectedResponse ''job_snapshot'' ''event''), c)
      | Some previous \<Rightarrow>
          (case checked_add previous 1 of
             None \<Rightarrow> (Err (ClientProtocol (invalid ''event.event_seq'' ''journal sequence exhausted'')), c)
           | Some expected \<Rightarrow>
               let actual = BackendEvent_event_seq event
               in if actual \<noteq> expected then (Err (LiveEventSequenceMismatch expected actual), c)
                  else if length (bc_queued_events c) = cc_event_queue_capacity (bc_config c) then
                    (Err (EventQueueFull (cc_event_queue_capacity (bc_config c))), c)
                  else let c = c\<lparr>bc_live_event_cursor := Some actual,
                                 bc_observed_event_high_watermark := max (bc_observed_event_high_watermark c) actual\<rparr>
                       in (case event_binding of
                             None \<Rightarrow> (Err (UnexpectedResponse ''job_snapshot'' ''unbound live event''), c)
                           | Some b \<Rightarrow>
                               (Ok (), c\<lparr>bc_queued_events := bc_queued_events c @
                                  [\<lparr>de_event = event, de_anchor = event_anchor, de_connection_binding = b\<rparr>]\<rparr>))))"

fun read_size :: "read_outcome \<Rightarrow> nat" where
  "read_size (Received bs) = Suc (length bs)"
| "read_size (ReadFailed _) = 1"

abbreviation reads_size :: "read_outcome list \<Rightarrow> nat" where
  "reads_size reads \<equiv> sum_list (map read_size reads)"

lemma read_exact_section_size:
  "read_exact_section reads got n sec eof = (x, reads') \<Longrightarrow>
     reads_size reads' \<le> reads_size reads \<and> (is_ok x \<and> length got < n \<longrightarrow> reads_size reads' < reads_size reads)"
proof (induction reads got n sec eof arbitrary: x reads' rule: read_exact_section.induct)
  case (1 reads got n sec eof)
  show ?case
  proof (cases "length got < n \<and> (\<exists>bs rest. reads = Received bs # rest \<and> bs \<noteq> [])")
    case True
    then obtain bs rest where r: "reads = Received bs # rest" "bs \<noteq> []" "\<not> n \<le> length got" by auto
    let ?k = "min (n - length got) (length bs)"
    let ?reads = "(if ?k < length bs then [Received (drop ?k bs)] else []) @ rest"
    have "read_exact_section ?reads (got @ take ?k bs) n sec eof = (x, reads')"
      using "1.prems" r by (simp add: read_exact_section.simps [of "Received bs # rest" got] Let_def split del: if_split)
    from "1.IH" [OF r(3,1) refl r(2) refl this] have "reads_size reads' \<le> reads_size ?reads" by simp
    moreover have "reads_size ?reads < reads_size reads" using r by (auto split: if_splits)
    ultimately show ?thesis by simp
  next
    case False
    with "1.prems" show ?thesis
      by (auto simp: read_exact_section.simps [of reads got] split: if_splits list.splits read_outcome.splits)
  qed
qed

lemma read_backend_message_size:
  assumes "read_backend_message sha256 api reads = (Ok m, reads')"
  shows "reads_size reads' < reads_size reads"
proof -
  obtain prefix mid where p: "read_exact_section reads [] BACKEND_LENGTH_PREFIX_BYTES ''length prefix'' True = (Ok prefix, mid)"
    using assms by (auto simp: read_backend_message_def split: prod.splits result.splits)
  then obtain n payload where q: "read_exact_section mid [] n ''payload'' False = (Ok payload, reads')"
    using assms by (auto simp: read_backend_message_def Let_def split: prod.splits result.splits if_splits)
  have "reads_size mid < reads_size reads"
    using read_exact_section_size [OF p] by (simp add: BACKEND_LENGTH_PREFIX_BYTES_def)
  moreover have "reads_size reads' \<le> reads_size mid" using read_exact_section_size [OF q] by simp
  ultimately show ?thesis by simp
qed

definition set_reads :: "backend_client \<Rightarrow> read_outcome list \<Rightarrow> backend_client" where
  "set_reads c reads = c\<lparr>bc_stream := (bc_stream c)\<lparr>sk_reads := reads\<rparr>\<rparr>"

lemma accept_event_stream [simp]: "accept_event op allow a b c e = (x, c') \<Longrightarrow> bc_stream c' = bc_stream c"
  by (auto simp: accept_event_def Let_def split: if_splits option.splits)

text \<open>The loop that reads until the correlated response.\<close>

function await_response ::
  "(bytes \<Rightarrow> bytes) \<Rightarrow> 'num json_api \<Rightarrow> u64 \<Rightarrow> string \<Rightarrow> bool \<Rightarrow> monotonic_anchor \<Rightarrow> backend_connection_binding option \<Rightarrow>
     backend_client \<Rightarrow> (io_stop, backend_message) result \<times> backend_client" where
  "await_response sha256 api request_id operation allow_events event_anchor event_binding c =
     (case read_backend_message sha256 api (sk_reads (bc_stream c)) of
        (Err e, reads) \<Rightarrow> (Err e, set_reads c reads)
      | (Ok message, reads) \<Rightarrow>
          (case message of
             BackendEventMessage _ event \<Rightarrow>
               (case accept_event operation allow_events event_anchor event_binding (set_reads c reads) event of
                  (Err e, c) \<Rightarrow> (Err (Failed e), c)
                | (Ok _, c) \<Rightarrow> await_response sha256 api request_id operation allow_events event_anchor event_binding c)
           | _ \<Rightarrow>
               (case BackendMessage_correlation_id message of
                  None \<Rightarrow> (Err (Failed (UnexpectedResponse ''correlated response'' (message_kind message))), set_reads c reads)
                | Some response_id \<Rightarrow>
                    if response_id \<noteq> request_id then (Err (Failed (WrongResponseId request_id response_id)), set_reads c reads)
                    else (Ok message, set_reads c reads))))"
  by auto
termination
proof (relation "measure (\<lambda>(_, _, _, _, _, _, _, c). reads_size (sk_reads (bc_stream c)))", goal_cases)
  case (2 sha256 api request_id operation allow_events event_anchor event_binding c x reads message v event y c' u)
  then have "reads_size reads < reads_size (sk_reads (bc_stream c))"
    using read_backend_message_size [of sha256 api "sk_reads (bc_stream c)" message reads] by simp
  moreover have "bc_stream c' = bc_stream (set_reads c reads)" using accept_event_stream [OF 2(4) [symmetric]] .
  ultimately show ?case by (simp add: set_reads_def)
qed simp

declare await_response.simps [simp del]

definition event_source ::
  "backend_client \<Rightarrow> bool \<Rightarrow> monotonic_anchor \<Rightarrow> (monotonic_anchor \<times> backend_connection_binding option) option" where
  "event_source c allow_events anchor =
     (if allow_events then
        (case (bc_live_event_anchor_floor c, connection_binding c) of
           (Some floor, Some binding) \<Rightarrow> Some (floor, Some binding)
         | _ \<Rightarrow> None)
      else Some (anchor, None))"

definition exchange ::
  "(bytes \<Rightarrow> bytes) \<Rightarrow> 'num json_api \<Rightarrow> instant \<Rightarrow> backend_client \<Rightarrow> backend_request \<Rightarrow> string \<Rightarrow> bool \<Rightarrow>
     (client_error, backend_message \<times> monotonic_anchor) result \<times> backend_client" where
  "exchange sha256 api now c request operation allow_events =
     (case and_then (ensure_usable c) (\<lambda>_. map_err ClientProtocol (encode_backend_request (api_to_vec api) request)) of
        Err e \<Rightarrow> (Err e, c)
      | Ok frame \<Rightarrow>
          (let anchor = MonotonicAnchor now
           in case event_source c allow_events anchor of
                None \<Rightarrow> invalidate c (UnexpectedResponse ''job_snapshot'' ''live event exchange'')
              | Some (event_anchor, event_binding) \<Rightarrow>
                  (let c = c\<lparr>bc_usable := False\<rparr>;
                       result =
                         (case write_all (bc_stream c) frame of
                            (Err e, stream) \<Rightarrow> (Err e, c\<lparr>bc_stream := stream\<rparr>)
                          | (Ok _, stream) \<Rightarrow>
                              await_response sha256 api (BackendRequest_id request) operation allow_events event_anchor event_binding
                                (c\<lparr>bc_stream := stream\<rparr>))
                   in case result of
                        (Ok message, c) \<Rightarrow>
                          (Ok (message, anchor),
                           (if allow_events then c\<lparr>bc_live_event_anchor_floor := Some anchor\<rparr> else c)\<lparr>bc_usable := True\<rparr>)
                      | (Err (Failed e), c) \<Rightarrow> (Err e, c)
                      | (Err DeadlineElapsed, c) \<Rightarrow> (Err (ClientTimeout operation), c))))"

end
