(* ===== verification/Job_Router.thy ===== *)
theory Job_Router
  imports Backend_Client
begin

text \<open>
  The shared generation authority of the miner edge (\<open>crates/wcash-pool-edge/src/router.rs\<close>). Every method runs under one
  mutex, so it is one step on the router; a poisoned mutex is a flag, the broadcast channel is the list of everything
  sent so far, and the instant a method reads under the lock is an argument.
\<close>

section \<open>State\<close>

datatype job_update = UpdateActivated backend_generation bool | UpdateRetired job_id | UpdateSuspended

datatype job_router_error =
    InvalidEventCapacity nat nat
  | RouterPoisoned
  | RecoveryWhileSynchronized
  | BackendAuthorityMismatch
  | BackendConnectionMismatch
  | MissingActivatedGeneration job_id
  | UpdateStreamLagged u64
  | UpdateStreamClosed
  | RouterTimeline timeline_error
  | RouterIntegration job_state_integration_error
  | RouterRegistry job_registry_error
  | RouterSession session_error

definition MAXIMUM_EVENT_CAPACITY :: nat where "MAXIMUM_EVENT_CAPACITY = 4096"

definition validate_event_capacity :: "nat \<Rightarrow> (job_router_error, unit) result" where
  "validate_event_capacity actual =
     ensure (1 \<le> actual \<and> actual \<le> MAXIMUM_EVENT_CAPACITY) (InvalidEventCapacity actual MAXIMUM_EVENT_CAPACITY)"

record router_state =
  rs_registry :: generation_registry
  rs_health_paused :: bool
  rs_recovery_only :: bool
  rs_force_clean_jobs :: bool
  rs_backend_authority :: "backend_authority option"
  rs_connection_binding :: "backend_connection_binding option"

record job_router =
  jr_state :: router_state
  jr_poisoned :: bool
  jr_timeline :: monotonic_timeline
  jr_updates :: "job_update list"

definition send_update :: "job_update \<Rightarrow> job_router \<Rightarrow> job_router" where
  "send_update u jr = jr\<lparr>jr_updates := jr_updates jr @ [u]\<rparr>"

section \<open>Updates of an event\<close>

definition preserves_prior_work :: "generation_registry \<Rightarrow> backend_generation \<Rightarrow> job_id list \<Rightarrow> bool" where
  "preserves_prior_work r generation recent =
     list_ex (\<lambda>prior_id. case GenerationRegistry_generation r prior_id of
       None \<Rightarrow> False | Some prior \<Rightarrow> bg_tips prior = bg_tips generation) recent"

definition update_for_activation ::
  "router_state \<Rightarrow> job_descriptor \<Rightarrow> u64 \<Rightarrow> (job_router_error, job_update option) result \<times> router_state" where
  "update_for_activation s job now_ms =
     (if rs_health_paused s then (Ok None, s)
      else case and_then (map_err RouterRegistry (JobId_new (jd_job_id job))) (\<lambda>i.
             and_then (ok_or (GenerationRegistry_generation (rs_registry s) i) (MissingActivatedGeneration i)) (\<lambda>generation.
             Ok (i, generation))) of
        Err e \<Rightarrow> (Err e, s)
      | Ok (i, generation) \<Rightarrow>
          (case GenerationRegistry_admissible_job_ids (rs_registry s) now_ms of
             (Err e, r) \<Rightarrow> (Err (RouterRegistry e), s\<lparr>rs_registry := r\<rparr>)
           | (Ok admissible, r) \<Rightarrow>
               if aji_current admissible \<noteq> Some i then (Ok None, s\<lparr>rs_registry := r\<rparr>)
               else (Ok (Some (UpdateActivated generation
                       (rs_force_clean_jobs s \<or> \<not> preserves_prior_work r generation (aji_recent admissible)))),
                     s\<lparr>rs_registry := r, rs_force_clean_jobs := False\<rparr>)))"

definition RouterState_update_for ::
  "router_state \<Rightarrow> backend_event \<Rightarrow> u64 \<Rightarrow> (job_router_error, job_update option) result \<times> router_state" where
  "RouterState_update_for s event now_ms =
     (case event of
        JobActivated _ job \<Rightarrow> update_for_activation s job now_ms
      | JobInvalidated _ job_id reason accept_for_ms \<Rightarrow>
          (case map_err RouterRegistry (JobId_new job_id) of
             Err e \<Rightarrow> (Err e, s)
           | Ok i \<Rightarrow>
               if reason \<noteq> Superseded \<or> accept_for_ms = 0
               then (Ok (Some (UpdateRetired i)), s\<lparr>rs_force_clean_jobs := True\<rparr>)
               else (Ok None, s))
      | GenerationClosed _ job_id \<Rightarrow>
          (let s = s\<lparr>rs_force_clean_jobs := True\<rparr>
           in (map_err RouterRegistry (and_then (JobId_new job_id) (\<lambda>i. Ok (Some (UpdateRetired i)))), s))
      | _ \<Rightarrow> (Ok None, s))"

section \<open>Lifecycle\<close>

definition JobRouter_from_snapshot ::
  "job_snapshot \<Rightarrow> generation_registry_config \<Rightarrow> monotonic_timeline \<Rightarrow> nat \<Rightarrow> (job_router_error, job_router) result" where
  "JobRouter_from_snapshot snapshot registry_config timeline event_capacity =
     and_then (validate_event_capacity event_capacity) (\<lambda>_.
     case JobSnapshot_apply_to_registry snapshot (GenerationRegistry_new registry_config) timeline of
       (Err e, _) \<Rightarrow> Err (RouterIntegration e)
     | (Ok _, registry) \<Rightarrow>
         Ok \<lparr>jr_state = \<lparr>rs_registry = registry, rs_health_paused = False, rs_recovery_only = False, rs_force_clean_jobs = False,
               rs_backend_authority = Some (cb_authority (js_connection_binding snapshot)),
               rs_connection_binding = Some (js_connection_binding snapshot)\<rparr>,
             jr_poisoned = False, jr_timeline = timeline, jr_updates = []\<rparr>)"

record job_subscription =
  su_position :: nat
  su_suspension_pending :: bool

definition JobRouter_subscribe :: "job_router \<Rightarrow> job_subscription" where
  "JobRouter_subscribe jr = \<lparr>su_position = length (jr_updates jr),
     su_suspension_pending = (jr_poisoned jr \<or> \<not> gr_synchronized (rs_registry (jr_state jr)))\<rparr>"

text \<open>\<open>received\<close> is what the broadcast receiver answers: an update, the end of the channel, or how far it lagged.\<close>

datatype recv_error = RecvClosed | RecvLagged u64

definition JobSubscription_receive ::
  "job_subscription \<Rightarrow> (recv_error, job_update) result \<Rightarrow> (job_router_error, job_update) result \<times> job_subscription" where
  "JobSubscription_receive s received =
     (if su_suspension_pending s then (Ok UpdateSuspended, s\<lparr>su_suspension_pending := False\<rparr>)
      else (map_err (\<lambda>e. case e of RecvClosed \<Rightarrow> UpdateStreamClosed | RecvLagged skipped \<Rightarrow> UpdateStreamLagged skipped) received,
            case received of Ok _ \<Rightarrow> s\<lparr>su_position := Suc (su_position s)\<rparr> | Err _ \<Rightarrow> s))"

definition suspend_state :: "router_state \<Rightarrow> router_state" where
  "suspend_state s = s\<lparr>rs_registry := suspend (rs_registry s), rs_recovery_only := False, rs_force_clean_jobs := True\<rparr>"

definition JobRouter_suspend :: "job_router \<Rightarrow> (job_router_error, unit) result \<times> job_router" where
  "JobRouter_suspend jr =
     (if jr_poisoned jr then (Err RouterPoisoned, send_update UpdateSuspended jr)
      else (Ok (), send_update UpdateSuspended (jr\<lparr>jr_state := suspend_state (jr_state jr)\<rparr>)))"

definition suspend_if_bound ::
  "job_router \<Rightarrow> backend_connection_binding \<Rightarrow> (job_router_error, bool) result \<times> job_router" where
  "suspend_if_bound jr b =
     (if jr_poisoned jr then (Err RouterPoisoned, send_update UpdateSuspended jr)
      else if rs_connection_binding (jr_state jr) \<noteq> Some b then (Ok False, jr)
      else (Ok True, send_update UpdateSuspended (jr\<lparr>jr_state := suspend_state (jr_state jr)\<rparr>)))"

text \<open>The critical section of \<open>apply_event_inner\<close>; \<open>Suspend\<close> says that it ends by calling \<open>suspend\<close>, which takes the
  lock again.\<close>

datatype 'a locked = Done 'a | Suspend job_router_error

definition apply_event_locked ::
  "(bytes \<Rightarrow> bytes) \<Rightarrow> instant \<Rightarrow> job_router \<Rightarrow> backend_connection_binding \<Rightarrow> delivered_backend_event \<Rightarrow>
     (job_router_error, unit) result locked \<times> job_router" where
  "apply_event_locked sha256 now jr required_binding delivered =
     (if jr_poisoned jr then (Done (Err RouterPoisoned), send_update UpdateSuspended jr)
      else let s = jr_state jr
           in if de_connection_binding delivered \<noteq> required_binding \<or> rs_connection_binding s \<noteq> Some required_binding
              then (Done (Err BackendConnectionMismatch), jr)
              else case timeline_now_ms (jr_timeline jr) now of
                Err e \<Rightarrow> (Done (Err (RouterTimeline e)), send_update UpdateSuspended (jr\<lparr>jr_state := suspend_state s\<rparr>))
              | Ok now_ms \<Rightarrow>
                  (case DeliveredBackendEvent_apply_to_registry_at sha256 delivered (rs_registry s) (jr_timeline jr) now_ms of
                     (Err e, r) \<Rightarrow> (Suspend (RouterIntegration e), jr\<lparr>jr_state := s\<lparr>rs_registry := r\<rparr>\<rparr>)
                   | (Ok _, r) \<Rightarrow>
                       (case RouterState_update_for (s\<lparr>rs_registry := r\<rparr>) (de_event delivered) now_ms of
                          (Err e, s) \<Rightarrow> (Suspend e, jr\<lparr>jr_state := s\<rparr>)
                        | (Ok None, s) \<Rightarrow> (Done (Ok ()), jr\<lparr>jr_state := s\<rparr>)
                        | (Ok (Some update), s) \<Rightarrow> (Done (Ok ()), send_update update (jr\<lparr>jr_state := s\<rparr>)))))"

definition apply_event_inner ::
  "(bytes \<Rightarrow> bytes) \<Rightarrow> instant \<Rightarrow> job_router \<Rightarrow> backend_connection_binding \<Rightarrow> delivered_backend_event \<Rightarrow>
     (job_router_error, unit) result \<times> job_router" where
  "apply_event_inner sha256 now jr required_binding delivered =
     (case apply_event_locked sha256 now jr required_binding delivered of
        (Done x, jr) \<Rightarrow> (x, jr)
      | (Suspend e, jr) \<Rightarrow> (Err e, snd (JobRouter_suspend jr)))"

definition JobRouter_apply_event ::
  "(bytes \<Rightarrow> bytes) \<Rightarrow> instant \<Rightarrow> job_router \<Rightarrow> backend_client \<Rightarrow> delivered_backend_event \<Rightarrow>
     (job_router_error, unit) result \<times> job_router" where
  "JobRouter_apply_event sha256 now jr client delivered =
     (case connection_binding client of
        None \<Rightarrow> (Err BackendConnectionMismatch, jr)
      | Some b \<Rightarrow> apply_event_inner sha256 now jr b delivered)"

definition recover_with ::
  "job_router \<Rightarrow> (backend_authority \<times> backend_connection_binding) option \<Rightarrow>
     (generation_registry \<Rightarrow> (job_router_error, unit) result \<times> generation_registry) \<Rightarrow>
     (job_router_error, unit) result \<times> job_router" where
  "recover_with jr replacement_binding app =
     (if jr_poisoned jr then (Err RouterPoisoned, send_update UpdateSuspended jr)
      else let s = jr_state jr
           in if gr_synchronized (rs_registry s) then (Err RecoveryWhileSynchronized, jr)
              else if (case replacement_binding of None \<Rightarrow> False | Some (authority, _) \<Rightarrow> rs_backend_authority s \<noteq> Some authority)
              then (Err BackendAuthorityMismatch, send_update UpdateSuspended jr)
              else let s = s\<lparr>rs_force_clean_jobs := True, rs_recovery_only := False\<rparr>
                   in case app (rs_registry s) of
                        (Ok _, r) \<Rightarrow>
                          (Ok (), jr\<lparr>jr_state := (case replacement_binding of
                               None \<Rightarrow> s\<lparr>rs_registry := r, rs_health_paused := False\<rparr>
                             | Some (authority, b) \<Rightarrow> s\<lparr>rs_registry := r, rs_health_paused := False,
                                 rs_backend_authority := Some authority, rs_connection_binding := Some b\<rparr>)\<rparr>)
                      | (Err e, r) \<Rightarrow>
                          (Err e, send_update UpdateSuspended (jr\<lparr>jr_state := s\<lparr>rs_registry := suspend r\<rparr>\<rparr>)))"

definition recover_from_snapshot :: "job_router \<Rightarrow> job_snapshot \<Rightarrow> (job_router_error, unit) result \<times> job_router" where
  "recover_from_snapshot jr snapshot =
     recover_with jr (Some (cb_authority (js_connection_binding snapshot), js_connection_binding snapshot))
       (\<lambda>r. case JobSnapshot_apply_to_registry snapshot r (jr_timeline jr) of (x, r) \<Rightarrow> (map_err RouterIntegration x, r))"

section \<open>Health\<close>

definition bound_client :: "router_state \<Rightarrow> backend_client \<Rightarrow> bool" where
  "bound_client s client = (case rs_connection_binding s of None \<Rightarrow> False | Some b \<Rightarrow> is_bound_to client b)"

definition client_binding_matches :: "job_router \<Rightarrow> backend_client \<Rightarrow> (job_router_error, bool) result" where
  "client_binding_matches jr client =
     (if jr_poisoned jr then Err RouterPoisoned else Ok (bound_client (jr_state jr) client))"

definition client_cursor_matches :: "job_router \<Rightarrow> backend_client \<Rightarrow> (job_router_error, bool) result" where
  "client_cursor_matches jr client =
     (if jr_poisoned jr then Err RouterPoisoned
      else Ok (gr_last_event_seq (rs_registry (jr_state jr)) = bc_live_event_cursor client))"

text \<open>A registry call of a router method at the time of its lock.\<close>

definition locked_registry ::
  "instant \<Rightarrow> job_router \<Rightarrow> (u64 \<Rightarrow> generation_registry \<Rightarrow> (job_router_error, 'a) result \<times> generation_registry) \<Rightarrow>
     (job_router_error, 'a) result \<times> job_router" where
  "locked_registry now jr f =
     (case timeline_now_ms (jr_timeline jr) now of
        Err e \<Rightarrow> (Err (RouterTimeline e), jr)
      | Ok now_ms \<Rightarrow>
          (case f now_ms (rs_registry (jr_state jr)) of (x, r) \<Rightarrow> (x, jr\<lparr>jr_state := (jr_state jr)\<lparr>rs_registry := r\<rparr>\<rparr>)))"

abbreviation from_registry ::
  "(job_registry_error, 'a) result \<times> generation_registry \<Rightarrow> (job_router_error, 'a) result \<times> generation_registry" where
  "from_registry x \<equiv> (case x of (y, r) \<Rightarrow> (map_err RouterRegistry y, r))"

abbreviation from_session ::
  "(session_error, 'a) result \<times> generation_registry \<Rightarrow> (job_router_error, 'a) result \<times> generation_registry" where
  "from_session x \<equiv> (case x of (y, r) \<Rightarrow> (map_err RouterSession y, r))"

definition pause_for_health :: "instant \<Rightarrow> job_router \<Rightarrow> backend_client \<Rightarrow> (job_router_error, unit) result \<times> job_router" where
  "pause_for_health now jr client =
     (if jr_poisoned jr then (Err RouterPoisoned, jr)
      else if \<not> bound_client (jr_state jr) client then (Err BackendConnectionMismatch, jr)
      else case locked_registry now jr (\<lambda>now_ms r. from_registry (GenerationRegistry_admissible_job_ids r now_ms)) of
        (Err e, jr) \<Rightarrow> (Err e, jr)
      | (Ok _, jr) \<Rightarrow>
          (let s = (jr_state jr)\<lparr>rs_recovery_only := False\<rparr>
           in (Ok (), jr\<lparr>jr_state := (if rs_health_paused s then s
                else s\<lparr>rs_health_paused := True, rs_force_clean_jobs := True\<rparr>)\<rparr>)))"

definition resume_after_health :: "instant \<Rightarrow> job_router \<Rightarrow> backend_client \<Rightarrow> (job_router_error, unit) result \<times> job_router" where
  "resume_after_health now jr client =
     (if jr_poisoned jr then (Err RouterPoisoned, jr)
      else if \<not> bound_client (jr_state jr) client then (Err BackendConnectionMismatch, jr)
      else if gr_last_event_seq (rs_registry (jr_state jr)) \<noteq> bc_live_event_cursor client then (Err BackendConnectionMismatch, jr)
      else case locked_registry now jr (\<lambda>now_ms r. from_registry (current_generation r now_ms)) of
        (Err e, jr) \<Rightarrow> (Err e, jr)
      | (Ok current, jr) \<Rightarrow>
          (let s = (jr_state jr)\<lparr>rs_recovery_only := False\<rparr>
           in if \<not> rs_health_paused s then (Ok (), jr\<lparr>jr_state := s\<rparr>)
              else case current of
                None \<Rightarrow> (Ok (), jr\<lparr>jr_state := s\<lparr>rs_health_paused := False, rs_force_clean_jobs := True\<rparr>\<rparr>)
              | Some generation \<Rightarrow>
                  (Ok (), send_update (UpdateActivated generation True)
                    (jr\<lparr>jr_state := s\<lparr>rs_health_paused := False, rs_force_clean_jobs := False\<rparr>\<rparr>))))"

definition allow_recovery_only_after_health ::
  "instant \<Rightarrow> job_router \<Rightarrow> backend_client \<Rightarrow> (job_router_error, unit) result \<times> job_router" where
  "allow_recovery_only_after_health now jr client =
     (if jr_poisoned jr then (Err RouterPoisoned, jr)
      else if \<not> rs_health_paused (jr_state jr) \<or> \<not> bound_client (jr_state jr) client \<or>
              gr_last_event_seq (rs_registry (jr_state jr)) \<noteq> bc_live_event_cursor client
      then (Err BackendConnectionMismatch, jr)
      else case locked_registry now jr (\<lambda>now_ms r. from_registry (winner_recovery_job_ids r now_ms)) of
        (Err e, jr) \<Rightarrow> (Err e, jr)
      | (Ok _, jr) \<Rightarrow> (Ok (), jr\<lparr>jr_state := (jr_state jr)\<lparr>rs_recovery_only := True\<rparr>\<rparr>))"

section \<open>Submissions and queries\<close>

text \<open>The context is owned by the call: an early return drops its guard.\<close>

definition drop_context :: "submission_context \<Rightarrow> job_router \<Rightarrow> job_router" where
  "drop_context ctx jr =
     jr\<lparr>jr_state := (jr_state jr)\<lparr>rs_registry := drop_admission (rs_registry (jr_state jr)) (sc_admission ctx)\<rparr>\<rparr>"

definition prepare_queued_paused_candidate ::
  "(bytes \<Rightarrow> bytes) \<Rightarrow> instant \<Rightarrow> job_router \<Rightarrow> submission_context \<Rightarrow> backend_client \<Rightarrow>
     (job_router_error, submission_context) result \<times> job_router" where
  "prepare_queued_paused_candidate sha256 now jr ctx client =
     (if jr_poisoned jr then (Err RouterPoisoned, drop_context ctx jr)
      else let s = jr_state jr
           in if rs_health_paused s \<and> \<not> rs_recovery_only s then
                (Err (RouterSession (SessionRegistry (RegistryStaleJob (bg_id (ga_generation (sc_admission ctx)))))), drop_context ctx jr)
              else if \<not> bound_client s client \<or> gr_last_event_seq (rs_registry s) \<noteq> bc_live_event_cursor client then
                (Err BackendConnectionMismatch, drop_context ctx jr)
              else case timeline_now_ms (jr_timeline jr) now of
                Err e \<Rightarrow> (Err (RouterTimeline e), drop_context ctx jr)
              | Ok now_ms \<Rightarrow>
                  (case from_session (refilter_zcash_candidate sha256 ctx (rs_registry s) now_ms (rs_health_paused s \<and> rs_recovery_only s)) of
                     (x, r) \<Rightarrow> (x, jr\<lparr>jr_state := s\<lparr>rs_registry := r\<rparr>\<rparr>)))"

definition JobRouter_current_generation ::
  "instant \<Rightarrow> job_router \<Rightarrow> (job_router_error, backend_generation option) result \<times> job_router" where
  "JobRouter_current_generation now jr =
     (if jr_poisoned jr then (Err RouterPoisoned, jr)
      else case locked_registry now jr (\<lambda>now_ms r. from_registry (current_generation r now_ms)) of
        (x, jr) \<Rightarrow> (and_then x (\<lambda>current. Ok (if rs_health_paused (jr_state jr) then None else current)), jr))"

abbreviation ids_of :: "admissible_job_ids \<Rightarrow> job_id list" where
  "ids_of a \<equiv> (case aji_current a of None \<Rightarrow> [] | Some current \<Rightarrow> [current]) @ aji_recent a"

definition JobRouter_admissible_job_ids :: "instant \<Rightarrow> job_router \<Rightarrow> (job_router_error, job_id list) result \<times> job_router" where
  "JobRouter_admissible_job_ids now jr =
     (if jr_poisoned jr then (Err RouterPoisoned, jr)
      else case locked_registry now jr (\<lambda>now_ms r. from_registry (GenerationRegistry_admissible_job_ids r now_ms)) of
        (x, jr) \<Rightarrow> (and_then x (\<lambda>admissible. Ok (if rs_health_paused (jr_state jr) then [] else ids_of admissible)), jr))"

definition retained_job_ids :: "instant \<Rightarrow> job_router \<Rightarrow> (job_router_error, job_id list) result \<times> job_router" where
  "retained_job_ids now jr =
     (if jr_poisoned jr then (Err RouterPoisoned, jr)
      else case locked_registry now jr (\<lambda>now_ms r. from_registry (GenerationRegistry_admissible_job_ids r now_ms)) of
        (x, jr) \<Rightarrow> (and_then x (\<lambda>admissible. Ok (ids_of admissible)), jr))"

definition JobRouter_winner_recovery_job_ids :: "instant \<Rightarrow> job_router \<Rightarrow> (job_router_error, job_id list) result \<times> job_router" where
  "JobRouter_winner_recovery_job_ids now jr =
     (if jr_poisoned jr then (Err RouterPoisoned, jr)
      else locked_registry now jr (\<lambda>now_ms r. from_registry (winner_recovery_job_ids r now_ms)))"

definition JobRouter_prepare_submission ::
  "(bytes \<Rightarrow> bytes) \<Rightarrow> instant \<Rightarrow> job_router \<Rightarrow> mining_session \<Rightarrow> string \<Rightarrow> job_id \<Rightarrow> bytes \<Rightarrow> nonce_suffix \<Rightarrow> bytes \<Rightarrow>
     (job_router_error, submission_context) result \<times> job_router" where
  "JobRouter_prepare_submission sha256 now jr session claimed_login i submitted_time nonce_suffix solution =
     (if jr_poisoned jr then (Err RouterPoisoned, jr)
      else locked_registry now jr (\<lambda>now_ms r.
        if rs_health_paused (jr_state jr) then
          (case GenerationRegistry_admissible_job_ids r now_ms of
             (Err e, r) \<Rightarrow> (Err (RouterRegistry e), r)
           | (Ok _, r) \<Rightarrow>
               if rs_recovery_only (jr_state jr)
               then from_session (prepare_paused_zcash_candidate sha256 session claimed_login i submitted_time nonce_suffix solution r now_ms)
               else (Err (RouterSession (SessionRegistry (RegistryStaleJob i))), r))
        else from_session (prepare_submission sha256 session claimed_login i submitted_time nonce_suffix solution r now_ms)))"

end
