(* ===== verification/Client_Operations.thy ===== *)
theory Client_Operations
  imports Backend_Client
begin

text \<open>
  The operations of \<open>BackendClient\<close> (\<open>crates/wcash-pool-backend-client/src/unix.rs\<close>): connecting, replaying journal pages,
  subscribing to jobs, submitting shares and asking for health. Dropping a running future is an exchange whose script
  ends early: the client stays unusable.
\<close>

section \<open>Connecting\<close>

definition verify_hello :: "backend_client \<Rightarrow> hello_ok \<Rightarrow> u64 \<Rightarrow> (client_error, unit) result" where
  "verify_hello c h last_event_seq =
     (let e = cc_expected (bc_config c)
      in try_all
        [ensure (ho_wcash_genesis h = eb_wcash_genesis e) (IdentityMismatch ''Wcash genesis''),
         ensure (ho_zcash_genesis h = eb_zcash_genesis e) (IdentityMismatch ''Zcash genesis''),
         ensure (ho_chain_id h = eb_chain_id e) (IdentityMismatch ''Wcash chain ID''),
         ensure (ho_wcash_payout_commitment h = eb_wcash_payout_commitment e) (IdentityMismatch ''Wcash payout commitment''),
         ensure (ho_zcash_payout_commitment h = eb_zcash_payout_commitment e) (IdentityMismatch ''Zcash payout commitment''),
         ensure (ho_share_target_ceiling_be h = eb_share_target_ceiling_be e) (IdentityMismatch ''share target ceiling''),
         ensure (case eb_backend_instance e of None \<Rightarrow> True | Some expected \<Rightarrow> expected = ho_backend_instance h)
           (IdentityMismatch ''backend instance''),
         ensure (case eb_journal_stream e of None \<Rightarrow> True | Some expected \<Rightarrow> expected = ho_journal_stream h)
           (IdentityMismatch ''journal stream''),
         ensure (last_event_seq \<le> ho_current_event_seq h) (EventCursorAhead last_event_seq (ho_current_event_seq h))])"

text \<open>\<open>opened\<close> is what opening the socket gave: \<open>Err None\<close> a timeout, \<open>Err (Some e)\<close> an error of the system.\<close>

definition fresh_client :: "socket \<Rightarrow> backend_client_config \<Rightarrow> nat \<Rightarrow> uuid \<Rightarrow> u64 \<Rightarrow> backend_client" where
  "fresh_client stream config token pool_instance last_event_seq =
     \<lparr>bc_stream = stream, bc_config = config,
      bc_identity = \<lparr>bi_backend_session = pool_instance, bi_backend_instance = pool_instance,
        bi_journal_stream = pool_instance, bi_capabilities = [], bi_current_event_seq = 0\<rparr>,
      bc_connection_token = token, bc_next_request_id = 1, bc_queued_events = [], bc_observed_events = [],
      bc_historical_events = [], bc_phase = Replay, bc_replay_cursor = last_event_seq, bc_replay_complete = False,
      bc_observed_event_high_watermark = 0, bc_live_event_cursor = None, bc_subscribed_snapshot_event_seq = None,
      bc_live_event_anchor_floor = None, bc_usable = True\<rparr>"

definition accept_hello :: "backend_client \<Rightarrow> hello_ok \<Rightarrow> u64 \<Rightarrow> backend_client" where
  "accept_hello c h last_event_seq =
     c\<lparr>bc_identity := \<lparr>bi_backend_session = ho_backend_session h, bi_backend_instance = ho_backend_instance h,
         bi_journal_stream = ho_journal_stream h, bi_capabilities = ho_capabilities h,
         bi_current_event_seq = ho_current_event_seq h\<rparr>,
       bc_observed_event_high_watermark := ho_current_event_seq h,
       bc_replay_complete := (last_event_seq = ho_current_event_seq h)\<rparr>"

definition hello_response :: "backend_client \<Rightarrow> u64 \<Rightarrow> backend_message \<Rightarrow> (client_error, backend_client) result" where
  "hello_response c last_event_seq response =
     (case response of
        HelloOk _ h \<Rightarrow> and_then (verify_hello c h last_event_seq) (\<lambda>_. Ok (accept_hello c h last_event_seq))
      | BackendError _ _ code message \<Rightarrow> Err (BackendRejected code message)
      | other \<Rightarrow> Err (UnexpectedResponse ''hello_ok'' (message_kind other)))"

definition connect ::
  "(bytes \<Rightarrow> bytes) \<Rightarrow> 'num json_api \<Rightarrow> instant \<Rightarrow> backend_client_config \<Rightarrow> (string option, socket) result \<Rightarrow> nat \<Rightarrow> uuid \<Rightarrow> u64 \<Rightarrow>
     (client_error, backend_client) result" where
  "connect sha256 api now config opened token pool_instance last_event_seq =
     and_then (map_err ClientConfig (BackendClientConfig_validate config)) (\<lambda>_.
     if last_event_seq \<noteq> 0 \<and> eb_journal_stream (cc_expected config) = None then Err MissingJournalIdentity
     else and_then (map_err (\<lambda>e. case e of None \<Rightarrow> ClientTimeout ''connect'' | Some x \<Rightarrow> ClientConnect x) opened) (\<lambda>stream.
     case allocate_request_id (fresh_client stream config token pool_instance last_event_seq) of
       (Err e, _) \<Rightarrow> Err e
     | (Ok request_id, c) \<Rightarrow>
         (case exchange sha256 api now c (Hello BACKEND_PROTOCOL_VERSION request_id pool_instance last_event_seq) ''hello'' False of
            (Err e, _) \<Rightarrow> Err e
          | (Ok (response, _), c) \<Rightarrow> hello_response c last_event_seq response)))"

section \<open>Subscription and replay\<close>

definition enter_live :: "backend_client \<Rightarrow> u64 \<Rightarrow> monotonic_anchor \<Rightarrow> backend_client" where
  "enter_live c event_seq anchor =
     c\<lparr>bc_live_event_cursor := Some event_seq, bc_subscribed_snapshot_event_seq := Some event_seq,
       bc_live_event_anchor_floor := Some anchor, bc_phase := LiveStream\<rparr>"

text \<open>The match on the response of each operation has a definition of its own.\<close>

definition subscribe_response ::
  "backend_client \<Rightarrow> u64 \<Rightarrow> backend_message \<Rightarrow> monotonic_anchor \<Rightarrow> (client_error, job_snapshot) result \<times> backend_client" where
  "subscribe_response c after_event_seq response anchor =
     (case response of
        JobSnapshot _ _ event_seq current recent \<Rightarrow>
          if event_seq < after_event_seq then invalidate c (SnapshotCursorBehind after_event_seq event_seq)
          else (case observe_watermark c ''job snapshot'' event_seq of
              (Err e, c) \<Rightarrow> (Err e, c)
            | (Ok _, c) \<Rightarrow>
                (let c = enter_live c event_seq anchor
                 in (Ok \<lparr>js_event_seq = event_seq, js_current = current, js_recent = recent,
                         js_replayed_through_event_seq = after_event_seq, js_anchor = anchor,
                         js_connection_binding = \<lparr>cb_authority = client_authority c,
                           cb_connection_token = bc_connection_token c, cb_snapshot_event_seq = event_seq\<rparr>\<rparr>, c)))
      | BackendError _ _ code message \<Rightarrow> (Err (BackendRejected code message), c)
      | other \<Rightarrow> invalidate c (UnexpectedResponse ''job_snapshot'' (message_kind other)))"

definition subscribe_jobs ::
  "(bytes \<Rightarrow> bytes) \<Rightarrow> 'num json_api \<Rightarrow> instant \<Rightarrow> backend_client \<Rightarrow> u64 \<Rightarrow> (client_error, job_snapshot) result \<times> backend_client" where
  "subscribe_jobs sha256 api now c after_event_seq =
     (case try_all
        [ensure_phase c ''subscribe_jobs'' Replay,
         ensure (after_event_seq = bc_replay_cursor c) (ReplayCursorMismatch (bc_replay_cursor c) after_event_seq),
         ensure (bc_replay_complete c) (ReplayIncomplete (bc_replay_cursor c))] of
        Err e \<Rightarrow> (Err e, c)
      | Ok _ \<Rightarrow>
          (case allocate_request_id c of
             (Err e, c) \<Rightarrow> (Err e, c)
           | (Ok request_id, c) \<Rightarrow>
               (case exchange sha256 api now c (SubscribeJobs BACKEND_PROTOCOL_VERSION request_id after_event_seq)
                   ''subscribe_jobs'' False of
                  (Err e, c) \<Rightarrow> (Err e, c)
                | (Ok (response, anchor), c) \<Rightarrow> subscribe_response c after_event_seq response anchor)))"

fun remember_historical_events :: "backend_client \<Rightarrow> backend_event list \<Rightarrow> backend_client" where
  "remember_historical_events c [] = c"
| "remember_historical_events c (event # events) =
     remember_historical_events (c\<lparr>bc_historical_events :=
       push_bounded (cc_event_queue_capacity (bc_config c)) (bc_historical_events c) event\<rparr>) events"

definition read_response ::
  "backend_client \<Rightarrow> u64 \<Rightarrow> u16 \<Rightarrow> backend_message \<Rightarrow> (client_error, event_page) result \<times> backend_client" where
  "read_response c after_event_seq limit response =
     (case response of
        EventsPage _ _ response_cursor next_event_seq complete events \<Rightarrow>
          if response_cursor \<noteq> after_event_seq then invalidate c (EventPageCursorMismatch after_event_seq response_cursor)
          else if unat limit < length events then invalidate c (EventPageLimitExceeded limit (length events))
          else (case (if complete then observe_watermark c ''completed event replay'' next_event_seq
                      else (Ok (), c\<lparr>bc_observed_event_high_watermark :=
                        max (bc_observed_event_high_watermark c) next_event_seq\<rparr>)) of
              (Err e, c) \<Rightarrow> (Err e, c)
            | (Ok _, c) \<Rightarrow>
                (Ok \<lparr>ep_after_event_seq = response_cursor, ep_next_event_seq = next_event_seq,
                     ep_complete = complete, ep_events = events\<rparr>,
                 remember_historical_events
                   (c\<lparr>bc_replay_cursor := next_event_seq, bc_replay_complete := complete\<rparr>) events))
      | BackendError _ _ code message \<Rightarrow> (Err (BackendRejected code message), c)
      | other \<Rightarrow> invalidate c (UnexpectedResponse ''events_page'' (message_kind other)))"

definition read_events ::
  "(bytes \<Rightarrow> bytes) \<Rightarrow> 'num json_api \<Rightarrow> instant \<Rightarrow> backend_client \<Rightarrow> u64 \<Rightarrow> u16 \<Rightarrow> (client_error, event_page) result \<times> backend_client" where
  "read_events sha256 api now c after_event_seq limit =
     (case try_all
        [ensure_phase c ''read_events'' Replay,
         ensure (1 \<le> limit \<and> limit \<le> MAX_EVENT_PAGE_ITEMS)
           (ClientProtocol (invalid ''read_events.limit'' (''must be in 1..='' @ decimal (unat MAX_EVENT_PAGE_ITEMS)))),
         ensure (after_event_seq = bc_replay_cursor c) (ReplayCursorMismatch (bc_replay_cursor c) after_event_seq)] of
        Err e \<Rightarrow> (Err e, c)
      | Ok _ \<Rightarrow>
          (case allocate_request_id c of
             (Err e, c) \<Rightarrow> (Err e, c)
           | (Ok request_id, c) \<Rightarrow>
               (case exchange sha256 api now c (ReadEvents BACKEND_PROTOCOL_VERSION request_id after_event_seq limit)
                   ''read_events'' False of
                  (Err e, c) \<Rightarrow> (Err e, c)
                | (Ok (response, _), c) \<Rightarrow> read_response c after_event_seq limit response)))"

definition health_response :: "backend_client \<Rightarrow> backend_message \<Rightarrow> (client_error, health_snapshot) result \<times> backend_client" where
  "health_response c response =
     (case response of
        HealthStatus _ _ event_seq healthy recovery_only pending_wcash quarantined_wcash pending_zcash \<Rightarrow>
          (case observe_watermark c ''health'' event_seq of
             (Err e, c) \<Rightarrow> (Err e, c)
           | (Ok _, c) \<Rightarrow>
               (case require_live_events_through c ''health'' event_seq of
                  (Err e, c) \<Rightarrow> (Err e, c)
                | (Ok _, c) \<Rightarrow>
                    (Ok \<lparr>hs_event_seq = event_seq, hs_healthy = healthy, hs_recovery_only = recovery_only,
                         hs_pending_wcash = pending_wcash, hs_quarantined_wcash = quarantined_wcash,
                         hs_pending_zcash = pending_zcash\<rparr>, c)))
      | BackendError _ _ code message \<Rightarrow> (Err (BackendRejected code message), c)
      | other \<Rightarrow> invalidate c (UnexpectedResponse ''health_status'' (message_kind other)))"

definition health ::
  "(bytes \<Rightarrow> bytes) \<Rightarrow> 'num json_api \<Rightarrow> instant \<Rightarrow> backend_client \<Rightarrow> (client_error, health_snapshot) result \<times> backend_client" where
  "health sha256 api now c =
     (case allocate_request_id c of
        (Err e, c) \<Rightarrow> (Err e, c)
      | (Ok request_id, c) \<Rightarrow>
          (case exchange sha256 api now c (Health BACKEND_PROTOCOL_VERSION request_id) ''health'' (bc_phase c = LiveStream) of
             (Err e, c) \<Rightarrow> (Err e, c)
           | (Ok (response, _), c) \<Rightarrow> health_response c response))"

text \<open>\<open>outcome\<close> is what shutting the write half down gave, \<open>None\<close> when the deadline passed.\<close>

definition shutdown :: "backend_client \<Rightarrow> (string, unit) result option \<Rightarrow> (client_error, unit) result" where
  "shutdown c outcome =
     and_then (ensure_usable c) (\<lambda>_.
     case outcome of None \<Rightarrow> Err (ClientTimeout ''shutdown'') | Some r \<Rightarrow> map_err (ClientIo ''shutdown'') r)"

section \<open>Shares\<close>

fun share_event_matches :: "backend_event \<Rightarrow> share_receipt \<Rightarrow> worker_identity \<Rightarrow> target_le \<Rightarrow> bool" where
  "share_event_matches (ShareCommittedEvent event_receipt job_id event_identity event_target_le) receipt identity target_le \<longleftrightarrow>
     event_receipt = receipt \<and> job_id = sr_job_id receipt \<and> event_identity = identity \<and> event_target_le = target_le"
| "share_event_matches _ _ _ _ \<longleftrightarrow> False"

definition live_evidence :: "backend_client \<Rightarrow> backend_event list" where
  "live_evidence c = map de_event (bc_queued_events c) @ bc_observed_events c"

definition require_matching_share_event ::
  "backend_client \<Rightarrow> share_receipt \<Rightarrow> worker_identity \<Rightarrow> target_le \<Rightarrow> u64 \<Rightarrow> bool \<Rightarrow> (client_error, unit) result \<times> backend_client" where
  "require_matching_share_event c receipt identity target_le live_cursor_before replayed =
     (if list_ex (\<lambda>event. BackendEvent_event_seq event = sr_event_seq receipt \<and> share_event_matches event receipt identity target_le)
           (live_evidence c) then (Ok (), c)
      else if replayed \<and> sr_event_seq receipt \<le> live_cursor_before then (Err (HistoricalReplayRequiresProjection receipt), c)
      else invalidate c (ShareCommitEventMismatch (sr_event_seq receipt)))"

text \<open>The first conflict of the retained evidence: the sequence of the receipt is taken by another event, or its share
  was journaled differently.\<close>

fun recorded_share :: "backend_event \<Rightarrow> share_receipt option" where
  "recorded_share (ShareCommittedEvent receipt _ _ _) = Some receipt"
| "recorded_share _ = None"

fun history_conflict ::
  "share_receipt \<Rightarrow> worker_identity \<Rightarrow> target_le \<Rightarrow> backend_event list \<Rightarrow> client_error option" where
  "history_conflict receipt identity target_le [] = None"
| "history_conflict receipt identity target_le (event # events) =
     (let exact_match = share_event_matches event receipt identity target_le
      in if BackendEvent_event_seq event = sr_event_seq receipt \<and> \<not> exact_match then
           Some (ShareCommitEventMismatch (sr_event_seq receipt))
         else case recorded_share event of
           Some recorded \<Rightarrow>
             if sr_share_id recorded = sr_share_id receipt \<and> \<not> exact_match then
               Some (ShareCommitHistoryConflict (sr_event_seq recorded) (sr_event_seq receipt))
             else history_conflict receipt identity target_le events
         | None \<Rightarrow> history_conflict receipt identity target_le events)"

definition require_consistent_share_history ::
  "backend_client \<Rightarrow> share_receipt \<Rightarrow> worker_identity \<Rightarrow> target_le \<Rightarrow> (client_error, unit) result \<times> backend_client" where
  "require_consistent_share_history c receipt identity target_le =
     (case history_conflict receipt identity target_le (live_evidence c @ bc_historical_events c) of
        Some e \<Rightarrow> invalidate c e
      | None \<Rightarrow> (Ok (), c))"

fun share_event_names :: "bytes \<Rightarrow> bytes \<Rightarrow> bytes \<Rightarrow> worker_identity \<Rightarrow> target_le \<Rightarrow> backend_event \<Rightarrow> bool" where
  "share_event_names job_id share_id attribution_id identity target_le
     (ShareCommittedEvent receipt event_job_id event_identity event_target_le) \<longleftrightarrow>
       event_job_id = job_id \<and> sr_job_id receipt = job_id \<and> sr_share_id receipt = share_id \<and>
       sr_attribution_id receipt = attribution_id \<and> event_identity = identity \<and> event_target_le = target_le"
| "share_event_names _ _ _ _ _ _ \<longleftrightarrow> False"

definition matching_share_event_seq ::
  "backend_client \<Rightarrow> bytes \<Rightarrow> bytes \<Rightarrow> bytes \<Rightarrow> worker_identity \<Rightarrow> target_le \<Rightarrow> u64 option" where
  "matching_share_event_seq c job_id share_id attribution_id identity target_le =
     map_option BackendEvent_event_seq
       (List.find (share_event_names job_id share_id attribution_id identity target_le) (live_evidence c @ bc_historical_events c))"

definition check_receipt ::
  "backend_client \<Rightarrow> share_submission \<Rightarrow> bytes \<Rightarrow> bytes \<Rightarrow> u64 \<Rightarrow> share_receipt \<Rightarrow> bool \<Rightarrow>
     (client_error, share_commit) result \<times> backend_client" where
  "check_receipt c s share_id attribution_id live_cursor_before receipt replayed =
     (case try_all
        [ensure (sr_job_id receipt = sb_job_id s)
           (ClientProtocol (invalid ''share_receipt.job_id'' ''must match the submitted backend generation'')),
         ensure (sr_share_id receipt = share_id)
           (ClientProtocol (invalid ''share_receipt.share_id'' ''must match the canonical submitted proof identity'')),
         ensure (sr_attribution_id receipt = attribution_id)
           (ClientProtocol (invalid ''share_receipt.attribution_id'' ''must match the submitted worker identity and target'')),
         ensure (\<not> (\<not> replayed \<and> sr_event_seq receipt \<le> live_cursor_before))
           (FreshShareCommitDidNotAdvance (sr_event_seq receipt) live_cursor_before)] of
        Err e \<Rightarrow> invalidate c e
      | Ok _ \<Rightarrow>
          (case require_live_events_through c ''share commit'' (sr_event_seq receipt) of
             (Err e, c) \<Rightarrow> (Err e, c)
           | (Ok _, c) \<Rightarrow>
               (case require_consistent_share_history c receipt (sb_identity s) (sb_target_le s) of
                  (Err e, c) \<Rightarrow> (Err e, c)
                | (Ok _, c) \<Rightarrow>
                    (case require_matching_share_event c receipt (sb_identity s) (sb_target_le s) live_cursor_before replayed of
                       (Err e, c) \<Rightarrow> (Err e, c)
                     | (Ok _, c) \<Rightarrow> (Ok \<lparr>cm_receipt = receipt, cm_replayed = replayed\<rparr>, c)))))"

definition submit_response ::
  "backend_client \<Rightarrow> share_submission \<Rightarrow> bytes \<Rightarrow> bytes \<Rightarrow> u64 \<Rightarrow> backend_message \<Rightarrow>
     (client_error, share_commit) result \<times> backend_client" where
  "submit_response c s share_id attribution_id live_cursor_before response =
     (case response of
        ShareCommitted _ _ receipt replayed \<Rightarrow> check_receipt c s share_id attribution_id live_cursor_before receipt replayed
      | BackendError _ _ code message \<Rightarrow>
          (case matching_share_event_seq c (sb_job_id s) share_id attribution_id (sb_identity s) (sb_target_le s) of
             Some event_seq \<Rightarrow> invalidate c (ContradictoryShareOutcome event_seq)
           | None \<Rightarrow> (Err (BackendRejected code message), c))
      | other \<Rightarrow> invalidate c (UnexpectedResponse ''share_committed'' (message_kind other)))"

definition submit_live ::
  "(bytes \<Rightarrow> bytes) \<Rightarrow> 'num json_api \<Rightarrow> instant \<Rightarrow> backend_client \<Rightarrow> share_submission \<Rightarrow> u64 \<Rightarrow> bytes \<Rightarrow>
     (client_error, share_commit) result \<times> backend_client" where
  "submit_live sha256 api now c s live_cursor_before attribution_id =
     (case allocate_request_id c of
        (Err e, c) \<Rightarrow> (Err e, c)
      | (Ok request_id, c) \<Rightarrow>
          (case exchange sha256 api now c
              (SubmitShare \<lparr>ss_version = BACKEND_PROTOCOL_VERSION, ss_id = request_id, ss_job_id = sb_job_id s,
                 ss_identity = sb_identity s, ss_target_le = sb_target_le s, ss_time = sb_time s, ss_nonce = sb_nonce s,
                 ss_solution = sb_solution s\<rparr>) ''submit_share'' True of
             (Err e, c) \<Rightarrow> (Err e, c)
           | (Ok (response, _), c) \<Rightarrow>
               submit_response c s (canonical_share_id sha256 (sb_job_id s) (sb_time s) (sb_nonce s) (sb_solution s))
                 attribution_id live_cursor_before response))"

definition client_submit_share ::
  "(bytes \<Rightarrow> bytes) \<Rightarrow> 'num json_api \<Rightarrow> instant \<Rightarrow> backend_client \<Rightarrow> share_submission \<Rightarrow> (client_error, share_commit) result \<times> backend_client" where
  "client_submit_share sha256 api now c s =
     (case ensure_phase c ''submit_share'' LiveStream of
        Err e \<Rightarrow> (Err e, c)
      | Ok _ \<Rightarrow>
          (case bc_live_event_cursor c of
             None \<Rightarrow> invalidate c (UnexpectedResponse ''job_snapshot'' ''live share submission'')
           | Some live_cursor_before \<Rightarrow>
               (case map_err ClientProtocol (canonical_attribution_id sha256 (sb_identity s) (sb_target_le s)) of
                  Err e \<Rightarrow> (Err e, c)
                | Ok attribution_id \<Rightarrow> submit_live sha256 api now c s live_cursor_before attribution_id)))"

definition recovery_role_matches :: "share_receipt \<Rightarrow> bool \<Rightarrow> bool \<Rightarrow> bool" where
  "recovery_role_matches receipt paused_zcash_candidate replayed =
     (if replayed \<or> paused_zcash_candidate then list_ex (\<lambda>winner. wd_chain winner = Zcash) (sr_winners receipt)
      else case sr_winners receipt of [winner] \<Rightarrow> wd_chain winner = Zcash | _ \<Rightarrow> False)"

definition validate_receipt_for_job ::
  "backend_client \<Rightarrow> share_receipt \<Rightarrow> job_descriptor \<Rightarrow> bytes \<Rightarrow> bool \<Rightarrow> bool \<Rightarrow> bool \<Rightarrow> (client_error, unit) result \<times> backend_client" where
  "validate_receipt_for_job c receipt job expected_parent_hash_le winner_recovery paused_zcash_candidate replayed =
     (case try_all
        [map_err ClientProtocol (ShareReceipt_validate_for_job receipt job),
         ensure (\<not> (winner_recovery \<and> \<not> recovery_role_matches receipt paused_zcash_candidate replayed))
           (ClientProtocol (invalid ''share_receipt.winners''
             ''historical fresh recovery must create only a Zcash winner; paused candidates and replay must contain Zcash'')),
         ensure (sr_parent_hash_le receipt = expected_parent_hash_le)
           (ClientProtocol (invalid ''share_receipt.parent_hash_le'' ''must match the exact submitted parent header''))] of
        Err e \<Rightarrow> invalidate c e
      | Ok _ \<Rightarrow> (Ok (), c))"

definition context_submission :: "submission_context \<Rightarrow> share_submission" where
  "context_submission ctx =
     \<lparr>sb_job_id = JobId_to_protocol (GenerationAdmission_job_id (sc_admission ctx)), sb_identity = sc_identity ctx,
      sb_target_le = sc_target_le ctx, sb_time = sc_time ctx, sb_nonce = sc_nonce ctx, sb_solution = sc_solution ctx\<rparr>"

definition submit_prepared_share_borrowed ::
  "(bytes \<Rightarrow> bytes) \<Rightarrow> 'num json_api \<Rightarrow> instant \<Rightarrow> backend_client \<Rightarrow> submission_context \<Rightarrow> (client_error, share_commit) result \<times> backend_client" where
  "submit_prepared_share_borrowed sha256 api now c ctx =
     (let job = bg_descriptor (ga_generation (sc_admission ctx));
          parent = canonical_parent_header_hash_le sha256 (jd_header_input job) (sc_nonce ctx) (sc_solution ctx);
          recovery = GenerationAdmission_is_winner_recovery (sc_admission ctx);
          paused = GenerationAdmission_is_paused_zcash_candidate (sc_admission ctx)
      in case client_submit_share sha256 api now c (context_submission ctx) of
           (Ok commit, c) \<Rightarrow>
             (case validate_receipt_for_job c (cm_receipt commit) job parent recovery paused (cm_replayed commit) of
                (Err e, c) \<Rightarrow> (Err e, c)
              | (Ok _, c) \<Rightarrow> (Ok commit, c))
         | (Err (HistoricalReplayRequiresProjection receipt), c) \<Rightarrow>
             (case validate_receipt_for_job c receipt job parent recovery paused True of
                (Err e, c) \<Rightarrow> (Err e, c)
              | (Ok _, c) \<Rightarrow> (Err (HistoricalReplayRequiresProjection receipt), c))
         | (Err e, c) \<Rightarrow> (Err e, c))"

definition submit_recovery_candidate ::
  "(bytes \<Rightarrow> bytes) \<Rightarrow> 'num json_api \<Rightarrow> instant \<Rightarrow> backend_client \<Rightarrow> submission_context \<Rightarrow> (client_error, share_commit) result \<times> backend_client" where
  "submit_recovery_candidate sha256 api now c ctx =
     (if \<not> GenerationAdmission_is_winner_recovery (sc_admission ctx) then
        (Err (ClientProtocol (invalid ''submission.role'' ''bounded retries require a qualified Zcash candidate'')), c)
      else submit_prepared_share_borrowed sha256 api now c ctx)"

end
