(* ===== verification/Client_Invariants.thy ===== *)
theory Client_Invariants
  imports Client_Operations "HOL-Library.Sublist"
begin

text \<open>
  The invariant of a backend connection: the phase determines which cursors exist, watermarks dominate cursors, every
  buffer is bounded, and the live events seen on the connection are consecutive and carry its own binding.
\<close>

section \<open>What an exchange changes\<close>

text \<open>The part of a client that waiting for a response cannot touch.\<close>

definition client_frame where
  "client_frame c = (bc_config c, bc_identity c, bc_connection_token c, bc_next_request_id c, bc_observed_events c,
     bc_historical_events c, bc_phase c, bc_replay_cursor c, bc_replay_complete c, bc_subscribed_snapshot_event_seq c)"

definition event_no :: "delivered_backend_event \<Rightarrow> nat" where
  "event_no d = unat (BackendEvent_event_seq (de_event d))"

text \<open>\<open>new\<close> was queued with one anchor and one binding, consecutively after the cursor.\<close>

definition events_added ::
  "monotonic_anchor \<Rightarrow> backend_connection_binding option \<Rightarrow> backend_client \<Rightarrow> backend_client \<Rightarrow> delivered_backend_event list \<Rightarrow> bool" where
  "events_added anchor binding c c' new \<longleftrightarrow>
     bc_queued_events c' = bc_queued_events c @ new \<and>
     (\<forall>d \<in> set new. de_anchor d = anchor \<and> Some (de_connection_binding d) = binding) \<and>
     (case bc_live_event_cursor c of
        None \<Rightarrow> new = [] \<and> bc_live_event_cursor c' = None \<and>
          bc_observed_event_high_watermark c' = bc_observed_event_high_watermark c
      | Some cur \<Rightarrow> \<exists>cur'. bc_live_event_cursor c' = Some cur' \<and> cur \<le> cur' \<and>
          map event_no new = [Suc (unat cur) ..< Suc (unat cur')] \<and>
          (cur \<le> bc_observed_event_high_watermark c \<longrightarrow>
             bc_observed_event_high_watermark c' = max (bc_observed_event_high_watermark c) cur'))"

definition received :: "monotonic_anchor \<Rightarrow> backend_connection_binding option \<Rightarrow> backend_client \<Rightarrow> backend_client \<Rightarrow> bool" where
  "received anchor binding c c' \<longleftrightarrow>
     client_frame c' = client_frame c \<and> bc_usable c' = bc_usable c \<and>
     bc_live_event_anchor_floor c' = bc_live_event_anchor_floor c \<and>
     (length (bc_queued_events c) \<le> cc_event_queue_capacity (bc_config c) \<longrightarrow>
        length (bc_queued_events c') \<le> cc_event_queue_capacity (bc_config c)) \<and>
     (\<exists>new. events_added anchor binding c c' new)"

lemma client_frame_simps [simp]:
  "client_frame (c\<lparr>bc_stream := s\<rparr>) = client_frame c"
  "client_frame (c\<lparr>bc_usable := u\<rparr>) = client_frame c"
  "client_frame (c\<lparr>bc_queued_events := q\<rparr>) = client_frame c"
  "client_frame (c\<lparr>bc_live_event_cursor := l\<rparr>) = client_frame c"
  "client_frame (c\<lparr>bc_observed_event_high_watermark := w\<rparr>) = client_frame c"
  "client_frame (c\<lparr>bc_live_event_anchor_floor := a\<rparr>) = client_frame c"
  by (simp_all add: client_frame_def)

lemma client_frame_config: "client_frame c' = client_frame c \<Longrightarrow> bc_config c' = bc_config c"
  by (simp add: client_frame_def)

lemma events_added_none:
  assumes "bc_queued_events c' = bc_queued_events c" "bc_live_event_cursor c' = bc_live_event_cursor c"
    "bc_observed_event_high_watermark c' = bc_observed_event_high_watermark c"
  shows "events_added a b c c' []"
  using assms by (cases "bc_live_event_cursor c") (auto simp: events_added_def max_def)

lemma received_stream [simp]: "received a b c (c\<lparr>bc_stream := s\<rparr>)"
proof -
  have "events_added a b c (c\<lparr>bc_stream := s\<rparr>) []" by (rule events_added_none) simp_all
  then show ?thesis by (auto simp: received_def)
qed

lemma received_refl [simp]: "received a b c c"
  using received_stream [of a b c "bc_stream c"] by simp

lemma received_set_reads [simp]: "received a b c (set_reads c reads)"
  by (simp add: set_reads_def)

lemma upt_join: "i \<le> j \<Longrightarrow> j \<le> k \<Longrightarrow> [i..<j] @ [j..<k] = [i..<k]"
  using upt_add_eq_append [of i j "k - j"] by simp

lemma events_added_trans:
  assumes "events_added a b c d new" "events_added a b d e new'"
  shows "events_added a b c e (new @ new')"
proof (cases "bc_live_event_cursor c")
  case None
  with assms show ?thesis by (simp add: events_added_def)
next
  case (Some cur)
  with assms(1) obtain cur' where d: "bc_live_event_cursor d = Some cur'" "cur \<le> cur'"
      "map event_no new = [Suc (unat cur) ..< Suc (unat cur')]"
      "cur \<le> bc_observed_event_high_watermark c \<longrightarrow> bc_observed_event_high_watermark d = max (bc_observed_event_high_watermark c) cur'"
    by (auto simp: events_added_def simp del: upt_Suc)
  with assms(2) obtain cur'' where e: "bc_live_event_cursor e = Some cur''" "cur' \<le> cur''"
      "map event_no new' = [Suc (unat cur') ..< Suc (unat cur'')]"
      "cur' \<le> bc_observed_event_high_watermark d \<longrightarrow> bc_observed_event_high_watermark e = max (bc_observed_event_high_watermark d) cur''"
    by (auto simp: events_added_def simp del: upt_Suc)
  have "map event_no (new @ new') = [Suc (unat cur) ..< Suc (unat cur'')]"
    using d(2,3) e(2,3) by (simp add: word_le_nat_alt upt_join del: upt_Suc)
  moreover have "bc_observed_event_high_watermark e = max (bc_observed_event_high_watermark c) cur''"
    if "cur \<le> bc_observed_event_high_watermark c"
    using that d(4) e(2,4) by (auto simp: max_def split: if_splits)
  moreover have "cur \<le> cur''" using d(2) e(2) by simp
  moreover have "\<forall>x \<in> set (new @ new'). de_anchor x = a \<and> Some (de_connection_binding x) = b"
    "bc_queued_events e = bc_queued_events c @ new @ new'"
    using assms by (auto simp: events_added_def simp del: upt_Suc)
  ultimately show ?thesis using Some e(1) by (simp add: events_added_def del: upt_Suc)
qed

lemma received_trans:
  assumes "received a b c d" "received a b d e"
  shows "received a b c e"
proof -
  obtain new new' where "events_added a b c d new" "events_added a b d e new'" using assms by (auto simp: received_def)
  then have "events_added a b c e (new @ new')" by (rule events_added_trans)
  moreover have "bc_config d = bc_config c" using assms(1) by (auto simp: received_def intro: client_frame_config)
  ultimately show ?thesis using assms unfolding received_def by metis
qed

text \<open>A queued event, and the only way to queue one.\<close>

definition queue_event :: "monotonic_anchor \<Rightarrow> backend_connection_binding \<Rightarrow> backend_client \<Rightarrow> backend_event \<Rightarrow> backend_client" where
  "queue_event anchor b c event =
     c\<lparr>bc_live_event_cursor := Some (BackendEvent_event_seq event),
       bc_observed_event_high_watermark := max (bc_observed_event_high_watermark c) (BackendEvent_event_seq event),
       bc_queued_events := bc_queued_events c @ [\<lparr>de_event = event, de_anchor = anchor, de_connection_binding = b\<rparr>]\<rparr>"

lemma accept_event_eq:
  "accept_event operation allow anchor (Some b) c event =
     (if \<not> allow then (Err (UnexpectedResponse (expected_response_kind operation) ''event''), c)
      else case bc_live_event_cursor c of
        None \<Rightarrow> (Err (UnexpectedResponse ''job_snapshot'' ''event''), c)
      | Some previous \<Rightarrow>
          (case checked_add previous 1 of
             None \<Rightarrow> (Err (ClientProtocol (invalid ''event.event_seq'' ''journal sequence exhausted'')), c)
           | Some expected \<Rightarrow>
               if BackendEvent_event_seq event \<noteq> expected then
                 (Err (LiveEventSequenceMismatch expected (BackendEvent_event_seq event)), c)
               else if length (bc_queued_events c) = cc_event_queue_capacity (bc_config c) then
                 (Err (EventQueueFull (cc_event_queue_capacity (bc_config c))), c)
               else (Ok (), queue_event anchor b c event)))"
  by (cases "bc_live_event_cursor c"; cases "checked_add (the (bc_live_event_cursor c)) 1")
    (simp_all add: accept_event_def Let_def queue_event_def)

lemma accept_event_cases:
  assumes "accept_event operation allow anchor (Some b) c event = (x, c')"
  shows "(c' = c \<and> \<not> is_ok x) \<or> (\<exists>cur. bc_live_event_cursor c = Some cur \<and> checked_add cur 1 = Some (BackendEvent_event_seq event) \<and>
      length (bc_queued_events c) \<noteq> cc_event_queue_capacity (bc_config c) \<and> c' = queue_event anchor b c event)"
  using assms unfolding accept_event_eq by (auto split: if_splits option.splits)

lemma accept_event_received:
  assumes "accept_event operation allow anchor (Some b) c event = (x, c')"
  shows "received anchor (Some b) c c'"
proof (cases "c' = c")
  case False
  then obtain cur where 2: "bc_live_event_cursor c = Some cur" "checked_add cur 1 = Some (BackendEvent_event_seq event)"
      "length (bc_queued_events c) \<noteq> cc_event_queue_capacity (bc_config c)" "c' = queue_event anchor b c event"
    using accept_event_cases [OF assms] by blast
  have n: "unat (BackendEvent_event_seq event) = Suc (unat cur)" using 2(2) by (simp add: checked_add_Some)
  then have "cur \<le> BackendEvent_event_seq event" by (simp add: word_le_nat_alt)
  with 2(1,4) n have "events_added anchor (Some b) c c' [\<lparr>de_event = event, de_anchor = anchor, de_connection_binding = b\<rparr>]"
    by (simp add: events_added_def event_no_def queue_event_def)
  moreover have "client_frame c' = client_frame c" by (simp add: 2(4) client_frame_def queue_event_def)
  moreover have "bc_usable c' = bc_usable c" "bc_live_event_anchor_floor c' = bc_live_event_anchor_floor c"
    "length (bc_queued_events c') = Suc (length (bc_queued_events c))"
    by (simp_all add: 2(4) queue_event_def)
  ultimately show ?thesis using 2(3) by (auto simp: received_def)
qed simp

lemma accept_event_forbidden:
  assumes "accept_event operation allow anchor b c event = (x, c')" "\<not> allow"
  shows "c' = c" "\<not> is_ok x"
  using assms(1) unfolding accept_event_def if_P [OF assms(2)] by auto

text \<open>One turn of the loop.\<close>

lemma await_response_event:
  assumes "read_backend_message sha256 api (sk_reads (bc_stream c)) = (Ok (BackendEventMessage v event), reads)"
    "accept_event operation allow anchor binding (set_reads c reads) event = (y, d)"
  shows "await_response sha256 api rid operation allow anchor binding c =
    (case y of Err e \<Rightarrow> (Err (Failed e), d) | Ok _ \<Rightarrow> await_response sha256 api rid operation allow anchor binding d)"
  using assms by (simp add: await_response.simps [of sha256 api rid operation allow anchor binding c])

lemma await_response_other:
  assumes "read_backend_message sha256 api (sk_reads (bc_stream c)) = (r, reads)" "\<nexists>v event. r = Ok (BackendEventMessage v event)"
  shows "snd (await_response sha256 api rid operation allow anchor binding c) = set_reads c reads"
proof (cases r)
  case (Ok m)
  with assms show ?thesis
    by (cases m) (simp_all add: await_response.simps [of sha256 api rid operation allow anchor binding c])
qed (use assms in \<open>simp add: await_response.simps [of sha256 api rid operation allow anchor binding c]\<close>)

lemma await_response_received:
  assumes "await_response sha256 api rid operation allow anchor binding c = (x, c')" "allow \<longrightarrow> binding \<noteq> None"
  shows "received anchor binding c c'"
  using assms
proof (induction "reads_size (sk_reads (bc_stream c))" arbitrary: c rule: less_induct)
  case less
  obtain r reads where m: "read_backend_message sha256 api (sk_reads (bc_stream c)) = (r, reads)"
    by (cases "read_backend_message sha256 api (sk_reads (bc_stream c))")
  show ?case
  proof (cases "\<exists>v event. r = Ok (BackendEventMessage v event)")
    case True
    then obtain v event where r: "r = Ok (BackendEventMessage v event)" by blast
    obtain y d where a: "accept_event operation allow anchor binding (set_reads c reads) event = (y, d)"
      by (cases "accept_event operation allow anchor binding (set_reads c reads) event")
    have "received anchor binding (set_reads c reads) d"
    proof (cases allow)
      case True
      with less.prems(2) obtain b where "binding = Some b" by auto
      with a show ?thesis using accept_event_received [of operation allow anchor b "set_reads c reads" event y d] by simp
    next
      case False
      with accept_event_forbidden(1) [OF a] show ?thesis by simp
    qed
    then have d: "received anchor binding c d" using received_trans [OF received_set_reads] by blast
    note turn = await_response_event [OF m [unfolded r] a, of rid]
    show ?thesis
    proof (cases y)
      case (Err e)
      with turn less.prems(1) d show ?thesis by simp
    next
      case (Ok u)
      with turn less.prems(1) have next_turn: "await_response sha256 api rid operation allow anchor binding d = (x, c')" by simp
      have "reads_size (sk_reads (bc_stream d)) < reads_size (sk_reads (bc_stream c))"
        using read_backend_message_size [OF m [unfolded r]] accept_event_stream [OF a] by (simp add: set_reads_def)
      from less.hyps [OF this next_turn less.prems(2)] d show ?thesis using received_trans by blast
    qed
  next
    case False
    with await_response_other [OF m, of rid operation allow anchor binding] less.prems(1) have "c' = set_reads c reads" by simp
    then show ?thesis by simp
  qed
qed

text \<open>A message that was read is a well-formed one, and the awaited one answers the request.\<close>

lemma read_backend_message_valid:
  "read_backend_message sha256 api reads = (Ok m, reads') \<Longrightarrow> BackendMessage_validate sha256 m = Ok ()"
  by (auto simp: read_backend_message_def decode_backend_message_def Let_def split: prod.splits result.splits if_splits)

definition answers :: "(bytes \<Rightarrow> bytes) \<Rightarrow> u64 \<Rightarrow> backend_message \<Rightarrow> bool" where
  "answers sha256 rid m \<longleftrightarrow> BackendMessage_correlation_id m = Some rid \<and> BackendMessage_validate sha256 m = Ok ()"

lemma await_response_answers:
  assumes "await_response sha256 api rid operation allow anchor binding c = (Ok m, c')"
  shows "answers sha256 rid m"
  using assms
proof (induction "reads_size (sk_reads (bc_stream c))" arbitrary: c rule: less_induct)
  case less
  obtain r reads where r: "read_backend_message sha256 api (sk_reads (bc_stream c)) = (r, reads)"
    by (cases "read_backend_message sha256 api (sk_reads (bc_stream c))")
  show ?case
  proof (cases "\<exists>v event. r = Ok (BackendEventMessage v event)")
    case True
    then obtain v event where e: "r = Ok (BackendEventMessage v event)" by blast
    obtain y d where a: "accept_event operation allow anchor binding (set_reads c reads) event = (y, d)"
      by (cases "accept_event operation allow anchor binding (set_reads c reads) event")
    note turn = await_response_event [OF r [unfolded e] a, of rid]
    have "reads_size (sk_reads (bc_stream d)) < reads_size (sk_reads (bc_stream c))"
      using read_backend_message_size [OF r [unfolded e]] accept_event_stream [OF a] by (simp add: set_reads_def)
    moreover have "await_response sha256 api rid operation allow anchor binding d = (Ok m, c')"
      using turn less.prems by (cases y) simp_all
    ultimately show ?thesis by (rule less.hyps)
  next
    case False
    then show ?thesis
    proof (cases r)
      case (Ok m')
      from False less.prems r Ok have "m' = m" "BackendMessage_correlation_id m' = Some rid"
        by (cases m'; simp add: await_response.simps [of sha256 api rid operation allow anchor binding c] split: if_splits)+
      with r Ok show ?thesis using read_backend_message_valid by (auto simp: answers_def)
    qed (use less.prems r in \<open>simp add: await_response.simps [of sha256 api rid operation allow anchor binding c]\<close>)
  qed
qed

lemma received_usable: "received a b (c\<lparr>bc_usable := u\<rparr>) d \<Longrightarrow> received a b c (d\<lparr>bc_usable := bc_usable c\<rparr>)"
  by (simp add: received_def events_added_def client_frame_def cong: option.case_cong)

text \<open>The outcome of an exchange: nothing happened, or the connection is unusable with what it received, or the response
  arrived.\<close>

definition exchanged ::
  "(bytes \<Rightarrow> bytes) \<Rightarrow> instant \<Rightarrow> bool \<Rightarrow> u64 \<Rightarrow> (client_error, backend_message \<times> monotonic_anchor) result \<Rightarrow> backend_client \<Rightarrow> backend_client \<Rightarrow> bool" where
  "exchanged sha256 now allow rid x c c' \<longleftrightarrow>
     (c' = c \<and> \<not> is_ok x) \<or> (c' = c\<lparr>bc_usable := False\<rparr> \<and> \<not> is_ok x) \<or>
     (\<exists>a b d. bc_usable c \<and> event_source c allow (MonotonicAnchor now) = Some (a, b) \<and> received a b c d \<and>
        (c' = d\<lparr>bc_usable := False\<rparr> \<and> \<not> is_ok x \<or>
         (\<exists>m. x = Ok (m, MonotonicAnchor now) \<and> answers sha256 rid m \<and>
            c' = (if allow then d\<lparr>bc_live_event_anchor_floor := Some (MonotonicAnchor now)\<rparr> else d))))"

lemma event_source_binding:
  "event_source c allow anchor = Some (a, b) \<Longrightarrow>
     (if allow then bc_live_event_anchor_floor c = Some a \<and> b \<noteq> None \<and> connection_binding c = b else b = None)"
  by (cases "bc_live_event_anchor_floor c"; cases "connection_binding c"; cases allow)
    (auto simp: event_source_def dest: sym [of "Some _" b])

lemma write_all_stream: "received a b c d \<Longrightarrow> received a b c (d\<lparr>bc_stream := s\<rparr>)"
  using received_trans received_stream by blast

lemma exchange_exchanged:
  assumes "exchange sha256 api now c request operation allow = (x, c')"
  shows "exchanged sha256 now allow (BackendRequest_id request) x c c'"
proof (cases "and_then (ensure_usable c) (\<lambda>_. map_err ClientProtocol (encode_backend_request (api_to_vec api) request))")
  case (Err e)
  with assms have "c' = c" "x = Err e" by (simp_all add: exchange_def)
  then show ?thesis by (simp add: exchanged_def)
next
  case (Ok frame)
  then have usable: "bc_usable c" by (simp add: ensure_usable_def)
  show ?thesis
  proof (cases "event_source c allow (MonotonicAnchor now)")
    case None
    with assms Ok have "c' = c\<lparr>bc_usable := False\<rparr>" "\<not> is_ok x" by (auto simp: exchange_def invalidate_def)
    then show ?thesis by (simp add: exchanged_def)
  next
    case (Some ab)
    obtain a b where ab: "ab = (a, b)" by (cases ab)
    let ?c = "c\<lparr>bc_usable := False\<rparr>"
    have b: "allow \<longrightarrow> b \<noteq> None" using event_source_binding [OF Some [unfolded ab]] by auto
    obtain w stream where w: "write_all (bc_stream c) frame = (w, stream)" by (cases "write_all (bc_stream c) frame")
    define y where "y = (case w of Err e \<Rightarrow> (Err e, ?c\<lparr>bc_stream := stream\<rparr>)
      | Ok _ \<Rightarrow> await_response sha256 api (BackendRequest_id request) operation allow a b (?c\<lparr>bc_stream := stream\<rparr>))"
    obtain r d where y: "y = (r, d)" by (cases y)
    have rec: "received a b ?c d"
    proof (cases w)
      case (Ok u)
      with y y_def have "received a b (?c\<lparr>bc_stream := stream\<rparr>) d"
        using await_response_received [of sha256 api "BackendRequest_id request" operation allow a b "?c\<lparr>bc_stream := stream\<rparr>" r d] b
        by simp
      then show ?thesis using received_trans [OF received_stream] by blast
    next
      case (Err e)
      with y y_def have "d = ?c\<lparr>bc_stream := stream\<rparr>" by simp
      then show ?thesis by (simp only: received_stream)
    qed
    then have rec': "received a b c (d\<lparr>bc_usable := True\<rparr>)" "bc_usable d = False"
      using received_usable [OF rec] usable by (simp_all add: received_def)
    have out: "(x, c') = (case y of
        (Ok message, c) \<Rightarrow> (Ok (message, MonotonicAnchor now),
           (if allow then c\<lparr>bc_live_event_anchor_floor := Some (MonotonicAnchor now)\<rparr> else c)\<lparr>bc_usable := True\<rparr>)
      | (Err (Failed e), c) \<Rightarrow> (Err e, c) | (Err DeadlineElapsed, c) \<Rightarrow> (Err (ClientTimeout operation), c))"
      using assms Ok Some ab w by (cases w) (simp_all add: exchange_def Let_def y_def)
    show ?thesis
    proof (cases r)
      case (Ok m)
      with y y_def w have "answers sha256 (BackendRequest_id request) m"
        using await_response_answers by (cases w) auto
      moreover have "x = Ok (m, MonotonicAnchor now)"
        "c' = (if allow then (d\<lparr>bc_usable := True\<rparr>)\<lparr>bc_live_event_anchor_floor := Some (MonotonicAnchor now)\<rparr> else d\<lparr>bc_usable := True\<rparr>)"
        using out y Ok by simp_all
      ultimately show ?thesis using rec'(1) Some ab usable unfolding exchanged_def by blast
    next
      case (Err e)
      with out y have "c' = d" "\<not> is_ok x" by (cases e; simp)+
      moreover have "c' = (d\<lparr>bc_usable := True\<rparr>)\<lparr>bc_usable := False\<rparr>" using \<open>c' = d\<close> rec'(2) by simp
      ultimately show ?thesis using rec'(1) Some ab usable unfolding exchanged_def by blast
    qed
  qed
qed

section \<open>The invariant of a connection\<close>

text \<open>A connection with the journal events it has replayed since \<open>cr_from\<close> and the live events it has handed out.\<close>

record client_run =
  cr_client :: backend_client
  cr_from :: u64
  cr_replayed :: "backend_event list"
  cr_handed :: "delivered_backend_event list"

definition latest :: "nat \<Rightarrow> 'a list \<Rightarrow> 'a list" where
  "latest n xs = drop (length xs - n) xs"

definition replay_wf :: "client_run \<Rightarrow> bool" where
  "replay_wf r \<longleftrightarrow> (let c = cr_client r in
     map (unat \<circ> BackendEvent_event_seq) (cr_replayed r) = [Suc (unat (cr_from r)) ..< Suc (unat (bc_replay_cursor c))] \<and>
     bc_historical_events c = latest (cc_event_queue_capacity (bc_config c)) (cr_replayed r) \<and>
     cr_from r \<le> bc_replay_cursor c \<and> bc_replay_cursor c \<le> bc_observed_event_high_watermark c \<and>
     (bc_phase c = Replay \<and> bc_replay_complete c \<longrightarrow> bc_replay_cursor c = bc_observed_event_high_watermark c))"

definition live_wf :: "client_run \<Rightarrow> bool" where
  "live_wf r \<longleftrightarrow> (let c = cr_client r in
     bc_observed_events c = latest (cc_event_queue_capacity (bc_config c)) (map de_event (cr_handed r)) \<and>
     (case bc_phase c of
        Replay \<Rightarrow> bc_live_event_cursor c = None \<and> bc_subscribed_snapshot_event_seq c = None \<and>
          bc_live_event_anchor_floor c = None \<and> cr_handed r = [] \<and> bc_queued_events c = []
      | LiveStream \<Rightarrow> (\<exists>snap cur floor. bc_subscribed_snapshot_event_seq c = Some snap \<and> bc_live_event_cursor c = Some cur \<and>
          bc_live_event_anchor_floor c = Some floor \<and>
          bc_replay_cursor c \<le> snap \<and> snap \<le> cur \<and> cur \<le> bc_observed_event_high_watermark c \<and>
          map event_no (cr_handed r @ bc_queued_events c) = [Suc (unat snap) ..< Suc (unat cur)] \<and>
          (\<forall>d \<in> set (cr_handed r @ bc_queued_events c). Some (de_connection_binding d) = connection_binding c))))"

definition client_wf :: "client_run \<Rightarrow> bool" where
  "client_wf r \<longleftrightarrow> replay_wf r \<and> live_wf r \<and>
     0 < cc_event_queue_capacity (bc_config (cr_client r)) \<and>
     length (bc_queued_events (cr_client r)) \<le> cc_event_queue_capacity (bc_config (cr_client r))"

text \<open>What a connection never takes back.\<close>

definition client_le :: "client_run \<Rightarrow> client_run \<Rightarrow> bool" where
  "client_le r r' \<longleftrightarrow> (let c = cr_client r; c' = cr_client r' in
     (bc_usable c' \<longrightarrow> bc_usable c) \<and> bc_next_request_id c \<le> bc_next_request_id c' \<and>
     bc_observed_event_high_watermark c \<le> bc_observed_event_high_watermark c' \<and>
     bc_replay_cursor c \<le> bc_replay_cursor c' \<and>
     (\<forall>cur. bc_live_event_cursor c = Some cur \<longrightarrow> (\<exists>cur'. bc_live_event_cursor c' = Some cur' \<and> cur \<le> cur')) \<and>
     (\<forall>b. connection_binding c = Some b \<longrightarrow> connection_binding c' = Some b) \<and>
     bc_config c' = bc_config c \<and> bc_identity c' = bc_identity c \<and> bc_connection_token c' = bc_connection_token c \<and>
     cr_from r' = cr_from r \<and> prefix (cr_replayed r) (cr_replayed r') \<and> prefix (cr_handed r) (cr_handed r'))"

text \<open>The elementary changes the operations are composed of.\<close>

inductive effect :: "client_run \<Rightarrow> client_run \<Rightarrow> bool" where
  e_unusable: "effect r (r\<lparr>cr_client := (cr_client r)\<lparr>bc_usable := False\<rparr>\<rparr>)"
| e_request: "bc_next_request_id (cr_client r) \<le> n \<Longrightarrow> effect r (r\<lparr>cr_client := (cr_client r)\<lparr>bc_next_request_id := n\<rparr>\<rparr>)"
| e_received: "event_source (cr_client r) allow anchor = Some (a, b) \<Longrightarrow> received a b (cr_client r) d \<Longrightarrow>
    effect r (r\<lparr>cr_client := d\<rparr>)"
| e_floor: "bc_phase (cr_client r) = LiveStream \<Longrightarrow>
    effect r (r\<lparr>cr_client := (cr_client r)\<lparr>bc_live_event_anchor_floor := Some a\<rparr>\<rparr>)"
| e_watermark: "bc_observed_event_high_watermark (cr_client r) \<le> w \<Longrightarrow>
    complete \<longrightarrow> bc_replay_complete (cr_client r) \<and> (bc_phase (cr_client r) = Replay \<longrightarrow> w \<le> bc_replay_cursor (cr_client r)) \<Longrightarrow>
    effect r (r\<lparr>cr_client := (cr_client r)\<lparr>bc_observed_event_high_watermark := w, bc_replay_complete := complete\<rparr>\<rparr>)"
| e_page: "bc_phase (cr_client r) = Replay \<Longrightarrow> n \<le> bc_observed_event_high_watermark (cr_client r) \<Longrightarrow>
    complete \<longrightarrow> n = bc_observed_event_high_watermark (cr_client r) \<Longrightarrow> bc_replay_cursor (cr_client r) \<le> n \<Longrightarrow>
    map (unat \<circ> BackendEvent_event_seq) events = [Suc (unat (bc_replay_cursor (cr_client r))) ..< Suc (unat n)] \<Longrightarrow>
    effect r (r\<lparr>cr_client := remember_historical_events
      ((cr_client r)\<lparr>bc_replay_cursor := n, bc_replay_complete := complete\<rparr>) events, cr_replayed := cr_replayed r @ events\<rparr>)"
| e_live: "bc_phase (cr_client r) = Replay \<Longrightarrow>
    effect r (r\<lparr>cr_client := enter_live (cr_client r) (bc_observed_event_high_watermark (cr_client r)) a\<rparr>)"
| e_pop: "bc_queued_events (cr_client r) = d # rest \<Longrightarrow>
    effect r (r\<lparr>cr_client := snd (pop_queued_event (cr_client r)), cr_handed := cr_handed r @ [d]\<rparr>)"

lemma latest_Nil [simp]: "latest n [] = []"
  by (simp add: latest_def)

lemma length_latest [simp]: "length (latest n xs) = min n (length xs)"
  by (simp add: latest_def)

lemma push_bounded_latest: "0 < n \<Longrightarrow> push_bounded n (latest n xs) x = latest n (xs @ [x])"
  by (cases "n \<le> length xs") (auto simp: push_bounded_def latest_def Suc_diff_le)

lemma remember_latest:
  assumes "bc_historical_events c = latest n past" "cc_event_queue_capacity (bc_config c) = n" "0 < n"
  shows "remember_historical_events c events = c\<lparr>bc_historical_events := latest n (past @ events)\<rparr>"
  using assms
proof (induction events arbitrary: c past)
  case (Cons e events)
  have "remember_historical_events (c\<lparr>bc_historical_events := latest n (past @ [e])\<rparr>) events =
      c\<lparr>bc_historical_events := latest n (past @ [e]), bc_historical_events := latest n ((past @ [e]) @ events)\<rparr>"
    by (rule Cons.IH) (use Cons.prems in simp_all)
  with Cons.prems show ?case by (simp add: push_bounded_latest)
qed simp

lemma connection_binding_frame: "client_frame d = client_frame c \<Longrightarrow> connection_binding d = connection_binding c"
  by (cases "bc_subscribed_snapshot_event_seq c") (simp_all add: client_frame_def connection_binding_def client_authority_def)

lemma connection_binding_updates [simp]:
  "connection_binding (c\<lparr>bc_stream := s\<rparr>) = connection_binding c"
  "connection_binding (c\<lparr>bc_usable := u\<rparr>) = connection_binding c"
  "connection_binding (c\<lparr>bc_queued_events := q\<rparr>) = connection_binding c"
  "connection_binding (c\<lparr>bc_observed_events := o'\<rparr>) = connection_binding c"
  "connection_binding (c\<lparr>bc_historical_events := h\<rparr>) = connection_binding c"
  "connection_binding (c\<lparr>bc_replay_cursor := n\<rparr>) = connection_binding c"
  "connection_binding (c\<lparr>bc_replay_complete := p\<rparr>) = connection_binding c"
  "connection_binding (c\<lparr>bc_next_request_id := i\<rparr>) = connection_binding c"
  "connection_binding (c\<lparr>bc_live_event_cursor := l\<rparr>) = connection_binding c"
  "connection_binding (c\<lparr>bc_observed_event_high_watermark := w\<rparr>) = connection_binding c"
  "connection_binding (c\<lparr>bc_live_event_anchor_floor := a\<rparr>) = connection_binding c"
  by (cases "bc_subscribed_snapshot_event_seq c"; simp add: connection_binding_def client_authority_def)+

lemmas client_wf_defs = client_wf_def replay_wf_def live_wf_def Let_def

declare upt_Suc [simp del]

lemma wf_unusable: "client_wf r \<Longrightarrow> client_wf (r\<lparr>cr_client := (cr_client r)\<lparr>bc_usable := u\<rparr>\<rparr>)"
  by (simp add: client_wf_defs cong: backend_stream_phase.case_cong)

lemma wf_request: "client_wf r \<Longrightarrow> client_wf (r\<lparr>cr_client := (cr_client r)\<lparr>bc_next_request_id := u\<rparr>\<rparr>)"
  by (simp add: client_wf_defs cong: backend_stream_phase.case_cong)

lemma wf_floor:
  "client_wf r \<Longrightarrow> bc_phase (cr_client r) = LiveStream \<Longrightarrow>
     client_wf (r\<lparr>cr_client := (cr_client r)\<lparr>bc_live_event_anchor_floor := Some a\<rparr>\<rparr>)"
  by (auto simp add: client_wf_defs)

lemma wf_watermark:
  assumes "client_wf r" "bc_observed_event_high_watermark (cr_client r) \<le> w"
    "complete \<longrightarrow> bc_replay_complete (cr_client r) \<and> (bc_phase (cr_client r) = Replay \<longrightarrow> w \<le> bc_replay_cursor (cr_client r))"
  shows "client_wf (r\<lparr>cr_client := (cr_client r)\<lparr>bc_observed_event_high_watermark := w, bc_replay_complete := complete\<rparr>\<rparr>)"
proof (cases "bc_phase (cr_client r)")
  case Replay
  with assms show ?thesis by (auto simp: client_wf_defs)
next
  case LiveStream
  with assms show ?thesis by (fastforce simp: client_wf_defs)
qed

lemma wf_page:
  assumes "client_wf r" "bc_phase (cr_client r) = Replay" "n \<le> bc_observed_event_high_watermark (cr_client r)"
    "complete \<longrightarrow> n = bc_observed_event_high_watermark (cr_client r)" "bc_replay_cursor (cr_client r) \<le> n"
    "map (unat \<circ> BackendEvent_event_seq) events = [Suc (unat (bc_replay_cursor (cr_client r))) ..< Suc (unat n)]"
  shows "client_wf (r\<lparr>cr_client := remember_historical_events
      ((cr_client r)\<lparr>bc_replay_cursor := n, bc_replay_complete := complete\<rparr>) events, cr_replayed := cr_replayed r @ events\<rparr>)"
proof -
  let ?c = "(cr_client r)\<lparr>bc_replay_cursor := n, bc_replay_complete := complete\<rparr>"
  have h: "remember_historical_events ?c events =
      ?c\<lparr>bc_historical_events := latest (cc_event_queue_capacity (bc_config (cr_client r))) (cr_replayed r @ events)\<rparr>"
    by (rule remember_latest) (use assms(1) in \<open>simp_all add: client_wf_defs\<close>)
  have "map (unat \<circ> BackendEvent_event_seq) (cr_replayed r @ events) = [Suc (unat (cr_from r)) ..< Suc (unat n)]"
    using assms(1,5,6) by (simp add: client_wf_defs upt_join word_le_nat_alt)
  moreover have "cr_from r \<le> n" using assms(1,5) order_trans by (simp add: client_wf_defs) blast
  ultimately show ?thesis using assms unfolding h by (simp add: client_wf_defs)
qed

lemma wf_live:
  assumes "client_wf r" "bc_phase (cr_client r) = Replay"
  shows "client_wf (r\<lparr>cr_client := enter_live (cr_client r) (bc_observed_event_high_watermark (cr_client r)) a\<rparr>)"
  using assms by (simp add: client_wf_defs enter_live_def)

lemma wf_pop:
  assumes "client_wf r" "bc_queued_events (cr_client r) = d # rest"
  shows "client_wf (r\<lparr>cr_client := snd (pop_queued_event (cr_client r)), cr_handed := cr_handed r @ [d]\<rparr>)"
proof (cases "bc_phase (cr_client r)")
  case Replay
  with assms show ?thesis by (simp add: client_wf_defs)
next
  case LiveStream
  with assms show ?thesis by (simp add: client_wf_defs pop_queued_event_def push_bounded_latest)
qed

lemma received_frame:
  assumes "received a b c d"
  shows "client_frame d = client_frame c" "connection_binding d = connection_binding c" "bc_usable d = bc_usable c"
    "bc_live_event_anchor_floor d = bc_live_event_anchor_floor c"
proof -
  show frame: "client_frame d = client_frame c" using assms by (simp only: received_def)
  show "connection_binding d = connection_binding c" by (rule connection_binding_frame) (rule frame)
  show "bc_usable d = bc_usable c" "bc_live_event_anchor_floor d = bc_live_event_anchor_floor c"
    using assms by (simp_all only: received_def)
qed

lemma received_watermark:
  assumes "received a b c d" "bc_live_event_cursor c = Some cur" "cur \<le> bc_observed_event_high_watermark c"
  obtains new cur' where "bc_live_event_cursor d = Some cur'" "cur \<le> cur'" "cur' \<le> bc_observed_event_high_watermark d"
    "bc_observed_event_high_watermark c \<le> bc_observed_event_high_watermark d"
    "bc_queued_events d = bc_queued_events c @ new" "map event_no new = [Suc (unat cur) ..< Suc (unat cur')]"
    "\<forall>x \<in> set new. Some (de_connection_binding x) = b"
proof -
  obtain new where "events_added a b c d new" using assms(1) by (auto simp: received_def)
  with assms(2,3) obtain cur' where "bc_live_event_cursor d = Some cur'" "cur \<le> cur'"
      "map event_no new = [Suc (unat cur) ..< Suc (unat cur')]"
      "bc_observed_event_high_watermark d = max (bc_observed_event_high_watermark c) cur'"
      "bc_queued_events d = bc_queued_events c @ new" "\<forall>x \<in> set new. Some (de_connection_binding x) = b"
    unfolding events_added_def by (simp only: option.case) blast
  then show thesis by (intro that [of cur' new]) simp_all
qed

lemma received_replay:
  assumes "received a b c d" "bc_live_event_cursor c = None"
  shows "bc_live_event_cursor d = None \<and> bc_queued_events d = bc_queued_events c \<and>
    bc_observed_event_high_watermark d = bc_observed_event_high_watermark c"
proof -
  obtain new where "events_added a b c d new" using assms(1) by (auto simp: received_def)
  with assms(2) show ?thesis by (simp add: events_added_def)
qed

lemma wf_received:
  assumes wf: "client_wf r" and src: "event_source (cr_client r) allow anchor = Some (a, b)" and rec: "received a b (cr_client r) d"
  shows "client_wf (r\<lparr>cr_client := d\<rparr>)"
proof -
  let ?c = "cr_client r"
  note fr = received_frame [OF rec]
  have fields: "bc_config d = bc_config ?c" "bc_observed_events d = bc_observed_events ?c"
      "bc_historical_events d = bc_historical_events ?c" "bc_phase d = bc_phase ?c" "bc_replay_cursor d = bc_replay_cursor ?c"
      "bc_replay_complete d = bc_replay_complete ?c" "bc_subscribed_snapshot_event_seq d = bc_subscribed_snapshot_event_seq ?c"
    using fr(1) by (simp_all add: client_frame_def)
  have len: "length (bc_queued_events d) \<le> cc_event_queue_capacity (bc_config ?c)"
    using rec wf by (simp add: received_def client_wf_def)
  show ?thesis
  proof (cases "bc_phase ?c")
    case Replay
    with wf have none: "bc_live_event_cursor ?c = None" by (simp add: client_wf_defs)
    from Replay wf len received_replay [OF rec none] show ?thesis by (simp add: client_wf_defs fields fr)
  next
    case LiveStream
    with wf obtain snap cur floor where live: "bc_subscribed_snapshot_event_seq ?c = Some snap" "bc_live_event_cursor ?c = Some cur"
        "bc_live_event_anchor_floor ?c = Some floor" "bc_replay_cursor ?c \<le> snap" "snap \<le> cur"
        "cur \<le> bc_observed_event_high_watermark ?c"
        "map event_no (cr_handed r @ bc_queued_events ?c) = [Suc (unat snap) ..< Suc (unat cur)]"
        "\<forall>d \<in> set (cr_handed r @ bc_queued_events ?c). Some (de_connection_binding d) = connection_binding ?c"
      by (auto simp: client_wf_defs)
    obtain new cur' where n: "bc_live_event_cursor d = Some cur'" "cur \<le> cur'" "cur' \<le> bc_observed_event_high_watermark d"
        "bc_observed_event_high_watermark ?c \<le> bc_observed_event_high_watermark d"
        "bc_queued_events d = bc_queued_events ?c @ new" "map event_no new = [Suc (unat cur) ..< Suc (unat cur')]"
        "\<forall>x \<in> set new. Some (de_connection_binding x) = b"
      using received_watermark [OF rec live(2,6)] .
    have bind: "\<forall>x \<in> set new. Some (de_connection_binding x) = connection_binding ?c"
      using n(7) event_source_binding [OF src] by (cases allow) auto
    have "map event_no (cr_handed r @ bc_queued_events d) = [Suc (unat snap) ..< Suc (unat cur')]"
      using live(5) n(2) upt_join [of "Suc (unat snap)" "Suc (unat cur)" "Suc (unat cur')"]
      unfolding n(5) append_assoc [symmetric] map_append [of event_no _ new] live(7) n(6) by (simp add: word_le_nat_alt)
    moreover have "\<forall>x \<in> set (cr_handed r @ bc_queued_events d). Some (de_connection_binding x) = connection_binding ?c"
      using live(8) bind n(5) by auto
    moreover have "snap \<le> cur'" "bc_replay_cursor ?c \<le> bc_observed_event_high_watermark d"
      using live(4,5) n(2,3) by order+
    ultimately show ?thesis
      using wf LiveStream live(1,3,4) n(1,3) len by (simp add: client_wf_defs fields fr)
  qed
qed

lemma effect_wf: "effect r r' \<Longrightarrow> client_wf r \<Longrightarrow> client_wf r'"
  by (induction rule: effect.induct)
    (auto intro: wf_unusable wf_request wf_received wf_floor wf_watermark wf_page wf_live wf_pop)

lemma client_le_refl: "client_le r r"
  by (simp add: client_le_def Let_def)

lemma client_le_trans:
  assumes "client_le r s" "client_le s t"
  shows "client_le r t"
proof -
  have "\<exists>cur'. bc_live_event_cursor (cr_client t) = Some cur' \<and> cur \<le> cur'"
    if "bc_live_event_cursor (cr_client r) = Some cur" for cur
    using that assms order_trans unfolding client_le_def Let_def by meson
  then show ?thesis
    using assms unfolding client_le_def Let_def by (simp add: prefix_order.order_trans) (meson order_trans prefix_order.order_trans)
qed

lemma client_le_fields:
  assumes "bc_usable c' \<longrightarrow> bc_usable (cr_client r)" "bc_next_request_id (cr_client r) \<le> bc_next_request_id c'"
    "bc_observed_event_high_watermark (cr_client r) \<le> bc_observed_event_high_watermark c'"
    "bc_replay_cursor (cr_client r) \<le> bc_replay_cursor c'"
    "\<And>cur. bc_live_event_cursor (cr_client r) = Some cur \<Longrightarrow> \<exists>cur'. bc_live_event_cursor c' = Some cur' \<and> cur \<le> cur'"
    "connection_binding (cr_client r) \<noteq> None \<Longrightarrow> connection_binding c' = connection_binding (cr_client r)"
    "bc_config c' = bc_config (cr_client r)" "bc_identity c' = bc_identity (cr_client r)"
    "bc_connection_token c' = bc_connection_token (cr_client r)"
  shows "client_le r (r\<lparr>cr_client := c', cr_replayed := cr_replayed r @ xs, cr_handed := cr_handed r @ ys\<rparr>)"
  using assms by (auto simp: client_le_def Let_def)

lemma le_received:
  assumes "client_wf r" "received a b (cr_client r) d"
  shows "client_le r (r\<lparr>cr_client := d\<rparr>)"
proof -
  let ?c = "cr_client r"
  note fr = received_frame [OF assms(2)]
  have "bc_observed_event_high_watermark ?c \<le> bc_observed_event_high_watermark d \<and>
      (\<forall>cur. bc_live_event_cursor ?c = Some cur \<longrightarrow> (\<exists>cur'. bc_live_event_cursor d = Some cur' \<and> cur \<le> cur'))"
  proof (cases "bc_live_event_cursor ?c")
    case None
    with received_replay [OF assms(2)] show ?thesis by simp
  next
    case (Some cur)
    then have "cur \<le> bc_observed_event_high_watermark ?c"
      using assms(1) by (cases "bc_phase ?c") (auto simp: client_wf_defs)
    from received_watermark [OF assms(2) Some this] show ?thesis using Some by auto
  qed
  moreover have "bc_config d = bc_config ?c" "bc_next_request_id d = bc_next_request_id ?c" "bc_identity d = bc_identity ?c"
      "bc_replay_cursor d = bc_replay_cursor ?c" "bc_connection_token d = bc_connection_token ?c"
    using fr(1) by (simp_all add: client_frame_def)
  ultimately show ?thesis using fr client_le_fields [of d r "[]" "[]"] by simp
qed

lemma le_page:
  assumes "client_wf r" "bc_replay_cursor (cr_client r) \<le> n"
  shows "client_le r (r\<lparr>cr_client := remember_historical_events
      ((cr_client r)\<lparr>bc_replay_cursor := n, bc_replay_complete := complete\<rparr>) events, cr_replayed := cr_replayed r @ events\<rparr>)"
proof -
  let ?c = "(cr_client r)\<lparr>bc_replay_cursor := n, bc_replay_complete := complete\<rparr>"
  have h: "remember_historical_events ?c events =
      ?c\<lparr>bc_historical_events := latest (cc_event_queue_capacity (bc_config (cr_client r))) (cr_replayed r @ events)\<rparr>"
    by (rule remember_latest) (use assms(1) in \<open>simp_all add: client_wf_defs\<close>)
  show ?thesis unfolding h using assms(2) by (simp add: client_le_def Let_def)
qed

lemma le_live:
  assumes "client_wf r" "bc_phase (cr_client r) = Replay"
  shows "client_le r (r\<lparr>cr_client := enter_live (cr_client r) w a\<rparr>)"
proof -
  have "connection_binding (cr_client r) = None" "bc_live_event_cursor (cr_client r) = None"
    using assms by (simp_all add: client_wf_defs connection_binding_def)
  then show ?thesis using client_le_fields [of "enter_live (cr_client r) w a" r "[]" "[]"] by (simp add: enter_live_def)
qed

lemma effect_le: "effect r r' \<Longrightarrow> client_wf r \<Longrightarrow> client_le r r'"
proof (induction rule: effect.induct)
  case (e_pop r d rest)
  then show ?case by (simp add: client_le_def Let_def pop_queued_event_def)
qed (simp_all add: le_received le_page le_live, simp_all add: client_le_def Let_def)

interpretation effects: monotone_system client_wf effect client_wf client_le
  by unfold_locales (auto intro: effect_wf effect_le client_le_refl client_le_trans)

end
