(* ===== verification/Client_Machine.thy ===== *)
theory Client_Machine
  imports Client_Invariants
begin

text \<open>
  Every operation of a backend connection is a sequence of the elementary changes of \<open>Client_Invariants\<close>, and the
  operations of a connection, from \<open>connect\<close> on, are a machine with that invariant.
\<close>

section \<open>Operations as sequences of changes\<close>

abbreviation runs :: "client_run \<Rightarrow> backend_client \<Rightarrow> bool" where
  "runs r c \<equiv> effect\<^sup>*\<^sup>* r (r\<lparr>cr_client := c\<rparr>)"

lemma runs_refl [simp]: "runs r (cr_client r)"
  by simp

lemma runs_effect:
  assumes "runs r c" "effect (r\<lparr>cr_client := c\<rparr>) (r\<lparr>cr_client := d\<rparr>)"
  shows "runs r d"
  using assms by (rule rtranclp.rtrancl_into_rtrancl)

lemma runs_unusable: "runs r c \<Longrightarrow> runs r (c\<lparr>bc_usable := False\<rparr>)"
  using runs_effect [OF _ e_unusable [of "r\<lparr>cr_client := c\<rparr>", simplified]] by simp

lemma runs_invalidate: "runs r c \<Longrightarrow> invalidate c e = (x, d) \<Longrightarrow> runs r d"
  using runs_unusable by (auto simp: invalidate_def)

lemma checked_add_1: "checked_add (x :: 'a::len word) 1 = (if x = - 1 then None else Some (x + 1))"
  using checked_add_1_None [of x] by (auto simp: checked_add_def split: if_splits)

lemma allocate_request_id_eq:
  "allocate_request_id c =
     (if bc_usable c then
        if bc_next_request_id c = - 1 then (Err RequestIdExhausted, c\<lparr>bc_usable := False\<rparr>)
        else (Ok (bc_next_request_id c), c\<lparr>bc_next_request_id := bc_next_request_id c + 1\<rparr>)
      else (Err ConnectionUnusable, c))"
  by (simp add: allocate_request_id_def ensure_usable_def ensure_def invalidate_def checked_add_1)

lemma next_request_id_le: "(n :: u64) \<noteq> - 1 \<Longrightarrow> n \<le> n + 1"
  using checked_add_1 [of n] by (simp add: checked_add_Some word_le_nat_alt)

lemma runs_allocate:
  assumes "runs r c" "allocate_request_id c = (x, d)"
  shows "runs r d"
proof -
  from assms(2) consider "d = c" | "d = c\<lparr>bc_usable := False\<rparr>"
    | "d = c\<lparr>bc_next_request_id := bc_next_request_id c + 1\<rparr>" "bc_next_request_id c \<le> bc_next_request_id c + 1"
    unfolding allocate_request_id_eq using next_request_id_le by (metis prod.inject)
  then show ?thesis
  proof cases
    case 3
    then show ?thesis
      using runs_effect [OF assms(1) e_request [of "r\<lparr>cr_client := c\<rparr>" "bc_next_request_id c + 1", simplified]] by simp
  qed (use assms(1) runs_unusable in simp_all)
qed

lemma runs_watermark:
  assumes "runs r c" "bc_observed_event_high_watermark c \<le> w"
    "complete \<longrightarrow> bc_replay_complete c \<and> (bc_phase c = Replay \<longrightarrow> w \<le> bc_replay_cursor c)"
  shows "runs r (c\<lparr>bc_observed_event_high_watermark := w, bc_replay_complete := complete\<rparr>)"
  using runs_effect [OF assms(1) e_watermark [of "r\<lparr>cr_client := c\<rparr>" w complete, simplified]] assms(2,3) by simp

lemma observe_watermark_ok:
  "observe_watermark c operation w = (Ok u, d) \<Longrightarrow>
     bc_observed_event_high_watermark c \<le> w \<and>
     d = c\<lparr>bc_observed_event_high_watermark := w,
           bc_replay_complete := (bc_replay_complete c \<and> \<not> (bc_phase c = Replay \<and> bc_replay_cursor c < w))\<rparr>"
  by (auto simp: observe_watermark_def invalidate_def Let_def split: if_splits)

lemma runs_observe:
  assumes "runs r c" "observe_watermark c operation w = (x, d)"
  shows "runs r d"
proof (cases x)
  case (Ok u)
  with assms(2) observe_watermark_ok show ?thesis
    using runs_watermark [OF assms(1), of w "bc_replay_complete c \<and> \<not> (bc_phase c = Replay \<and> bc_replay_cursor c < w)"] by fastforce
next
  case (Err e)
  with assms(2) have "d = c\<lparr>bc_usable := False\<rparr>"
    by (auto simp: observe_watermark_def invalidate_def Let_def split: if_splits)
  with runs_unusable [OF assms(1)] show ?thesis by simp
qed

lemma require_live_events_through_cases:
  "require_live_events_through c operation required = (x, d) \<Longrightarrow> d = c \<or> d = c\<lparr>bc_usable := False\<rparr>"
  by (auto simp: require_live_events_through_def invalidate_def split: if_splits option.splits)

lemma runs_exchange:
  assumes "runs r c" "exchange sha256 api now c request operation allow = (x, d)"
  shows "runs r d"
proof -
  have "exchanged sha256 now allow (BackendRequest_id request) x c d" using assms(2) by (rule exchange_exchanged)
  then consider "d = c" | "d = c\<lparr>bc_usable := False\<rparr>"
    | a b e where "event_source c allow (MonotonicAnchor now) = Some (a, b)" "received a b c e"
        "d = e\<lparr>bc_usable := False\<rparr> \<or> d = (if allow then e\<lparr>bc_live_event_anchor_floor := Some (MonotonicAnchor now)\<rparr> else e)"
    unfolding exchanged_def by blast
  then show ?thesis
  proof cases
    case 3
    have e: "runs r e"
      using runs_effect [OF assms(1) e_received [of "r\<lparr>cr_client := c\<rparr>" allow "MonotonicAnchor now" a b e, simplified]] 3(1,2) by simp
    have "runs r (e\<lparr>bc_live_event_anchor_floor := Some (MonotonicAnchor now)\<rparr>)" if allow
    proof -
      have "connection_binding c \<noteq> None" using event_source_binding [OF 3(1)] that by auto
      then have "bc_phase c = LiveStream"
        by (cases "bc_subscribed_snapshot_event_seq c") (auto simp: connection_binding_def split: if_splits)
      then have "bc_phase e = LiveStream" using received_frame(1) [OF 3(2)] by (simp add: client_frame_def)
      then show ?thesis
        using runs_effect [OF e e_floor [of "r\<lparr>cr_client := e\<rparr>" "MonotonicAnchor now", simplified]] by simp
    qed
    with 3(3) e runs_unusable [OF e] show ?thesis by (cases allow) auto
  qed (use assms(1) runs_unusable in simp_all)
qed

text \<open>One \<open>?\<close> of an operation.\<close>

lemma runs_bind:
  assumes "(case m of (y, c) \<Rightarrow> case y of Err e \<Rightarrow> (Err e, c) | Ok v \<Rightarrow> k v c) = (x, d)"
    "\<And>y c. m = (y, c) \<Longrightarrow> runs r c"
    "\<And>v c. m = (Ok v, c) \<Longrightarrow> runs r c \<Longrightarrow> k v c = (x, d) \<Longrightarrow> runs r d"
  shows "runs r d"
proof -
  obtain y c where m: "m = (y, c)" by (cases m)
  show ?thesis
  proof (cases y)
    case (Ok v)
    with m assms show ?thesis by simp
  qed (use m assms in simp)
qed

lemma runs_guard:
  "(case g of Err e \<Rightarrow> (Err e, c) | Ok v \<Rightarrow> m v) = (x, d) \<Longrightarrow> runs r c \<Longrightarrow> (\<And>v. g = Ok v \<Longrightarrow> m v = (x, d) \<Longrightarrow> runs r d) \<Longrightarrow> runs r d"
  by (cases g) auto

lemma guard_cases:
  assumes "(case g of Err e \<Rightarrow> (Err e, c) | Ok v \<Rightarrow> m v) = (x, d)"
  obtains "\<not> is_ok x" "d = c" | v where "g = Ok v" "m v = (x, d)"
  using assms by (cases g) auto

lemma runs_enter_live:
  assumes "runs r c" "bc_phase c = Replay" "bc_observed_event_high_watermark c = w"
  shows "runs r (enter_live c w a)"
  using runs_effect [OF assms(1) e_live [of "r\<lparr>cr_client := c\<rparr>" a, simplified]] assms(2,3) by simp

lemma allocate_phase: "allocate_request_id c = (y, d) \<Longrightarrow> bc_phase d = bc_phase c \<and> bc_replay_cursor d = bc_replay_cursor c"
  by (auto simp: allocate_request_id_eq split: if_splits)

lemma exchange_frame:
  assumes "exchange sha256 api now c request operation allow = (x, d)"
  shows "client_frame d = client_frame c"
proof -
  from exchange_exchanged [OF assms] consider "d = c" | "d = c\<lparr>bc_usable := False\<rparr>"
    | a b e where "received a b c e" "d = e\<lparr>bc_usable := False\<rparr> \<or> d = e\<lparr>bc_live_event_anchor_floor := Some (MonotonicAnchor now)\<rparr> \<or> d = e"
    unfolding exchanged_def by metis
  then show ?thesis
  proof cases
    case 3
    with received_frame(1) [OF 3(1)] show ?thesis by auto
  qed simp_all
qed

lemma exchange_phase:
  assumes "exchange sha256 api now c request operation allow = (x, d)"
  shows "bc_phase d = bc_phase c" "bc_replay_cursor d = bc_replay_cursor c"
  using exchange_frame [OF assms] by (simp_all add: client_frame_def)

lemma exchange_answers:
  "exchange sha256 api now c request operation allow = (Ok (m, a), d) \<Longrightarrow>
     answers sha256 (BackendRequest_id request) m \<and> a = MonotonicAnchor now"
  using exchange_exchanged [of sha256 api now c request operation allow "Ok (m, a)" d]
  unfolding exchanged_def is_ok.simps simp_thms by blast

lemma exchange_usable:
  assumes "exchange sha256 api now c request operation allow = (Ok (m, a), d)"
  shows "bc_usable d"
proof -
  from exchange_exchanged [OF assms] obtain a b e where
    e: "bc_usable c" "received a b c e" "d = (if allow then e\<lparr>bc_live_event_anchor_floor := Some (MonotonicAnchor now)\<rparr> else e)"
    unfolding exchanged_def is_ok.simps simp_thms by blast
  from received_frame(3) [OF e(2)] e(1) have "bc_usable e" by simp
  with e(3) show ?thesis by simp
qed

text \<open>A request and its response: how the operations begin.\<close>

lemma call_cases:
  assumes call: "(case allocate_request_id c of (y, c) \<Rightarrow> case y of Err e \<Rightarrow> (Err e, c)
      | Ok rid \<Rightarrow> (case exchange sha256 api now c (request rid) operation (allow c) of (z, c) \<Rightarrow>
          case z of Err e \<Rightarrow> (Err e, c) | Ok v \<Rightarrow> k v c)) = (x, d)"
    and start: "runs r c"
  obtains "\<not> is_ok x" "runs r d"
  | rid c1 message anchor c2 where "allocate_request_id c = (Ok rid, c1)"
      "exchange sha256 api now c1 (request rid) operation (allow c1) = (Ok (message, anchor), c2)" "runs r c2"
      "bc_phase c2 = bc_phase c" "bc_replay_cursor c2 = bc_replay_cursor c" "BackendMessage_validate sha256 message = Ok ()"
      "bc_usable c2" "k (message, anchor) c2 = (x, d)"
proof -
  obtain y c1 where a: "allocate_request_id c = (y, c1)" by (cases "allocate_request_id c")
  have c1: "runs r c1" using start a by (rule runs_allocate)
  show thesis
  proof (cases y)
    case (Err e)
    with a call c1 show thesis by (intro that(1)) auto
  next
    case (Ok rid)
    obtain z c2 where e: "exchange sha256 api now c1 (request rid) operation (allow c1) = (z, c2)"
      by (cases "exchange sha256 api now c1 (request rid) operation (allow c1)")
    have c2: "runs r c2" using c1 e by (rule runs_exchange)
    show thesis
    proof (cases z)
      case (Err e')
      with a e call c2 Ok show thesis by (intro that(1)) auto
    next
      case Ok': (Ok v)
      obtain message anchor where v: "v = (message, anchor)" by (cases v)
      have "bc_phase c2 = bc_phase c" "bc_replay_cursor c2 = bc_replay_cursor c"
        using exchange_phase [OF e] allocate_phase [OF a] by simp_all
      moreover have "BackendMessage_validate sha256 message = Ok ()"
        using exchange_answers [OF e [unfolded Ok' v]] by (simp add: answers_def)
      moreover have "bc_usable c2" using exchange_usable [OF e [unfolded Ok' v]] .
      moreover have "k (message, anchor) c2 = (x, d)" using call a e Ok Ok' v by simp
      ultimately show thesis using that(2) a e c2 Ok Ok' v by simp
    qed
  qed
qed

lemma subscribe_response_runs:
  assumes "runs r c" "bc_phase c = Replay" "subscribe_response c after_event_seq message anchor = (x, d)"
  shows "runs r d"
proof (cases message)
  case (JobSnapshot v rid event_seq current recent)
  obtain y c' where o: "observe_watermark c ''job snapshot'' event_seq = (y, c')"
    by (cases "observe_watermark c ''job snapshot'' event_seq")
  have c': "runs r c'" using assms(1) o by (rule runs_observe)
  show ?thesis
  proof (cases y)
    case (Err e)
    with assms(1,3) JobSnapshot o c' show ?thesis
      by (auto simp: subscribe_response_def intro: runs_invalidate split: if_splits)
  next
    case (Ok u)
    have "runs r (enter_live c' event_seq anchor)"
      by (rule runs_enter_live [OF c']) (use observe_watermark_ok [OF o [unfolded Ok]] assms(2) in simp_all)
    with assms(1,3) JobSnapshot o Ok show ?thesis
      by (auto simp: subscribe_response_def Let_def intro: runs_invalidate split: if_splits)
  qed
qed (use assms in \<open>auto simp: subscribe_response_def intro: runs_invalidate\<close>)

lemma subscribe_jobs_runs:
  assumes "subscribe_jobs sha256 api now (cr_client r) after_event_seq = (x, d)"
  shows "runs r d"
  using assms unfolding subscribe_jobs_def
proof (rule runs_guard [OF _ runs_refl], elim call_cases [OF _ runs_refl])
qed (auto simp: ensure_phase_def intro: subscribe_response_runs)

lemma validate_page_events_seqs:
  "validate_page_events sha256 previous events = Ok last_seq \<Longrightarrow>
     map (unat \<circ> BackendEvent_event_seq) events = [Suc (unat previous) ..< Suc (unat last_seq)] \<and> previous \<le> last_seq"
proof (induction events arbitrary: previous)
  case (Cons e events)
  have e: "unat (BackendEvent_event_seq e) = Suc (unat previous)"
    using Cons.prems by (auto simp: checked_add_Some split: if_splits)
  have "map (unat \<circ> BackendEvent_event_seq) events = [Suc (unat (BackendEvent_event_seq e)) ..< Suc (unat last_seq)] \<and>
      BackendEvent_event_seq e \<le> last_seq"
    by (rule Cons.IH) (use Cons.prems in \<open>auto split: if_splits\<close>)
  with e show ?case by (simp add: word_le_nat_alt upt_conv_Cons comp_def)
qed simp

lemma events_page_seqs:
  "BackendMessage_validate sha256 (EventsPage v rid after_event_seq next_event_seq complete events) = Ok () \<Longrightarrow>
     map (unat \<circ> BackendEvent_event_seq) events = [Suc (unat after_event_seq) ..< Suc (unat next_event_seq)] \<and>
     after_event_seq \<le> next_event_seq"
  using validate_page_events_seqs
  by (auto simp: BackendMessage_validate_def EventsPage_validate_def split: if_splits)

definition page_run :: "client_run \<Rightarrow> (client_error, event_page) result \<Rightarrow> backend_client \<Rightarrow> client_run" where
  "page_run r x c = r\<lparr>cr_client := c, cr_replayed := cr_replayed r @ (case x of Ok page \<Rightarrow> ep_events page | Err _ \<Rightarrow> [])\<rparr>"

lemma page_run_err: "\<not> is_ok x \<Longrightarrow> page_run r x c = r\<lparr>cr_client := c\<rparr>"
  by (cases x) (simp_all add: page_run_def)

lemma runs_page:
  assumes "runs r c" "bc_phase c = Replay" "n \<le> bc_observed_event_high_watermark c"
    "complete \<longrightarrow> n = bc_observed_event_high_watermark c" "bc_replay_cursor c \<le> n"
    "map (unat \<circ> BackendEvent_event_seq) events = [Suc (unat (bc_replay_cursor c)) ..< Suc (unat n)]"
  shows "effect\<^sup>*\<^sup>* r (r\<lparr>cr_client := remember_historical_events (c\<lparr>bc_replay_cursor := n, bc_replay_complete := complete\<rparr>) events,
    cr_replayed := cr_replayed r @ events\<rparr>)"
  using assms(1) e_page [of "r\<lparr>cr_client := c\<rparr>" n complete events, simplified] assms(2-)
  by (metis (no_types, lifting) rtranclp.rtrancl_into_rtrancl)

lemma read_response_page:
  assumes c: "runs r c" and phase: "bc_phase c = Replay" and cur: "bc_replay_cursor c = after_event_seq"
    and valid: "BackendMessage_validate sha256 (EventsPage v rid after_event_seq n complete events) = Ok ()"
    and o: "(if complete then observe_watermark c ''completed event replay'' n
       else (Ok (), c\<lparr>bc_observed_event_high_watermark := max (bc_observed_event_high_watermark c) n\<rparr>)) = (Ok u, c')"
  shows "effect\<^sup>*\<^sup>* r (r\<lparr>cr_client := remember_historical_events (c'\<lparr>bc_replay_cursor := n, bc_replay_complete := complete\<rparr>) events,
    cr_replayed := cr_replayed r @ events\<rparr>)"
proof (cases complete)
  case True
  with o have w: "observe_watermark c ''completed event replay'' n = (Ok u, c')" by simp
  from observe_watermark_ok [OF w] events_page_seqs [OF valid] phase cur show ?thesis
    by (intro runs_page [OF runs_observe [OF c w]]) auto
next
  case False
  let ?c = "c\<lparr>bc_observed_event_high_watermark := max (bc_observed_event_high_watermark c) n, bc_replay_complete := False\<rparr>"
  have "effect\<^sup>*\<^sup>* r (r\<lparr>cr_client := remember_historical_events (?c\<lparr>bc_replay_cursor := n, bc_replay_complete := False\<rparr>) events,
      cr_replayed := cr_replayed r @ events\<rparr>)"
    by (rule runs_page [OF runs_watermark [OF c]]) (use events_page_seqs [OF valid] phase cur in auto)
  with False o show ?thesis by simp
qed

lemma read_response_other:
  assumes "\<not> (\<exists>v rid n complete events. message = EventsPage v rid after_event_seq n complete events \<and> length events \<le> unat limit)"
  shows "\<not> is_ok (fst (read_response c after_event_seq limit message)) \<and>
    (snd (read_response c after_event_seq limit message) = c \<or>
     snd (read_response c after_event_seq limit message) = c\<lparr>bc_usable := False\<rparr>)"
proof (cases message)
  case (EventsPage v rid m n complete events)
  with assms consider "m \<noteq> after_event_seq" | "m = after_event_seq" "unat limit < length events" by fastforce
  then show ?thesis by cases (simp_all add: EventsPage read_response_def invalidate_def)
qed (simp_all add: read_response_def invalidate_def)

lemma read_response_runs:
  assumes c: "runs r c" "bc_phase c = Replay" "bc_replay_cursor c = after_event_seq"
    and valid: "BackendMessage_validate sha256 message = Ok ()"
    and resp: "read_response c after_event_seq limit message = (x, d)"
  shows "effect\<^sup>*\<^sup>* r (page_run r x d)"
proof (cases "\<exists>v rid n complete events. message = EventsPage v rid after_event_seq n complete events \<and> length events \<le> unat limit")
  case True
  then obtain v rid n complete events where m: "message = EventsPage v rid after_event_seq n complete events"
      "length events \<le> unat limit" by blast
  let ?o = "if complete then observe_watermark c ''completed event replay'' n
     else (Ok (), c\<lparr>bc_observed_event_high_watermark := max (bc_observed_event_high_watermark c) n\<rparr>)"
  obtain y c' where o: "?o = (y, c')" by (cases ?o)
  show ?thesis
  proof (cases y)
    case (Ok u)
    with resp m o have "x = Ok \<lparr>ep_after_event_seq = after_event_seq, ep_next_event_seq = n, ep_complete = complete, ep_events = events\<rparr>"
        "d = remember_historical_events (c'\<lparr>bc_replay_cursor := n, bc_replay_complete := complete\<rparr>) events"
      by (simp_all add: read_response_def)
    with read_response_page [OF c valid [unfolded m(1)] o [unfolded Ok]] show ?thesis by (simp add: page_run_def)
  next
    case (Err e)
    then have w: "observe_watermark c ''completed event replay'' n = (Err e, c')" using o by (cases complete) simp_all
    from Err resp m o have "\<not> is_ok x" "d = c'" by (auto simp: read_response_def)
    with runs_observe [OF c(1) w] show ?thesis by (simp add: page_run_err)
  qed
next
  case False
  from read_response_other [OF this, of c] have "\<not> is_ok x \<and> (d = c \<or> d = c\<lparr>bc_usable := False\<rparr>)"
    unfolding resp by simp
  with c(1) runs_unusable [OF c(1)] show ?thesis by (auto simp: page_run_err)
qed

lemma read_events_runs:
  assumes "read_events sha256 api now (cr_client r) after_event_seq limit = (x, d)"
  shows "effect\<^sup>*\<^sup>* r (page_run r x d)"
proof (rule guard_cases [OF assms [unfolded read_events_def]])
  show ?thesis if "\<not> is_ok x" "d = cr_client r" using that by (simp add: page_run_err)
qed (elim call_cases [OF _ runs_refl], auto simp: ensure_phase_def page_run_err intro: read_response_runs)

lemma health_response_runs:
  assumes "runs r c" "health_response c message = (x, d)"
  shows "runs r d"
proof (cases message)
  case (HealthStatus v rid event_seq healthy recovery_only pw qw pz)
  obtain y c' where o: "observe_watermark c ''health'' event_seq = (y, c')" by (cases "observe_watermark c ''health'' event_seq")
  have c': "runs r c'" using assms(1) o by (rule runs_observe)
  obtain z c'' where l: "require_live_events_through c' ''health'' event_seq = (z, c'')"
    by (cases "require_live_events_through c' ''health'' event_seq")
  have "runs r c''" using require_live_events_through_cases [OF l] c' runs_unusable by blast
  then show ?thesis using assms(2) HealthStatus o l c' by (cases y; cases z) (auto simp: health_response_def)
qed (use assms in \<open>auto simp: health_response_def intro: runs_invalidate\<close>)

lemma health_runs:
  assumes "health sha256 api now (cr_client r) = (x, d)"
  shows "runs r d"
  using assms unfolding health_def
  by (elim call_cases [OF _ runs_refl]) (auto intro: health_response_runs)

text \<open>After the response arrived, submission either leaves the connection alone or makes it unusable.\<close>

abbreviation touched :: "backend_client \<Rightarrow> backend_client \<Rightarrow> bool" where
  "touched c d \<equiv> d = c \<or> d = c\<lparr>bc_usable := False\<rparr>"

lemma invalidate_touched: "invalidate c e = (x, d) \<Longrightarrow> touched c d"
  by (auto simp: invalidate_def)

lemma require_live_ok:
  "require_live_events_through c operation required = (Ok u, d) \<Longrightarrow>
     d = c \<and> (bc_phase c = LiveStream \<longrightarrow> (\<exists>cur. bc_live_event_cursor c = Some cur \<and> required \<le> cur))"
  by (auto simp: require_live_events_through_def invalidate_def not_less split: if_splits option.splits)

lemma require_history_cases:
  "require_consistent_share_history c receipt identity target_le = (y, d) \<Longrightarrow>
     touched c d \<and> (is_ok y \<longrightarrow> d = c \<and> history_conflict receipt identity target_le (live_evidence c @ bc_historical_events c) = None)"
  by (auto simp: require_consistent_share_history_def invalidate_def split: option.splits)

definition evidenced :: "backend_client \<Rightarrow> share_receipt \<Rightarrow> worker_identity \<Rightarrow> target_le \<Rightarrow> bool" where
  "evidenced c receipt identity target_le \<longleftrightarrow>
     ShareCommittedEvent receipt (sr_job_id receipt) identity target_le \<in> set (live_evidence c)"

lemma share_event_matches_iff:
  "share_event_matches event receipt identity target_le \<longleftrightarrow>
     event = ShareCommittedEvent receipt (sr_job_id receipt) identity target_le"
  by (cases event) auto

lemma require_matching_cases:
  "require_matching_share_event c receipt identity target_le before replayed = (y, d) \<Longrightarrow>
     touched c d \<and> (is_ok y \<longrightarrow> d = c \<and> evidenced c receipt identity target_le)"
  by (auto simp: require_matching_share_event_def invalidate_def evidenced_def share_event_matches_iff list_ex_iff split: if_splits)

text \<open>What a receipt must satisfy to be returned as a commit.\<close>

definition receipt_verified ::
  "backend_client \<Rightarrow> share_submission \<Rightarrow> bytes \<Rightarrow> bytes \<Rightarrow> u64 \<Rightarrow> share_receipt \<Rightarrow> bool \<Rightarrow> bool" where
  "receipt_verified c s share_id attribution_id before receipt replayed \<longleftrightarrow>
     sr_job_id receipt = sb_job_id s \<and> sr_share_id receipt = share_id \<and> sr_attribution_id receipt = attribution_id \<and>
     (replayed \<or> before < sr_event_seq receipt) \<and> evidenced c receipt (sb_identity s) (sb_target_le s) \<and>
     history_conflict receipt (sb_identity s) (sb_target_le s) (live_evidence c @ bc_historical_events c) = None \<and>
     (bc_phase c = LiveStream \<longrightarrow> (\<exists>cur. bc_live_event_cursor c = Some cur \<and> sr_event_seq receipt \<le> cur))"

lemma check_bind:
  assumes "(case m of (y, c) \<Rightarrow> case y of Err e \<Rightarrow> (Err e, c) | Ok v \<Rightarrow> k v c) = (x, d)"
    "\<And>y d. m = (y, d) \<Longrightarrow> touched c d \<and> (is_ok y \<longrightarrow> d = c)"
  obtains "touched c d" "\<not> is_ok x" | v where "m = (Ok v, c)" "k v c = (x, d)"
proof -
  obtain y c1 where m: "m = (y, c1)" by (cases m)
  show thesis
  proof (cases y)
    case (Err e)
    with m assms show thesis by (intro that(1)) auto
  next
    case (Ok v)
    then have "c1 = c" using m assms(2) by simp
    with m assms(1) Ok show thesis by (intro that(2)) auto
  qed
qed

lemma require_live_cases:
  "require_live_events_through c operation required = (y, d) \<Longrightarrow> touched c d \<and> (is_ok y \<longrightarrow> d = c)"
  using require_live_events_through_cases require_live_ok by (cases y) auto

lemma invalidate_guard:
  "(case try_all cs of Err e \<Rightarrow> invalidate c e | Ok _ \<Rightarrow> k) = (y, d) \<Longrightarrow>
     list_all is_ok cs \<and> k = (y, d) \<or> d = c\<lparr>bc_usable := False\<rparr> \<and> \<not> is_ok y"
  by (cases "try_all cs") (auto simp: invalidate_def unit_result_is_ok)

lemma check_receipt_cases:
  assumes "check_receipt c s share_id attribution_id before receipt replayed = (x, d)"
  shows "touched c d \<and> (is_ok x \<longrightarrow> d = c \<and> x = Ok \<lparr>cm_receipt = receipt, cm_replayed = replayed\<rparr> \<and>
    receipt_verified c s share_id attribution_id before receipt replayed)"
proof (cases "sr_job_id receipt = sb_job_id s \<and> sr_share_id receipt = share_id \<and> sr_attribution_id receipt = attribution_id \<and>
    (replayed \<or> before < sr_event_seq receipt)")
  case False
  then obtain e where "x = Err e" "d = c\<lparr>bc_usable := False\<rparr>"
    using assms by (auto simp: check_receipt_def invalidate_def not_less split: result.splits)
  then show ?thesis by simp
next
  case True
  then have guards: "try_all
      [ensure (sr_job_id receipt = sb_job_id s) e1, ensure (sr_share_id receipt = share_id) e2,
       ensure (sr_attribution_id receipt = attribution_id) e3,
       ensure (\<not> (\<not> replayed \<and> sr_event_seq receipt \<le> before)) e4] = Ok ()" for e1 e2 e3 e4 :: client_error
    by auto
  show ?thesis
  proof (rule check_bind [OF assms [unfolded check_receipt_def guards result.case] require_live_cases],
      assumption, simp, erule check_bind, blast dest: require_history_cases, simp,
      erule check_bind, blast dest: require_matching_cases, simp)
    fix u v w
    assume "require_live_events_through c ''share commit'' (sr_event_seq receipt) = (Ok u, c)"
      "require_consistent_share_history c receipt (sb_identity s) (sb_target_le s) = (Ok v, c)"
      "require_matching_share_event c receipt (sb_identity s) (sb_target_le s) before replayed = (Ok w, c)"
      and r: "(Ok \<lparr>cm_receipt = receipt, cm_replayed = replayed\<rparr>, c) = (x, d)"
    from require_live_ok [OF this(1)] require_history_cases [OF this(2)] require_matching_cases [OF this(3)] True r
    show ?thesis by (auto simp: receipt_verified_def)
  qed
qed

lemma submit_response_cases:
  assumes "submit_response c s share_id attribution_id before message = (x, d)"
  shows "touched c d \<and> (\<forall>commit. x = Ok commit \<longrightarrow> d = c \<and>
    receipt_verified c s share_id attribution_id before (cm_receipt commit) (cm_replayed commit))"
proof (cases message)
  case (ShareCommitted v rid receipt replayed)
  with assms check_receipt_cases [of c s share_id attribution_id before receipt replayed x d]
  show ?thesis by (auto simp: submit_response_def)
next
  case (BackendError v rid code detail)
  with assms show ?thesis by (auto simp: submit_response_def invalidate_def split: option.splits)
qed (use assms in \<open>auto simp: submit_response_def invalidate_def\<close>)

lemma client_submit_share_cases:
  assumes "client_submit_share sha256 api now (cr_client r) s = (x, d)"
  obtains "\<not> is_ok x" "runs r d"
  | before attribution_id c message where "bc_phase (cr_client r) = LiveStream" "bc_live_event_cursor (cr_client r) = Some before"
      "canonical_attribution_id sha256 (sb_identity s) (sb_target_le s) = Ok attribution_id" "runs r c" "bc_usable c"
      "bc_phase c = LiveStream" "BackendMessage_validate sha256 message = Ok ()"
      "submit_response c s (canonical_share_id sha256 (sb_job_id s) (sb_time s) (sb_nonce s) (sb_solution s))
         attribution_id before message = (x, d)"
proof (cases "\<exists>before attribution_id. bc_phase (cr_client r) = LiveStream \<and> bc_live_event_cursor (cr_client r) = Some before \<and>
    canonical_attribution_id sha256 (sb_identity s) (sb_target_le s) = Ok attribution_id \<and> bc_usable (cr_client r)")
  case True
  then obtain before attribution_id where live: "bc_phase (cr_client r) = LiveStream"
      "bc_live_event_cursor (cr_client r) = Some before" "bc_usable (cr_client r)"
      "canonical_attribution_id sha256 (sb_identity s) (sb_target_le s) = Ok attribution_id" by blast
  then have "submit_live sha256 api now (cr_client r) s before attribution_id = (x, d)"
    using assms by (simp add: client_submit_share_def ensure_phase_def ensure_usable_def ensure_def)
  from this [unfolded submit_live_def] show thesis
    by (rule call_cases [OF _ runs_refl]) (use live that in auto)
next
  case False
  then have "touched (cr_client r) d \<and> \<not> is_ok x"
    using assms by (auto simp: client_submit_share_def ensure_phase_def ensure_usable_def ensure_def invalidate_def is_ok_iff
      split: result.splits option.splits if_splits)
  then show thesis using that(1) runs_unusable [OF runs_refl] by auto
qed

lemma client_submit_share_runs:
  assumes "client_submit_share sha256 api now (cr_client r) s = (x, d)"
  shows "runs r d"
  using assms
proof (rule client_submit_share_cases)
  fix before attribution_id c message
  assume "runs r c" "submit_response c s (canonical_share_id sha256 (sb_job_id s) (sb_time s) (sb_nonce s) (sb_solution s))
    attribution_id before message = (x, d)"
  then show ?thesis using submit_response_cases runs_unusable by blast
qed

lemma validate_receipt_cases:
  "validate_receipt_for_job c receipt job parent recovery paused replayed = (y, d) \<Longrightarrow>
     touched c d \<and> (is_ok y \<longrightarrow> d = c \<and> ShareReceipt_validate_for_job receipt job = Ok () \<and>
       (recovery \<longrightarrow> recovery_role_matches receipt paused replayed) \<and> sr_parent_hash_le receipt = parent)"
  unfolding validate_receipt_for_job_def by (drule invalidate_guard) (auto simp: unit_result_is_ok)

lemma submit_prepared_cases:
  assumes "submit_prepared_share_borrowed sha256 api now c ctx = (x, d)"
  obtains x' c' where "client_submit_share sha256 api now c (context_submission ctx) = (x', c')" "touched c' d"
    "is_ok x \<longrightarrow> x' = x \<and> d = c' \<and> (\<exists>commit. x = Ok commit \<and>
       ShareReceipt_validate_for_job (cm_receipt commit) (bg_descriptor (ga_generation (sc_admission ctx))) = Ok () \<and>
       (GenerationAdmission_is_winner_recovery (sc_admission ctx) \<longrightarrow>
          recovery_role_matches (cm_receipt commit) (GenerationAdmission_is_paused_zcash_candidate (sc_admission ctx)) (cm_replayed commit)) \<and>
       sr_parent_hash_le (cm_receipt commit) = canonical_parent_header_hash_le sha256
         (jd_header_input (bg_descriptor (ga_generation (sc_admission ctx)))) (sc_nonce ctx) (sc_solution ctx))"
proof -
  obtain x' c' where s: "client_submit_share sha256 api now c (context_submission ctx) = (x', c')"
    by (cases "client_submit_share sha256 api now c (context_submission ctx)")
  define job where "job = bg_descriptor (ga_generation (sc_admission ctx))"
  define parent where "parent = canonical_parent_header_hash_le sha256 (jd_header_input job) (sc_nonce ctx) (sc_solution ctx)"
  let ?v = "\<lambda>receipt. validate_receipt_for_job c' receipt job parent (GenerationAdmission_is_winner_recovery (sc_admission ctx))
     (GenerationAdmission_is_paused_zcash_candidate (sc_admission ctx))"
  note d = assms [unfolded submit_prepared_share_borrowed_def Let_def s job_def [symmetric] parent_def [symmetric] prod.case]
  show thesis
  proof (cases x')
    case (Ok commit)
    obtain y e where v: "?v (cm_receipt commit) (cm_replayed commit) = (y, e)" by (cases "?v (cm_receipt commit) (cm_replayed commit)")
    with d Ok have "d = e" "x = (case y of Err e \<Rightarrow> Err e | Ok _ \<Rightarrow> Ok commit)" by (cases y; simp)+
    with that [OF s] validate_receipt_cases [OF v] Ok show thesis by (cases y) (auto simp: job_def parent_def)
  next
    case (Err er)
    show thesis
    proof (cases "\<exists>receipt. er = HistoricalReplayRequiresProjection receipt")
      case True
      then obtain receipt where er: "er = HistoricalReplayRequiresProjection receipt" by blast
      obtain y e where v: "?v receipt True = (y, e)" by (cases "?v receipt True")
      with d Err er have "d = e" "\<not> is_ok x" by (cases y; auto)+
      with that [OF s] validate_receipt_cases [OF v] show thesis by blast
    next
      case False
      with d Err have "d = c'" "\<not> is_ok x" by (cases er; auto)+
      with that [OF s] show thesis by blast
    qed
  qed
qed

lemma submit_prepared_runs:
  assumes "submit_prepared_share_borrowed sha256 api now (cr_client r) ctx = (x, d)"
  shows "runs r d"
  using assms
proof (rule submit_prepared_cases)
  fix x' c'
  assume "client_submit_share sha256 api now (cr_client r) (context_submission ctx) = (x', c')" "touched c' d"
  then show ?thesis using client_submit_share_runs runs_unusable by blast
qed

section \<open>The machine of a connection\<close>

inductive client_step :: "(bytes \<Rightarrow> bytes) \<Rightarrow> 'num json_api \<Rightarrow> client_run \<Rightarrow> client_run \<Rightarrow> bool"
  for sha256 :: "bytes \<Rightarrow> bytes" and api :: "'num json_api" where
  step_read: "read_events sha256 api now (cr_client r) after_event_seq limit = (x, c) \<Longrightarrow>
    client_step sha256 api r (page_run r x c)"
| step_subscribe: "subscribe_jobs sha256 api now (cr_client r) after_event_seq = (x, c) \<Longrightarrow>
    client_step sha256 api r (r\<lparr>cr_client := c\<rparr>)"
| step_health: "health sha256 api now (cr_client r) = (y, c) \<Longrightarrow> client_step sha256 api r (r\<lparr>cr_client := c\<rparr>)"
| step_submit: "client_submit_share sha256 api now (cr_client r) s = (z, c) \<Longrightarrow>
    client_step sha256 api r (r\<lparr>cr_client := c\<rparr>)"
| step_prepared: "submit_prepared_share_borrowed sha256 api now (cr_client r) ctx = (z, c) \<Longrightarrow>
    client_step sha256 api r (r\<lparr>cr_client := c\<rparr>)"
| step_recovery: "submit_recovery_candidate sha256 api now (cr_client r) ctx = (z, c) \<Longrightarrow>
    client_step sha256 api r (r\<lparr>cr_client := c\<rparr>)"
| step_pop: "pop_queued_event (cr_client r) = (Some d, c) \<Longrightarrow>
    client_step sha256 api r (r\<lparr>cr_client := c, cr_handed := cr_handed r @ [d]\<rparr>)"

definition client_start :: "(bytes \<Rightarrow> bytes) \<Rightarrow> 'num json_api \<Rightarrow> client_run \<Rightarrow> bool" where
  "client_start sha256 api r \<longleftrightarrow> cr_replayed r = [] \<and> cr_handed r = [] \<and>
     (\<exists>now config opened token pool_instance.
        connect sha256 api now config opened token pool_instance (cr_from r) = Ok (cr_client r))"

lemma client_step_effects: "client_step sha256 api r r' \<Longrightarrow> effect\<^sup>*\<^sup>* r r'"
proof (induction rule: client_step.induct)
  case (step_recovery now r ctx z c)
  then show ?case
    using submit_prepared_runs runs_refl by (auto simp: submit_recovery_candidate_def split: if_splits)
next
  case (step_pop r d c)
  then obtain rest where "bc_queued_events (cr_client r) = d # rest" "c = snd (pop_queued_event (cr_client r))"
    by (auto simp: pop_queued_event_def split: list.splits)
  then show ?case using e_pop by blast
qed (auto intro: read_events_runs subscribe_jobs_runs health_runs client_submit_share_runs submit_prepared_runs)

lemma fresh_client_fields [simp]:
  "bc_config (fresh_client stream cfg token pool n) = cfg" "bc_queued_events (fresh_client stream cfg token pool n) = []"
  "bc_observed_events (fresh_client stream cfg token pool n) = []" "bc_historical_events (fresh_client stream cfg token pool n) = []"
  "bc_phase (fresh_client stream cfg token pool n) = Replay" "bc_replay_cursor (fresh_client stream cfg token pool n) = n"
  "bc_live_event_cursor (fresh_client stream cfg token pool n) = None"
  "bc_subscribed_snapshot_event_seq (fresh_client stream cfg token pool n) = None"
  "bc_live_event_anchor_floor (fresh_client stream cfg token pool n) = None" "bc_usable (fresh_client stream cfg token pool n)"
  "bc_next_request_id (fresh_client stream cfg token pool n) = 1"
  by (simp_all add: fresh_client_def)

lemma allocate_fresh:
  "allocate_request_id (fresh_client stream cfg token pool n) = (Ok 1, (fresh_client stream cfg token pool n)\<lparr>bc_next_request_id := 2\<rparr>)"
  by (simp add: allocate_request_id_eq)

lemma connect_cases:
  assumes "connect sha256 api now cfg opened token pool_instance n = Ok c"
  obtains stream v h d anchor where "BackendClientConfig_validate cfg = Ok ()"
    "exchange sha256 api now ((fresh_client stream cfg token pool_instance n)\<lparr>bc_next_request_id := 2\<rparr>)
       (Hello BACKEND_PROTOCOL_VERSION 1 pool_instance n) ''hello'' False = (Ok (HelloOk v h, anchor), d)"
    "verify_hello d h n = Ok ()" "c = accept_hello d h n"
proof -
  from assms obtain stream where valid: "BackendClientConfig_validate cfg = Ok ()"
    and s: "(case exchange sha256 api now ((fresh_client stream cfg token pool_instance n)\<lparr>bc_next_request_id := 2\<rparr>)
        (Hello BACKEND_PROTOCOL_VERSION 1 pool_instance n) ''hello'' False of
          (Err e, _) \<Rightarrow> Err e | (Ok (response, _), c) \<Rightarrow> hello_response c n response) = Ok c"
    unfolding connect_def allocate_fresh
    by (cases "BackendClientConfig_validate cfg"; cases opened) (simp_all split: if_splits)
  then obtain m anchor d where e: "exchange sha256 api now ((fresh_client stream cfg token pool_instance n)\<lparr>bc_next_request_id := 2\<rparr>)
        (Hello BACKEND_PROTOCOL_VERSION 1 pool_instance n) ''hello'' False = (Ok (m, anchor), d)"
    and h: "hello_response d n m = Ok c"
    by (simp split: prod.splits result.splits)
  from h obtain v hello where "m = HelloOk v hello" "verify_hello d hello n = Ok ()" "c = accept_hello d hello n"
    by (cases m) (simp_all add: hello_response_def)
  with valid e that show thesis by blast
qed

lemma exchange_replay:
  assumes "exchange sha256 api now c request operation False = (Ok (m, a), d)" "bc_live_event_cursor c = None"
  shows "bc_live_event_cursor d = None \<and> bc_queued_events d = bc_queued_events c \<and>
    bc_live_event_anchor_floor d = bc_live_event_anchor_floor c"
proof -
  from exchange_exchanged [OF assms(1)] obtain a b where "received a b c d"
    unfolding exchanged_def is_ok.simps simp_thms if_False by blast
  from received_frame(4) [OF this] received_replay [OF this assms(2)] show ?thesis by simp
qed

lemma start_wf:
  assumes "client_start sha256 api r"
  shows "client_wf r"
proof -
  from assms obtain now cfg opened token pool where logs: "cr_replayed r = []" "cr_handed r = []"
    and c: "connect sha256 api now cfg opened token pool (cr_from r) = Ok (cr_client r)"
    by (auto simp: client_start_def)
  from c obtain stream v h d anchor where valid: "BackendClientConfig_validate cfg = Ok ()"
    and e: "exchange sha256 api now ((fresh_client stream cfg token pool (cr_from r))\<lparr>bc_next_request_id := 2\<rparr>)
       (Hello BACKEND_PROTOCOL_VERSION 1 pool (cr_from r)) ''hello'' False = (Ok (HelloOk v h, anchor), d)"
    and v: "verify_hello d h (cr_from r) = Ok ()" "cr_client r = accept_hello d h (cr_from r)"
    by (rule connect_cases)
  have "bc_config d = cfg" "bc_observed_events d = []" "bc_historical_events d = []" "bc_phase d = Replay"
      "bc_replay_cursor d = cr_from r" "bc_subscribed_snapshot_event_seq d = None"
    using exchange_frame [OF e] by (simp_all add: client_frame_def)
  moreover have "bc_live_event_cursor d = None \<and> bc_queued_events d = [] \<and> bc_live_event_anchor_floor d = None"
    using exchange_replay [OF e] by simp
  moreover have "0 < cc_event_queue_capacity cfg" using valid by (simp add: BackendClientConfig_validate_def unit_result_is_ok)
  moreover have "cr_from r \<le> ho_current_event_seq h" using v(1) by (simp add: verify_hello_def Let_def unit_result_is_ok)
  ultimately show ?thesis using logs v(2) by (simp add: client_wf_defs accept_hello_def)
qed

interpretation client: monotone_system "client_start sha256 api" "client_step sha256 api" client_wf client_le
proof
  show "client_wf r" if "client_start sha256 api r" for r :: client_run using that by (rule start_wf)
  show "client_wf r'" if "client_step sha256 api r r'" "client_wf r" for r r' :: client_run
    using effects.steps_inv [OF client_step_effects [OF that(1)] that(2)] .
  show "client_le r r'" if "client_step sha256 api r r'" "client_wf r" for r r' :: client_run
    using effects.steps_le [OF client_step_effects [OF that(1)] that(2)] .
qed (auto intro: client_le_refl client_le_trans)

end
