(* ===== verification/Registry_Properties.thy ===== *)
theory Registry_Properties
  imports Registry_Machine
begin

text \<open>
  The properties of the generation registry over every reachable state of \<^theory_text>\<open>Registry_Machine\<close>, with an example
  registry that has one admissible generation for their witnesses.
\<close>

section \<open>An example\<close>

definition example_descriptor :: job_descriptor where
  "example_descriptor =
     \<lparr>jd_job_id = replicate 32 1, jd_wcash_candidate_hash_le = replicate 32 3,
      jd_header_input = [4, 0, 0, 0] @ replicate 32 2 @ replicate 64 0 @ [1, 0, 0, 0] @ replicate 4 0,
      jd_wcash_previous_hash_le = replicate 32 4, jd_zcash_previous_hash_le = replicate 32 2,
      jd_wcash_coinbase_txid_le = replicate 32 5, jd_zcash_coinbase_txid_le = replicate 32 6,
      jd_wcash_target_le = TargetLe (replicate 32 7), jd_zcash_target_le = TargetLe (replicate 32 8),
      jd_wcash_height = 10, jd_zcash_height = 20, jd_wcash_reward_zat = 30, jd_zcash_reward_zat = 40,
      jd_wcash_maturity_confirmations = 2, jd_zcash_maturity_confirmations = 3, jd_max_age_ms = 5000\<rparr>"

definition example_generation :: backend_generation where
  "example_generation =
     \<lparr>bg_descriptor = example_descriptor, bg_id = JobId (replicate 32 1),
      bg_tips = \<lparr>ti_wcash_previous_hash_le = replicate 32 4, ti_zcash_previous_hash_le = replicate 32 2\<rparr>,
      bg_wcash_network_target = ShareTarget (replicate 32 7), bg_zcash_network_target = ShareTarget (replicate 32 8)\<rparr>"

lemma example_from_descriptor: "BackendGeneration_from_descriptor example_descriptor = Ok example_generation"
proof -
  have "is_ok (JobDescriptor_validate example_descriptor)"
    by (simp add: JobDescriptor_validate_def example_descriptor_def validate_v4_header_input_def TargetLe_is_zero_def
      validate_reward_def validate_maturity_def MAX_CHAIN_VALUE_ZAT_def MAX_MATURITY_CONFIRMATIONS_def)
  then have "JobDescriptor_validate example_descriptor = Ok ()" by (simp add: unit_result_is_ok)
  then show ?thesis by (simp add: BackendGeneration_from_descriptor_def example_generation_def Let_def JobId_new_def
     ShareTarget_from_backend_def ShareTarget_from_zip301_def ShareTarget_from_be_bytes_def TargetBe_from_le_def) (simp add: example_descriptor_def)
qed


definition example_registry :: generation_registry where
  "example_registry = snd (apply_snapshot (GenerationRegistry_new \<lparr>rc_maximum_recent = 2, rc_maximum_generations = 8\<rparr>) 5
     (Some \<lparr>aj_job = example_descriptor, aj_accept_for_ms = 1000\<rparr>) [] 100)"

lemma example_registry_eq: "example_registry =
  \<lparr>gr_config = \<lparr>rc_maximum_recent = 2, rc_maximum_generations = 8\<rparr>,
   gr_entries = [(JobId (replicate 32 1), \<lparr>re_storage = Live example_generation 0, re_accept_until_ms = 1100,
     re_winner_recovery_until_ms = 61100, re_state = Accepting\<rparr>)],
   gr_current = Some (JobId (replicate 32 1)), gr_recent = [], gr_winner_recovery = [JobId (replicate 32 1)],
   gr_watermark_current = Some (JobId (replicate 32 1)), gr_watermark_recent = [], gr_last_event_seq = Some 5,
   gr_last_delivery_anchor_ms = Some 100, gr_last_monotonic_ms = Some 100, gr_synchronized = True, gr_counters = [0]\<rparr>"
  by (simp add: example_registry_def apply_snapshot_def Let_def effective_now_def GenerationRegistry_new_def
      prepare_snapshot_def check_delivery_clock_def prepare_acceptable_def example_from_descriptor
      maximum_age_ms_def deadline_def winner_recovery_deadline_def checked_add_def ZCASH_WINNER_RECOVERY_TAIL_MS_def
      insert_prepared_def omit_entry_def map_ran_def expire_at_def expire_entry_def option_filter_def
      entry_is_some_and_def accepting_def retained_at_watermark_def remember_winner_recovery_def MAX_ZCASH_WINNER_RECOVERY_JOBS_def
      prune_winner_recovery_def current_parent_def example_generation_def, simp add: example_descriptor_def)

lemma example_snapshot:
  "apply_snapshot (GenerationRegistry_new \<lparr>rc_maximum_recent = 2, rc_maximum_generations = 8\<rparr>) 5
     (Some \<lparr>aj_job = example_descriptor, aj_accept_for_ms = 1000\<rparr>) [] 100 = (Ok (), example_registry)"
  (is "?out = _")
proof -
  have "fst ?out = Ok ()"
    by (simp add: apply_snapshot_def Let_def effective_now_def GenerationRegistry_new_def
      prepare_snapshot_def check_delivery_clock_def prepare_acceptable_def example_from_descriptor
      maximum_age_ms_def deadline_def winner_recovery_deadline_def checked_add_def ZCASH_WINNER_RECOVERY_TAIL_MS_def
      insert_prepared_def omit_entry_def map_ran_def example_generation_def, simp add: example_descriptor_def)
  then show ?thesis by (simp add: example_registry_def prod_eq_iff)
qed

abbreviation example_id :: job_id where
  "example_id \<equiv> JobId (replicate 32 1)"

lemma example_start: "registry_start (GenerationRegistry_new \<lparr>rc_maximum_recent = 2, rc_maximum_generations = 8\<rparr>, [])"
  unfolding registry_start_def by (intro exI [of _ 2] exI [of _ 8] exI) (simp add: GenerationRegistryConfig_new_def)

lemma example_reach: "reach registry_start (registry_step h) (example_registry, [])"
proof -
  let ?r = "GenerationRegistry_new \<lparr>rc_maximum_recent = 2, rc_maximum_generations = 8\<rparr>"
  note example_start
  moreover have "registry_step h (?r, []) (example_registry, [])"
    unfolding example_registry_def by (rule registry_step.snapshot [OF prod.collapse [symmetric]])
  ultimately show ?thesis by (blast intro: reach.intros)
qed

lemma reach_ok: "reach registry_start (registry_step h) m \<Longrightarrow> machine_ok m"
  by (rule registry.reach_inv)

text \<open>The counter of an entry counts the ordinary guards of its identifier.\<close>

lemma in_flight_count:
  assumes ok: "guards_ok r gs" and n: "GenerationRegistry_in_flight r i = Some n"
  shows "unat n = length (filter (\<lambda>x. ga_role x = Ordinary \<and> GenerationAdmission_job_id x = i) gs)"
proof -
  from n obtain e where e: "map_of (gr_entries r) i = Some e" "n = storage_in_flight (gr_counters r) (re_storage e)"
    by (auto simp: GenerationRegistry_in_flight_def)
  then have s: "storage_of r i = Some (re_storage e)" by (simp add: storage_of_def)
  show ?thesis
  proof (cases "re_storage e")
    case (Live g a)
    have "ga_counter x = a \<longleftrightarrow> ga_role x = Ordinary \<and> GenerationAdmission_job_id x = i" if x: "x \<in> set gs" for x
    proof (cases "ga_role x = Ordinary")
      case True
      note held = guards_ok_ordinary [OF ok x True]
      have "GenerationAdmission_job_id x = i" if "ga_counter x = a"
        using held s Live that by (simp add: guards_ok_inj [OF ok])
      moreover have "ga_counter x = a" if "GenerationAdmission_job_id x = i"
        using held s Live that by simp
      ultimately show ?thesis using True by blast
    next
      case False
      then show ?thesis using guards_ok_other [OF ok x False, of i g] s Live by metis
    qed
    then have "filter (\<lambda>x. ga_counter x = a) gs = filter (\<lambda>x. ga_role x = Ordinary \<and> GenerationAdmission_job_id x = i) gs"
      by (rule filter_cong [OF refl])
    with guards_ok_count [OF ok guards_ok_address [OF ok, of i g a]] s Live e(2) show ?thesis
      by (simp add: storage_in_flight_def guard_count_def)
  next
    case (Tombstone g)
    have "\<not> (ga_role x = Ordinary \<and> GenerationAdmission_job_id x = i)" if "x \<in> set gs" for x
      using guards_ok_ordinary [OF ok that] s Tombstone by auto
    then have "filter (\<lambda>x. ga_role x = Ordinary \<and> GenerationAdmission_job_id x = i) gs = []"
      by (simp add: filter_empty_conv)
    with e(2) Tombstone show ?thesis by (simp add: storage_in_flight_def)
  qed
qed

section \<open>Properties\<close>

text \<open>C10 The admission roles are exact in every reachable state: current and recent are distinct and bounded, a
  generation has a role exactly when its entry is accepting, each such entry is live and its deadline lies
  after the last observed time, the registry never exceeds its capacity, and a registry that is not
  synchronized gives no role to anything.\<close>

theorem registry_roles_exact:
  assumes "reach registry_start (registry_step h) (r, gs)"
  shows "distinct (roles r) \<and> length (gr_recent r) \<le> rc_maximum_recent (gr_config r) \<and>
    length (gr_entries r) \<le> rc_maximum_generations (gr_config r) \<and>
    set (roles r) = {i. \<exists>e. map_of (gr_entries r) i = Some e \<and> re_state e = Accepting} \<and>
    (\<forall>i e. i \<in> set (roles r) \<and> map_of (gr_entries r) i = Some e \<longrightarrow>
       (\<exists>g a m. re_storage e = Live g a \<and> bg_id g = i \<and> gr_last_monotonic_ms r = Some m \<and> m < re_accept_until_ms e)) \<and>
    (\<not> gr_synchronized r \<longrightarrow> roles r = [])"
proof -
  have wf: "wf_registry r" using reach_ok [OF assms] by (simp add: machine_ok_def)
  then have roles: "set (roles r) = accepting_ids (gr_entries r)" by (simp add: wf_registry_def core_registry_def wf_roles_def)
  have "\<exists>g a m. re_storage e = Live g a \<and> bg_id g = i \<and> gr_last_monotonic_ms r = Some m \<and> m < re_accept_until_ms e"
    if "i \<in> set (roles r)" "map_of (gr_entries r) i = Some e" for i e
  proof -
    have e: "re_state e = Accepting" "wf_entry i e" using that roles entry_of_ok [OF wf] by (auto simp: accepting_ids_def)
    then have "\<exists>g a. re_storage e = Live g a \<and> bg_id g = i" by (cases "re_storage e") (auto simp: wf_entry_def)
    moreover have "\<exists>m. gr_last_monotonic_ms r = Some m \<and> m < re_accept_until_ms e"
      using wf that e by (auto simp: wf_registry_def unexpired_def split: option.splits)
    ultimately show ?thesis by blast
  qed
  moreover have "\<not> gr_synchronized r \<longrightarrow> roles r = []"
    using wf roles by (auto simp: wf_registry_def core_registry_def wf_sync_def)
  moreover have "distinct (roles r)" "length (gr_recent r) \<le> rc_maximum_recent (gr_config r)"
      "length (gr_entries r) \<le> rc_maximum_generations (gr_config r)"
    using wf by (simp_all add: wf_registry_def core_registry_def wf_roles_def wf_entries_def)
  ultimately show ?thesis using roles unfolding accepting_ids_def by blast
qed

theorem registry_roles_exact_witness:
  "set (roles example_registry) = {i. \<exists>e. map_of (gr_entries example_registry) i = Some e \<and> re_state e = Accepting} \<and>
   roles example_registry = [example_id]"
  using registry_roles_exact [OF example_reach] by (simp add: roles_def example_registry_eq)

text \<open>C5 Nothing is forgotten or resurrected: along every run from a reachable state an entry keeps its generation
  and its recovery deadline, its admission deadline never grows, and once its state is terminal no later
  operation makes it accepting or suspended again; the event watermark and the clock never go back.\<close>

theorem registry_no_resurrection:
  assumes "reach registry_start (registry_step h) (r, gs)" "(registry_step h)\<^sup>*\<^sup>* (r, gs) (r', gs')"
    and "map_of (gr_entries r) i = Some e"
  shows "\<exists>e'. map_of (gr_entries r') i = Some e' \<and> entry_generation e' = entry_generation e \<and>
    re_accept_until_ms e' \<le> re_accept_until_ms e \<and> re_winner_recovery_until_ms e' = re_winner_recovery_until_ms e \<and>
    (re_state e \<in> {Invalidated, Closed} \<longrightarrow> re_state e' \<in> {Invalidated, Closed}) \<and>
    option_le (gr_last_event_seq r) (gr_last_event_seq r') \<and> option_le (gr_last_monotonic_ms r) (gr_last_monotonic_ms r')"
proof -
  have "registry_le r r'"
    using registry.steps_le [OF assms(2) reach_ok [OF assms(1)]] by (simp add: machine_le_def)
  then obtain e' where e': "map_of (gr_entries r') i = Some e'" "entry_le e e'"
    and le: "option_le (gr_last_event_seq r) (gr_last_event_seq r')" "option_le (gr_last_monotonic_ms r) (gr_last_monotonic_ms r')"
    using assms(3) by (auto simp: registry_le_def entries_le_def)
  have "re_state e' \<in> {Invalidated, Closed}" if "re_state e \<in> {Invalidated, Closed}"
    using e'(2) that by (cases "re_state e'") (auto simp: entry_le_def)
  with e' le show ?thesis by (auto simp: entry_le_def)
qed

theorem registry_no_resurrection_witness:
  "\<exists>e'. map_of (gr_entries (suspend example_registry)) example_id = Some e' \<and> entry_generation e' = example_generation"
proof -
  have "(registry_step (\<lambda>x. x))\<^sup>*\<^sup>* (example_registry, []) (suspend example_registry, [])"
    by (rule r_into_rtranclp) (rule registry_step.suspend)
  from registry_no_resurrection [OF example_reach this, of example_id] show ?thesis
    by (simp add: example_registry_eq)
qed

text \<open>Acceptance of an entry after the clock advanced, in terms of the state before.\<close>

lemma accepting_after:
  assumes "wf_registry r" "map_of (gr_entries r) i = Some e"
  shows "map_of (gr_entries (expire_at r now)) i = Some (expire_entry now e) \<and>
    (accepting (expire_entry now e) now \<longleftrightarrow> i \<in> set (roles r) \<and> now < re_accept_until_ms e)"
proof -
  have "i \<in> set (roles r) \<longleftrightarrow> re_state e = Accepting"
    using assms by (auto simp: wf_registry_def core_registry_def wf_roles_def accepting_ids_def)
  moreover have "re_state e = Accepting \<Longrightarrow> live_resource (re_storage e) \<noteq> None"
    using entry_of_ok [OF assms] by (simp add: wf_entry_def)
  ultimately show ?thesis using assms(2) by (auto simp: map_ran_conv accepting_def)
qed

text \<open>C20 The exact outcome of an ordinary admission on a reachable registry: it is granted exactly while the clock
  does not go back, the registry is synchronized, the generation has a role, its deadline lies ahead and the
  counter is not exhausted; the guard holds that very generation. Each refusal names its own cause.\<close>

theorem begin_admission_outcome:
  assumes "reach registry_start (registry_step h) (r, gs)"
  shows "case fst (begin_admission r i now) of
      Ok x \<Rightarrow> option_le (gr_last_monotonic_ms r) (Some now) \<and> gr_synchronized r \<and> i \<in> set (roles r) \<and>
        (\<exists>e. map_of (gr_entries r) i = Some e \<and> now < re_accept_until_ms e \<and>
          ga_generation x = entry_generation e \<and> ga_role x = Ordinary)
    | Err e \<Rightarrow> e = RegistryClockMovedBackwards \<and> \<not> option_le (gr_last_monotonic_ms r) (Some now) \<or>
        e = NotSynchronized \<and> \<not> gr_synchronized r \<or> e = UnknownJob i \<and> map_of (gr_entries r) i = None \<or>
        e = RegistryStaleJob i \<and> (\<exists>d. map_of (gr_entries r) i = Some d \<and> (i \<notin> set (roles r) \<or> re_accept_until_ms d \<le> now)) \<or>
        e = AdmissionCounterExhausted i \<and> GenerationRegistry_in_flight r i = Some (- 1)"
proof (cases "option_le (gr_last_monotonic_ms r) (Some now)")
  case False
  then have "advance_clock r now = (Err RegistryClockMovedBackwards, suspend r)" by (simp add: advance_clock_Err)
  with False show ?thesis by (simp add: begin_admission_def)
next
  case clock: True
  define r1 where "r1 = (expire_at r now)\<lparr>gr_last_monotonic_ms := Some now\<rparr>"
  have adv: "advance_clock r now = (Ok (), r1)" using clock by (simp add: advance_clock_Ok r1_def)
  have wf: "wf_registry r" using reach_ok [OF assms] by (simp add: machine_ok_def)
  show ?thesis
  proof (cases "gr_synchronized r \<and> map_of (gr_entries r) i \<noteq> None")
    case False
    then show ?thesis by (auto simp: begin_admission_def adv r1_def map_ran_conv)
  next
    case True
    then obtain e where e: "map_of (gr_entries r) i = Some e" by auto
    note acc = accepting_after [OF wf e, of now]
    show ?thesis
    proof (cases "accepting (expire_entry now e) now")
      case False
      with acc e True show ?thesis by (auto simp: begin_admission_def adv r1_def not_less)
    next
      case granted: True
      then obtain g a where s: "re_storage e = Live g a" by (cases "re_storage e") (auto simp: accepting_def)
      with acc e True granted clock show ?thesis
        by (auto simp: begin_admission_def adv r1_def GenerationRegistry_in_flight_def storage_in_flight_def checked_add_1_None
            split: option.split)
    qed
  qed
qed

theorem begin_admission_outcome_witness:
  "\<exists>x. fst (begin_admission example_registry example_id 200) = Ok x \<and> ga_generation x = example_generation"
  using begin_admission_outcome [OF example_reach, where i = example_id and now = 200]
  by (auto simp: example_registry_eq roles_def GenerationRegistry_in_flight_def storage_in_flight_def split: result.splits)

text \<open>C6 A guard pins its generation: in every reachable state the live resource of each outstanding ordinary guard
  is still held by the registry, the reported in-flight count is exactly the number of such guards, and
  collecting retired generations never reports a generation that a guard still holds.\<close>

theorem admission_pins_generation:
  assumes "reach registry_start (registry_step h) (r, gs)"
  shows "(\<forall>x \<in> set gs. ga_role x = Ordinary \<longrightarrow>
      storage_of r (GenerationAdmission_job_id x) = Some (Live (ga_generation x) (ga_counter x)) \<and>
      (\<forall>now ids. fst (collect_retired r now) = Ok ids \<longrightarrow> GenerationAdmission_job_id x \<notin> set ids)) \<and>
    (\<forall>i n. GenerationRegistry_in_flight r i = Some n \<longrightarrow>
      unat n = length (filter (\<lambda>x. ga_role x = Ordinary \<and> GenerationAdmission_job_id x = i) gs))"
proof -
  have ok: "guards_ok r gs" and wf: "wf_registry r" using reach_ok [OF assms] by (simp_all add: machine_ok_def)
  have "GenerationAdmission_job_id x \<notin> set ids"
    if x: "x \<in> set gs" "ga_role x = Ordinary" and ids: "fst (collect_retired r now) = Ok ids" for x now ids
  proof
    assume mem: "GenerationAdmission_job_id x \<in> set ids"
    from ids obtain r1 where r1: "advance_clock r now = (Ok (), r1)"
      and i: "ids = sort (map fst (filter (\<lambda>(i, e). retires r1 i e) (gr_entries r1)))"
      by (cases "collect_retired r now") (auto simp: collect_retired_Ok)
    note ok1 = advance_ok [OF r1 reach_ok [OF assms]]
    from mem i obtain e where e: "(GenerationAdmission_job_id x, e) \<in> set (gr_entries r1)" "retires r1 (GenerationAdmission_job_id x) e"
      by auto
    have "map_of (gr_entries r1) (GenerationAdmission_job_id x) = Some e"
      using e(1) ok1 by (auto simp: machine_ok_def wf_registry_def core_registry_def wf_entries_def)
    moreover have g1: "guards_ok r1 gs" using ok1 by (simp add: machine_ok_def)
    ultimately have "re_storage e = Live (ga_generation x) (ga_counter x)"
      using guards_ok_ordinary [OF g1 x] by (simp add: storage_of_def)
    with e(2) have "unat (gr_counters r1 ! ga_counter x) = 0" by (simp add: retires_def storage_in_flight_def)
    then show False
      using guards_ok_count [OF g1 guards_ok_guard [OF g1 x(1)]] x(1) by (auto simp: guard_count_zero)
  qed
  moreover have "unat n = length (filter (\<lambda>x. ga_role x = Ordinary \<and> GenerationAdmission_job_id x = i) gs)"
    if "GenerationRegistry_in_flight r i = Some n" for i n
    by (rule in_flight_count [OF ok that])
  ultimately show ?thesis using guards_ok_ordinary [OF ok] by blast
qed

theorem admission_pins_generation_witness:
  "GenerationRegistry_in_flight (snd (begin_admission example_registry example_id 200)) example_id = Some 1 \<and>
   length (filter (\<lambda>x. ga_role x = Ordinary \<and> GenerationAdmission_job_id x = example_id)
     [\<lparr>ga_generation = example_generation, ga_counter = 0, ga_role = Ordinary\<rparr>]) = 1"
proof -
  let ?x = "\<lparr>ga_generation = example_generation, ga_counter = 0, ga_role = Ordinary\<rparr>"
  let ?r = "snd (begin_admission example_registry example_id 200)"
  have granted: "fst (begin_admission example_registry example_id 200) = Ok ?x"
    and flight: "GenerationRegistry_in_flight ?r example_id = Some 1"
    by (simp_all add: example_registry_eq begin_admission_def advance_clock_def check_clock_def expire_at_def Let_def
        ensure_def map_ran_def expire_entry_def accepting_def checked_add_def GenerationRegistry_in_flight_def storage_in_flight_def)
  have "reach registry_start (registry_step (\<lambda>x. x)) (?r, [?x])"
    by (rule reach.step [OF example_reach], rule registry_step.admit [of _ example_id 200])
      (use granted in \<open>simp add: prod_eq_iff\<close>)
  from conjunct2 [OF admission_pins_generation [OF this]] flight
  have "unat (1 :: u64) = length (filter (\<lambda>x. ga_role x = Ordinary \<and> GenerationAdmission_job_id x = example_id) [?x])"
    by blast
  with flight show ?thesis by simp
qed

lemma apply_event_at_advances:
  assumes "core_registry r" "apply_event_at h r event anchor policy = (Ok u, r')"
  shows "gr_synchronized r' \<and> is_ok (BackendEvent_validate h event) \<and>
    gr_last_event_seq r' = Some (BackendEvent_event_seq event) \<and>
    (\<exists>previous. gr_last_event_seq r = Some previous \<and> unat (BackendEvent_event_seq event) = unat previous + 1)"
proof -
  from assms(2) obtain r1 where r1: "check_event h r event anchor policy = Ok ()"
      "dispatch_event (expire_at r (effective_now r policy)) event anchor = (Ok (), r1)"
      "r' = event_applied r1 event anchor (effective_now r policy)"
    by (auto simp: apply_event_at_Ok)
  have "same_frame (expire_at r (effective_now r policy)) r1"
    using dispatch_frame [OF r1(2)] assms(1) by (simp add: expire_core)
  with r1 show ?thesis by (auto simp: check_event_Ok same_frame_def event_applied_def Let_def)
qed

text \<open>C22 The event stream is applied without a gap or fails closed: an accepted event carries exactly the next
  sequence number and becomes the watermark; a refused one leaves the watermark where it was and takes every
  admission role and every recovery right away until a new snapshot.\<close>

theorem event_stream_contiguous:
  assumes "reach registry_start (registry_step h) (r, gs)" "apply_event_at h r event anchor policy = (x, r')"
  shows "case x of
      Ok _ \<Rightarrow> gr_synchronized r' \<and> is_ok (BackendEvent_validate h event) \<and>
        gr_last_event_seq r' = Some (BackendEvent_event_seq event) \<and>
        (\<exists>previous. gr_last_event_seq r = Some previous \<and> unat (BackendEvent_event_seq event) = unat previous + 1)
    | Err _ \<Rightarrow> \<not> gr_synchronized r' \<and> roles r' = [] \<and> gr_winner_recovery r' = [] \<and>
        gr_last_event_seq r' = gr_last_event_seq r"
proof (cases x)
  case (Err e)
  from assms(2) [unfolded Err] obtain r1 where "r' = suspend r1" "same_frame r r1" by (rule apply_event_at_Err)
  then show ?thesis using Err by (simp add: roles_def same_frame_def)
next
  case (Ok u)
  have "core_registry r" using reach_ok [OF assms(1)] by (simp add: machine_ok_def wf_registry_def)
  with assms(2) Ok show ?thesis using apply_event_at_advances by auto
qed

theorem event_stream_contiguous_witness:
  "gr_last_event_seq (snd (apply_event_at (\<lambda>x. x) example_registry (GenerationClosed 6 (replicate 32 9)) 150 150)) = Some 6"
proof -
  have "fst (apply_event_at (\<lambda>x. x) example_registry (GenerationClosed 6 (replicate 32 9)) 150 150) = Ok ()"
    by (simp add: apply_event_at_def try_apply_event_def check_event_def example_registry_eq Let_def ensure_def
        check_clock_def check_delivery_clock_def BackendEvent_validate_def require_nonzero_hex_def checked_add_def
        dispatch_event_def JobId_new_def)
  then have "apply_event_at (\<lambda>x. x) example_registry (GenerationClosed 6 (replicate 32 9)) 150 150 =
      (Ok (), snd (apply_event_at (\<lambda>x. x) example_registry (GenerationClosed 6 (replicate 32 9)) 150 150))"
    by (simp add: prod_eq_iff)
  from event_stream_contiguous [OF example_reach this] show ?thesis by simp
qed

text \<open>The entry of a listed job, and which entries of a snapshot are still open.\<close>

lemma listed_job:
  assumes "list_all2 (prepared_for anchor) jobs ps" "map fst ps = map key jobs" "distinct (map fst ps)"
    and "\<forall>(i, e) \<in> set ps. prepared_ok r anchor i e" "job \<in> set jobs"
  shows "\<exists>e. map_of ps (key job) = Some e \<and> prepared_for anchor job (key job, e) \<and> prepared_ok r anchor (key job) e"
proof -
  from assms(5) obtain k where k: "k < length jobs" "job = jobs ! k" by (auto simp: in_set_conv_nth)
  then have len: "k < length ps" using assms(1) by (simp add: list_all2_lengthD)
  then have "fst (ps ! k) = key job" using arg_cong [OF assms(2), of "\<lambda>xs. xs ! k"] k by simp
  then obtain e where e: "ps ! k = (key job, e)" by (cases "ps ! k") auto
  then have mem: "(key job, e) \<in> set ps" using len nth_mem by metis
  then have "map_of ps (key job) = Some e" using assms(3) by simp
  moreover have "prepared_for anchor job (key job, e)" using list_all2_nthD [OF assms(1) k(1)] k(2) e by simp
  ultimately show ?thesis using mem assms(4) by blast
qed

lemma snapshot_open:
  assumes "distinct (map fst ps)" "\<forall>(i, e) \<in> set ps. prepared_ok r anchor i e"
    and e: "map_of (map_ran (\<lambda>_. expire_entry t) (snapshot_entries es ps)) i = Some e"
  shows "open_state (re_state e) \<longrightarrow> re_state e = Accepting \<and> i \<in> set (map fst ps)"
proof (cases "map_of ps i")
  case None
  then have "i \<notin> set (map fst ps)" by (simp add: map_of_eq_None_iff)
  with None e show ?thesis
    using omit_entry_open [of i "map fst ps"] by (auto simp: map_ran_conv snapshot_entries_map_of [OF assms(1)])
next
  case (Some d)
  with prepared_of [OF Some assms(2)] e show ?thesis
    by (auto simp: map_ran_conv snapshot_entries_map_of [OF assms(1)] prepared_ok_def)
qed

text \<open>C23 A snapshot replaces the admissible work: after a successful one the registry is synchronized at its
  sequence number, the roles are the listed jobs in order without those already expired, each listed job has
  its own descriptor and a deadline within its lease, and every other known generation is terminal.\<close>

theorem snapshot_installs_roles:
  assumes "reach registry_start (registry_step h) (r, gs)" "apply_snapshot r q current recent anchor = (Ok (), r')"
  shows "gr_synchronized r' \<and> gr_last_event_seq r' = Some q \<and>
    roles r' = filter (\<lambda>i. \<exists>e. map_of (gr_entries r') i = Some e \<and> re_state e = Accepting)
      (map (\<lambda>job. JobId (jd_job_id (aj_job job))) (option_list current @ recent)) \<and>
    (\<forall>job \<in> set (option_list current @ recent). \<exists>e. map_of (gr_entries r') (JobId (jd_job_id (aj_job job))) = Some e \<and>
       bg_descriptor (entry_generation e) = aj_job job \<and>
       unat (re_accept_until_ms e) \<le> unat anchor + unat (aj_accept_for_ms job) \<and>
       (re_state e = Accepting \<longleftrightarrow> effective_now r anchor < re_accept_until_ms e)) \<and>
    (\<forall>i e. map_of (gr_entries r') i = Some e \<and> re_state e \<in> {Accepting, Suspended} \<longrightarrow> i \<in> set (roles r'))"
proof -
  let ?t = "effective_now r anchor"
  let ?key = "\<lambda>job. JobId (jd_job_id (aj_job job))"
  from assms(2) obtain p where p: "prepare_snapshot r q current recent anchor = Ok p"
    and r': "r' = prune_winner_recovery (foldl remember_winner_recovery (expire_at (installed r p q anchor ?t) ?t)
      (roles (expire_at (installed r p q anchor ?t) ?t))) ?t"
    by (auto simp: apply_snapshot_Ok Let_def)
  have wf: "wf_registry r" using reach_ok [OF assms(1)] by (simp add: machine_ok_def)
  then have es: "wf_entries (gr_config r) (gr_entries r)" by (simp add: wf_registry_def core_registry_def)
  obtain pc pr where ps: "ps_current p = (case pc of [] \<Rightarrow> None | (i, _) # _ \<Rightarrow> Some i)" "ps_recent p = map fst pr"
    "ps_entries p = snapshot_entries (gr_entries r) (pc @ pr)" "distinct (map fst (pc @ pr))"
    "\<forall>(i, e) \<in> set (pc @ pr). prepared_ok r anchor i e" "map fst pc = map ?key (option_list current)"
    "map fst pr = map ?key recent" "list_all2 (prepared_for anchor) (option_list current @ recent) (pc @ pr)"
    by (rule prepare_snapshot_Ok [OF p es])
  have "wf_entries (gr_config (installed r p q anchor ?t)) (gr_entries (installed r p q anchor ?t))"
    using installed_core [OF p] wf by (simp add: wf_registry_def core_registry_def)
  from roles_expire [OF this, of ?t]
  have "roles r' = filter (\<lambda>i. i \<in> accepting_ids (gr_entries r')) (roles (installed r p q anchor ?t))"
    by (simp add: r' roles_def)
  moreover have "option_list (ps_current p) = map fst pc"
    using ps(1,6) by (cases current; cases pc) (auto split: prod.splits)
  then have "roles (installed r p q anchor ?t) = map ?key (option_list current @ recent)"
    using ps(2,6,7) by (simp add: roles_def installed_def)
  ultimately have roles: "roles r' = filter (\<lambda>i. i \<in> accepting_ids (gr_entries r')) (map ?key (option_list current @ recent))"
    by simp
  have keys: "map fst (pc @ pr) = map ?key (option_list current @ recent)" using ps(6,7) by simp
  have entries: "gr_entries r' = map_ran (\<lambda>_. expire_entry ?t) (snapshot_entries (gr_entries r) (pc @ pr))"
    by (simp add: r' installed_def ps(3))
  have "\<exists>e. map_of (gr_entries r') (?key job) = Some e \<and> bg_descriptor (entry_generation e) = aj_job job \<and>
       unat (re_accept_until_ms e) \<le> unat anchor + unat (aj_accept_for_ms job) \<and>
       (re_state e = Accepting \<longleftrightarrow> ?t < re_accept_until_ms e)" if job: "job \<in> set (option_list current @ recent)" for job
  proof -
    obtain e where e: "map_of (pc @ pr) (?key job) = Some e" "prepared_for anchor job (?key job, e)" "re_state e = Accepting"
      using listed_job [OF ps(8) keys ps(4,5) job] by (auto simp: prepared_ok_def simp del: map_of_append)
    then have "map_of (gr_entries r') (?key job) = Some (expire_entry ?t e)"
      by (simp add: entries map_ran_conv snapshot_entries_map_of [OF ps(4)] del: map_of_append)
    with e show ?thesis by (auto simp: prepared_for_def)
  qed
  moreover have "i \<in> set (roles r')" if "map_of (gr_entries r') i = Some e" "re_state e \<in> {Accepting, Suspended}" for i e
    using snapshot_open [OF ps(4,5) that(1) [unfolded entries]] that keys
    by (auto simp: roles accepting_ids_def open_state_def simp del: map_append)
  ultimately show ?thesis using roles by (simp add: r' installed_def accepting_ids_def)
qed

theorem snapshot_installs_roles_witness:
  "gr_last_event_seq example_registry = Some 5 \<and> roles example_registry = [example_id]"
  using snapshot_installs_roles [OF reach.start [where step = "registry_step (\<lambda>x. x)" and start = registry_start, OF example_start] example_snapshot]
  by (simp add: example_registry_eq example_descriptor_def)

text \<open>The parent of the current work, in terms of the state before the clock advanced.\<close>

lemma current_parent_after:
  assumes "wf_registry r" "gr_current r = Some c" "map_of (gr_entries r) c = Some d" "now < re_accept_until_ms d"
  shows "current_parent ((expire_at r now)\<lparr>gr_last_monotonic_ms := Some now\<rparr>) now = Some (entry_zcash_parent d)"
proof -
  have "c \<in> set (roles r)" using assms(2) by (simp add: roles_def)
  then have acc: "accepting (expire_entry now d) now" and at: "map_of (gr_entries (expire_at r now)) c = Some (expire_entry now d)"
    using accepting_after [OF assms(1,3), of now] assms(4) by simp_all
  then have "gr_current (expire_at r now) = Some c"
    by (simp add: expire_at_def Let_def assms(2) entry_is_some_and_iff option_filter_def)
  with acc at show ?thesis by (simp add: current_parent_def option_filter_def)
qed



end
