(* ===== verification/Session_Properties.thy ===== *)
theory Session_Properties
  imports Mining_Session Registry_Properties
begin

text \<open>
  The mining session as a state machine, its invariant as an instance of \<open>monotone_system\<close>, and the properties
  of sessions and of the submissions they prepare against the generation registry.
\<close>

section \<open>The state machine\<close>

inductive session_step :: "mining_session \<Rightarrow> mining_session \<Rightarrow> bool" where
  subscribe: "subscribe s a = (x, s', a') \<Longrightarrow> session_step s s'"
| authorize: "complete_authorization s w = (x, s') \<Longrightarrow> session_step s s'"
| reject: "reject_authorization s = (x, s') \<Longrightarrow> session_step s s'"
| announce: "announce_job s a = (x, s') \<Longrightarrow> session_step s s'"
| remove: "remove_announced_job s i = (x, s') \<Longrightarrow> session_step s s'"
| retire: "session_step s (retire_announced_job s i)"
| retain: "session_step s (retain_winner_recovery_jobs s ids)"
| write_failed: "session_step s (notification_write_failed s)"
| close: "session_step s (close_session s)"

definition session_start :: "mining_session \<Rightarrow> bool" where
  "session_start s \<longleftrightarrow> (\<exists>sid n. MiningSession_new sid n = Ok s)"

definition known_jobs :: "mining_session \<Rightarrow> job_assignment list" where
  "known_jobs s = ms_announced_jobs s @ ms_winner_recovery_jobs s"

fun session_rank :: "session_state \<Rightarrow> nat" where
  "session_rank Connected = 0"
| "session_rank Subscribed = 1"
| "session_rank Authorized = 2"
| "session_rank SessionClosed = 3"

definition wf_session :: "mining_session \<Rightarrow> bool" where
  "wf_session s \<longleftrightarrow>
     (ms_nonce_prefix s \<noteq> None \<longleftrightarrow> ms_state s \<in> {Subscribed, Authorized}) \<and>
     (ms_worker s \<noteq> None \<longleftrightarrow> ms_state s = Authorized) \<and>
     (ms_state s \<noteq> Authorized \<longrightarrow> known_jobs s = []) \<and>
     distinct (map ja_generation_id (known_jobs s)) \<and>
     length (ms_announced_jobs s) \<le> ms_maximum_announced_jobs s \<and>
     length (ms_winner_recovery_jobs s) \<le> MAX_ZCASH_WINNER_RECOVERY_JOBS"

text \<open>A session only moves forward, and until it closes it keeps its nonce prefix and its worker.\<close>

definition session_le :: "mining_session \<Rightarrow> mining_session \<Rightarrow> bool" where
  "session_le s t \<longleftrightarrow> ms_id t = ms_id s \<and> ms_maximum_announced_jobs t = ms_maximum_announced_jobs s \<and>
     session_rank (ms_state s) \<le> session_rank (ms_state t) \<and>
     (ms_state t \<noteq> SessionClosed \<longrightarrow> (\<forall>p. ms_nonce_prefix s = Some p \<longrightarrow> ms_nonce_prefix t = Some p) \<and>
        (\<forall>w. ms_worker s = Some w \<longrightarrow> ms_worker t = Some w))"

lemma session_rank_le_3: "session_rank x \<le> 3"
  by (cases x) simp_all

lemma session_rank_closed: "session_rank x = 3 \<longleftrightarrow> x = SessionClosed"
  by (cases x) simp_all

lemma session_le_trans:
  assumes "session_le s t" "session_le t u"
  shows "session_le s u"
proof -
  have "ms_state t \<noteq> SessionClosed" if "ms_state u \<noteq> SessionClosed"
    using assms(2) that session_rank_le_3 [of "ms_state u"] session_rank_closed [of "ms_state u"]
    by (auto simp: session_le_def)
  with assms show ?thesis by (auto simp: session_le_def)
qed

lemma close_session_ok: "wf_session (close_session s) \<and> session_le s (close_session s)"
  by (simp add: wf_session_def session_le_def close_session_def known_jobs_def session_rank_le_3)

lemma find_None: "List.find P xs = None \<longleftrightarrow> (\<forall>x \<in> set xs. \<not> P x)"
  by (auto simp: find_None_iff)

lemma find_Some_in: "List.find P xs = Some x \<Longrightarrow> x \<in> set xs \<and> P x"
  by (auto simp: find_Some_iff)

lemma announce_ok:
  assumes "announce_job s a = (x, s')" "wf_session s"
  shows "wf_session s' \<and> session_le s s'"
proof (cases "s' = s")
  case True
  with assms(2) show ?thesis by (simp add: session_le_def)
next
  case False
  with assms(1) have "ms_state s = Authorized" "find_assignment s (ja_generation_id a) = None"
    "length (ms_announced_jobs s) \<noteq> ms_maximum_announced_jobs s" "s' = s\<lparr>ms_announced_jobs := a # ms_announced_jobs s\<rparr>"
    by (auto simp: announce_job_def session_require_def ensure_def split: if_splits option.splits)
  moreover from this have "ja_generation_id a \<notin> ja_generation_id ` set (known_jobs s)"
    by (auto simp: find_assignment_def find_None known_jobs_def)
  ultimately show ?thesis using assms(2) by (auto simp: wf_session_def session_le_def known_jobs_def)
qed

lemma filter_jobs_ok:
  assumes "wf_session s" "s' = s\<lparr>ms_announced_jobs := filter p (ms_announced_jobs s), ms_winner_recovery_jobs := filter q (ms_winner_recovery_jobs s)\<rparr>"
  shows "wf_session s' \<and> session_le s s'"
proof -
  have "length (filter p (ms_announced_jobs s)) \<le> ms_maximum_announced_jobs s"
    "length (filter q (ms_winner_recovery_jobs s)) \<le> MAX_ZCASH_WINNER_RECOVERY_JOBS"
    using assms(1) by (auto simp: wf_session_def intro: le_trans [OF length_filter_le])
  moreover have "distinct (map ja_generation_id (filter p (ms_announced_jobs s) @ filter q (ms_winner_recovery_jobs s)))"
    using assms(1) by (auto simp: wf_session_def known_jobs_def distinct_map_filter)
  ultimately show ?thesis using assms by (auto simp: wf_session_def session_le_def known_jobs_def)
qed

lemma retired_ids:
  assumes "distinct (map f xs)" "x \<in> set xs"
  shows "distinct (map f (remove1 x xs)) \<and> f x \<notin> f ` set (remove1 x xs)"
  using assms by (induction xs) (auto, (metis image_eqI notin_set_remove1)+)

lemma retire_ok:
  assumes "wf_session s"
  shows "wf_session (retire_announced_job s i) \<and> session_le s (retire_announced_job s i)"
proof (cases "List.find (\<lambda>a. ja_generation_id a = i) (ms_announced_jobs s)")
  case None
  with assms show ?thesis by (simp add: retire_announced_job_def session_le_def)
next
  case (Some a)
  let ?w = "ms_winner_recovery_jobs s"
  let ?kept = "if length ?w = MAX_ZCASH_WINNER_RECOVERY_JOBS then butlast ?w else ?w"
  have a: "a \<in> set (ms_announced_jobs s)" using find_Some_in [OF Some] by simp
  have d: "distinct (map ja_generation_id (ms_announced_jobs s))" "distinct (map ja_generation_id ?w)"
    "ja_generation_id ` set (ms_announced_jobs s) \<inter> ja_generation_id ` set ?w = {}"
    using assms by (auto simp: wf_session_def known_jobs_def)
  have kept: "set ?kept \<subseteq> set ?w" "distinct (map ja_generation_id ?kept)" "length ?kept + 1 \<le> MAX_ZCASH_WINNER_RECOVERY_JOBS"
    using d(2) assms by (auto simp: wf_session_def map_butlast distinct_butlast MAX_ZCASH_WINNER_RECOVERY_JOBS_def dest: in_set_butlastD)
  have ann: "distinct (map ja_generation_id (remove1 a (ms_announced_jobs s)))"
    "ja_generation_id a \<notin> ja_generation_id ` set (remove1 a (ms_announced_jobs s))"
    using retired_ids [OF d(1) a] by simp_all
  have "ja_generation_id a \<notin> ja_generation_id ` set ?kept" using d(3) a kept(1) by blast
  moreover have "ja_generation_id ` set (remove1 a (ms_announced_jobs s)) \<inter> ja_generation_id ` set ?kept = {}"
    using d(3) kept(1) set_remove1_subset [of a "ms_announced_jobs s"] by blast
  moreover have "length (remove1 a (ms_announced_jobs s)) \<le> ms_maximum_announced_jobs s"
    using assms by (auto simp: wf_session_def length_remove1)
  ultimately show ?thesis
    using assms kept ann a
    by (auto simp: retire_announced_job_def Some Let_def wf_session_def known_jobs_def session_le_def split del: if_split)
qed

lemma subscribe_ok: "subscribe s a = (x, s', a') \<Longrightarrow> wf_session s \<Longrightarrow> wf_session s' \<and> session_le s s'"
  by (auto simp: subscribe_def session_require_def ensure_def wf_session_def session_le_def known_jobs_def
      split: if_splits prod.splits result.splits)

lemma authorize_ok: "complete_authorization s w = (x, s') \<Longrightarrow> wf_session s \<Longrightarrow> wf_session s' \<and> session_le s s'"
  by (cases "ms_state s")
    (auto simp: complete_authorization_def wf_session_def session_le_def known_jobs_def split: if_splits)

lemma session_step_ok: "session_step s s' \<Longrightarrow> wf_session s \<Longrightarrow> wf_session s' \<and> session_le s s'"
proof (induction rule: session_step.induct)
  case (reject s x s')
  then show ?case
    using close_session_ok [of s] by (auto simp: reject_authorization_def session_le_def split: result.splits)
next
  case (remove s i x s')
  then show ?case by (auto simp: remove_announced_job_def Let_def intro!: filter_jobs_ok)
next
  case (retain s ids)
  then show ?case
    by (rule filter_jobs_ok [where p = "\<lambda>_. True"]) (simp add: retain_winner_recovery_jobs_def)
qed (auto simp: close_session_ok notification_write_failed_def dest: subscribe_ok authorize_ok announce_ok retire_ok)

interpretation session: monotone_system session_start session_step wf_session session_le
proof
  show "wf_session s" if "session_start s" for s
    using that by (auto simp: session_start_def MiningSession_new_def wf_session_def known_jobs_def split: if_splits)
  show "session_le s s" for s by (simp add: session_le_def)
qed (auto dest: session_step_ok session_le_trans)

text \<open>The steps never change the binding of a job the session still knows.\<close>

lemma find_distinct:
  assumes "distinct (map f xs)" "a \<in> set xs"
  shows "List.find (\<lambda>x. f x = f a) xs = Some a"
  using assms by (induction xs) (auto simp: image_iff)

lemma known_jobs_step:
  "session_step s s' \<Longrightarrow> wf_session s \<Longrightarrow>
     set (known_jobs s') \<subseteq> set (known_jobs s) \<or>
     (\<exists>a. find_assignment s (ja_generation_id a) = None \<and> set (known_jobs s') = insert a (set (known_jobs s)))"
proof (induction rule: session_step.induct)
  case (announce s a x s')
  then show ?case
    by (auto simp: announce_job_def session_require_def ensure_def known_jobs_def split: if_splits option.splits)
next
  case (retire s i)
  show ?case
  proof (cases "List.find (\<lambda>a. ja_generation_id a = i) (ms_announced_jobs s)")
    case (Some a)
    then have "a \<in> set (ms_announced_jobs s)" by (rule find_Some_in [THEN conjunct1])
    with Some show ?thesis
      by (auto simp: retire_announced_job_def known_jobs_def Let_def dest: in_set_butlastD notin_set_remove1 [THEN contrapos_pp])
  qed (simp add: retire_announced_job_def)
next
  case (subscribe s a x s' a')
  then show ?case
    by (auto simp: subscribe_def session_require_def known_jobs_def split: prod.splits result.splits)
next
  case (authorize s w x s')
  then show ?case
    by (auto simp: complete_authorization_def known_jobs_def split: session_state.splits if_splits)
qed (auto simp: reject_authorization_def remove_announced_job_def Let_def retain_winner_recovery_jobs_def
    notification_write_failed_def close_session_def known_jobs_def split: result.splits)

section \<open>Properties of sessions\<close>

text \<open>C26 A session has exactly the data of its phase: in every reachable session the nonce prefix exists exactly from
  subscription to closing, the worker exactly while authorized, jobs only while authorized, each generation
  at most once over announced and recovery work, within both capacities.\<close>

theorem session_phase_data:
  assumes "reach session_start session_step s"
  shows "(ms_nonce_prefix s \<noteq> None \<longleftrightarrow> ms_state s \<in> {Subscribed, Authorized}) \<and>
    (ms_worker s \<noteq> None \<longleftrightarrow> ms_state s = Authorized) \<and>
    (ms_state s \<noteq> Authorized \<longrightarrow> ms_announced_jobs s = [] \<and> ms_winner_recovery_jobs s = []) \<and>
    distinct (map ja_generation_id (ms_announced_jobs s @ ms_winner_recovery_jobs s)) \<and>
    length (ms_announced_jobs s) \<le> ms_maximum_announced_jobs s \<and>
    length (ms_winner_recovery_jobs s) \<le> MAX_ZCASH_WINNER_RECOVERY_JOBS"
  using session.reach_inv [OF assms] by (simp add: wf_session_def known_jobs_def)

definition example_session :: mining_session where
  "example_session = \<lparr>ms_id = 5, ms_state = Connected, ms_nonce_prefix = None, ms_worker = None, ms_announced_jobs = [],
     ms_winner_recovery_jobs = [], ms_maximum_announced_jobs = 3\<rparr>"

lemma example_session_reach: "reach session_start session_step example_session"
proof (rule reach.start)
  have "MiningSession_new 5 3 = Ok example_session"
    by (simp add: MiningSession_new_def example_session_def uuid_is_nil_def)
  then show "session_start example_session" unfolding session_start_def by blast
qed

theorem session_phase_data_witness:
  "ms_state example_session = Connected \<and> ms_nonce_prefix example_session = None \<and> ms_worker example_session = None"
  using session_phase_data [OF example_session_reach] by (simp add: example_session_def)

text \<open>C25 A session never changes who it is: along every run its identifier stays, its phase only moves forward, and
  unless it is closed it keeps the nonce prefix and the worker it had; a single step never rebinds a job
  it still knows to another target.\<close>

theorem session_identity_fixed:
  assumes "reach session_start session_step s" "session_step\<^sup>*\<^sup>* s t" "session_step t u"
  shows "ms_id t = ms_id s \<and> session_rank (ms_state s) \<le> session_rank (ms_state t) \<and>
    (ms_state t \<noteq> SessionClosed \<longrightarrow> (\<forall>p. ms_nonce_prefix s = Some p \<longrightarrow> ms_nonce_prefix t = Some p) \<and>
       (\<forall>w. ms_worker s = Some w \<longrightarrow> ms_worker t = Some w)) \<and>
    (\<forall>i b b'. announced_target_binding t i = Some b \<and> announced_target_binding u i = Some b' \<longrightarrow> b = b')"
proof -
  have wf: "wf_session t" "wf_session u"
    using session.steps_inv [OF assms(2) session.reach_inv [OF assms(1)]] session_step_ok [OF assms(3)] by blast+
  have "a = a'" if "find_assignment t i = Some a" "find_assignment u i = Some a'" for i a a'
  proof -
    have a: "a \<in> set (known_jobs t)" "ja_generation_id a = i" and a': "a' \<in> set (known_jobs u)" "ja_generation_id a' = i"
      using that by (auto simp: find_assignment_def known_jobs_def [symmetric] dest: find_Some_in)
    have "a' \<in> set (known_jobs t)"
      using known_jobs_step [OF assms(3) wf(1)] a' a that(1) by auto
    then have "find_assignment t i = Some a'"
      using find_distinct [of ja_generation_id "known_jobs t" a'] wf(1) a'(2)
      by (simp add: wf_session_def find_assignment_def known_jobs_def)
    with that(1) show ?thesis by simp
  qed
  moreover have "session_le s t" by (rule session.steps_le [OF assms(2) session.reach_inv [OF assms(1)]])
  ultimately show ?thesis by (auto simp: session_le_def announced_target_binding_def)
qed

theorem session_identity_fixed_witness:
  "ms_id (close_session example_session) = ms_id example_session"
  using session_identity_fixed [OF example_session_reach r_into_rtranclp [of session_step, OF session_step.close] session_step.close]
  by simp

section \<open>Submissions\<close>

lemma step_run: "registry_step h m m' \<Longrightarrow> (registry_step h)\<^sup>*\<^sup>* m m'"
  by (rule r_into_rtranclp)

lemma candidate_run:
  assumes "begin_zcash_candidate h r i nonce solution now role allow = (x, r')" "role \<noteq> Ordinary"
  shows "(registry_step h)\<^sup>*\<^sup>* (r, gs) (r', (case x of Ok a \<Rightarrow> a # gs | Err _ \<Rightarrow> gs))"
  using assms by (cases x) (auto intro!: step_run registry_step.candidate registry_step.no_candidate)

lemmas candidate_defs = begin_paused_zcash_candidate_def begin_zcash_winner_recovery_def
  begin_historical_zcash_candidate_during_pause_def

text \<open>Obtaining an admission is a run of registry operations; on success the new guard is outstanding.\<close>

lemma obtain_admission_run:
  assumes "obtain_admission h i a time nonce solution r now paused = (x, r')"
  shows "(registry_step h)\<^sup>*\<^sup>* (r, gs) (r', (case x of Ok g \<Rightarrow> g # gs | Err _ \<Rightarrow> gs))"
proof (cases paused)
  case True
  with assms show ?thesis
    by (auto simp: obtain_admission_def candidate_defs split: result.splits prod.splits dest!: candidate_run [where gs = gs])
next
  case False
  obtain y r1 where y: "begin_admission r i now = (y, r1)" by (cases "begin_admission r i now")
  show ?thesis
  proof (cases y)
    case (Ok g)
    with assms False y show ?thesis by (auto simp: obtain_admission_def intro!: step_run registry_step.admit)
  next
    case (Err e)
    have first: "(registry_step h)\<^sup>*\<^sup>* (r, gs) (r1, gs)" using y Err by (auto intro!: step_run registry_step.refuse)
    show ?thesis
    proof (cases "\<exists>j. e = RegistryStaleJob j")
      case False
      with assms \<open>\<not> paused\<close> y Err first show ?thesis
        by (cases e) (auto simp: obtain_admission_def)
    next
      case True
      with assms \<open>\<not> paused\<close> y Err have "(registry_step h)\<^sup>*\<^sup>* (r1, gs) (r', (case x of Ok g \<Rightarrow> g # gs | Err _ \<Rightarrow> gs))"
        by (auto simp: obtain_admission_def candidate_defs split: result.splits prod.splits dest!: candidate_run [where gs = gs])
      with first show ?thesis by (rule rtranclp_trans)
    qed
  qed
qed

lemma begin_generation:
  assumes "wf_registry r"
  shows "begin_admission r i now = (Ok x, r') \<Longrightarrow> bg_id (ga_generation x) = i"
    and "begin_zcash_candidate h r i nonce solution now role allow = (Ok x, r') \<Longrightarrow> bg_id (ga_generation x) = i"
proof -
  have wf: "bg_id (entry_generation e) = i" if "advance_clock r now = (Ok (), r1)" "map_of (gr_entries r1) i = Some e" for r1 e
    using entry_of_ok [OF advance_clock_wf [OF that(1) assms] that(2)] by (simp add: wf_entry_def)
  show "begin_admission r i now = (Ok x, r') \<Longrightarrow> bg_id (ga_generation x) = i"
    by (auto simp: begin_admission_Ok dest!: wf)
  show "begin_zcash_candidate h r i nonce solution now role allow = (Ok x, r') \<Longrightarrow> bg_id (ga_generation x) = i"
    by (auto simp: begin_zcash_candidate_Ok candidate_ok_def dest!: wf)
qed

lemma obtain_admission_generation:
  assumes "obtain_admission h i a time nonce solution r now paused = (Ok x, r')" "machine_ok (r, gs)"
  shows "bg_id (ga_generation x) = i"
proof -
  have wf: "wf_registry r" using assms(2) by (simp add: machine_ok_def)
  have wf1: "wf_registry r1" if "begin_admission r i now = (Err e, r1)" for r1 e
    using step_ok [OF registry_step.refuse [OF that] assms(2)] by (simp add: machine_ok_def)
  show ?thesis
    using assms(1) by (auto simp: obtain_admission_def candidate_defs
        dest: begin_generation [OF wf] begin_generation [OF wf1] split: if_splits result.splits prod.splits job_registry_error.splits)
qed

lemma check_generation_Ok:
  "check_generation i g a time = Ok u \<longleftrightarrow> tb_wcash_network (bd_bounds (ja_target a)) = bg_wcash_network_target g \<and>
     tb_zcash_network (bd_bounds (ja_target a)) = bg_zcash_network_target g \<and> header_time g = time"
  by (auto simp: check_generation_def JobAssignment_new_def Let_def unit_result_is_ok split: if_splits)

lemma prepare_submission_Ok:
  assumes "prepare_submission_mode h s login i time suffix solution r now paused = (Ok c, r')"
  obtains worker prefix a nonce x where "ms_state s = Authorized" "ms_worker s = Some worker" "ms_nonce_prefix s = Some prefix"
    "login = aw_canonical_login worker" "find_assignment s i = Some a" "join_nonce prefix suffix = Ok nonce"
    "obtain_admission h i a time nonce solution r now paused = (Ok x, r')"
    "check_generation i (ga_generation x) a time = Ok ()"
    "c = \<lparr>sc_session_id = ms_id s, sc_identity = backend_identity worker,
       sc_target_le = ShareTarget_to_backend (bd_target (ja_target a)), sc_time = time, sc_nonce = nonce,
       sc_solution = solution, sc_admission = x\<rparr>"
  using assms that
  by (auto simp: prepare_submission_mode_def session_require_def split: result.splits prod.splits)

lemma prepare_submission_run:
  assumes "prepare_submission_mode h s login i time suffix solution r now paused = (x, r')"
  shows "(registry_step h)\<^sup>*\<^sup>* (r, gs) (r', (case x of Ok c \<Rightarrow> sc_admission c # gs | Err _ \<Rightarrow> gs))"
proof -
  let ?pre = "and_then (session_require s Authorized) (\<lambda>_.
           and_then (ok_or (ms_worker s) MissingIdentity) (\<lambda>worker.
           and_then (ok_or (ms_nonce_prefix s) MissingNoncePrefix) (\<lambda>prefix.
           and_then (ensure (login = aw_canonical_login worker) LoginMismatch) (\<lambda>_.
           and_then (ok_or (find_assignment s i) (JobNotAnnounced i)) (\<lambda>assignment.
           and_then (map_err (\<lambda>_. NonceProfileMismatch) (join_nonce prefix suffix)) (\<lambda>nonce.
           Ok (worker, assignment, nonce)))))))"
  show ?thesis
  proof (cases ?pre)
    case (Err e)
    with assms show ?thesis by (auto simp: prepare_submission_mode_def)
  next
    case (Ok w)
    obtain worker a nonce where w: "w = (worker, a, nonce)" by (cases w)
    obtain y r1 where y: "obtain_admission h i a time nonce solution r now paused = (y, r1)"
      by (cases "obtain_admission h i a time nonce solution r now paused")
    note run = obtain_admission_run [OF y, of gs]
    show ?thesis
    proof (cases y)
      case (Err e)
      with assms Ok w y run show ?thesis by (auto simp: prepare_submission_mode_def)
    next
      case granted: (Ok g)
      have "registry_step h (r1, g # gs) (drop_admission r1 g, gs)" using registry_step.drop [of g "g # gs" h r1] by simp
      with run granted have "(registry_step h)\<^sup>*\<^sup>* (r, gs) (drop_admission r1 g, gs)" by (auto intro: rtranclp.rtrancl_into_rtrancl)
      with assms Ok w y granted run show ?thesis
        by (cases "check_generation i (ga_generation g) a time") (auto simp: prepare_submission_mode_def)
    qed
  qed
qed

text \<open>C9 A prepared submission is exactly what this session may send: it needs an authorized session, the worker's own
  login and a job announced to this session; it carries the registered identity, the announced target, the
  session's prefix joined with the miner's suffix, the generation's own header time, and a guard on the
  generation of that very job, whose network targets are those of the announced binding.\<close>

theorem prepared_submission_exact:
  assumes "reach registry_start (registry_step h) (r, gs)"
    and "prepare_submission_mode h s login i time suffix solution r now paused = (Ok c, r')"
  shows "ms_state s = Authorized \<and> sc_session_id c = ms_id s \<and> sc_time c = time \<and> sc_solution c = solution \<and>
    GenerationAdmission_job_id (sc_admission c) = i \<and> header_time (ga_generation (sc_admission c)) = time \<and>
    (\<exists>w prefix b. ms_worker s = Some w \<and> login = aw_canonical_login w \<and> sc_identity c = backend_identity w \<and>
       ms_nonce_prefix s = Some prefix \<and> join_nonce prefix suffix = Ok (sc_nonce c) \<and>
       announced_target_binding s i = Some b \<and> sc_target_le c = ShareTarget_to_backend (bd_target b) \<and>
       tb_wcash_network (bd_bounds b) = bg_wcash_network_target (ga_generation (sc_admission c)) \<and>
       tb_zcash_network (bd_bounds b) = bg_zcash_network_target (ga_generation (sc_admission c)))"
  using assms(2)
proof (rule prepare_submission_Ok)
  fix worker prefix a nonce x
  assume *: "ms_state s = Authorized" "ms_worker s = Some worker" "ms_nonce_prefix s = Some prefix"
    "login = aw_canonical_login worker" "find_assignment s i = Some a" "join_nonce prefix suffix = Ok nonce"
    "obtain_admission h i a time nonce solution r now paused = (Ok x, r')"
    "check_generation i (ga_generation x) a time = Ok ()"
    "c = \<lparr>sc_session_id = ms_id s, sc_identity = backend_identity worker,
       sc_target_le = ShareTarget_to_backend (bd_target (ja_target a)), sc_time = time, sc_nonce = nonce,
       sc_solution = solution, sc_admission = x\<rparr>"
  have "bg_id (ga_generation x) = i" by (rule obtain_admission_generation [OF *(7) reach_ok [OF assms(1)]])
  with * show ?thesis
    by (auto simp: GenerationAdmission_job_id_def announced_target_binding_def check_generation_Ok)
qed

definition example_bounds :: target_bounds where
  "example_bounds = \<lparr>tb_wcash_network = ShareTarget (replicate 32 7), tb_zcash_network = ShareTarget (replicate 32 8),
     tb_hardest_allowed = ShareTarget (replicate 32 8), tb_easiest_allowed = ShareTarget (replicate 32 9)\<rparr>"

definition example_binding :: target_binding where
  "example_binding = \<lparr>bd_revision = 1, bd_target = ShareTarget (replicate 32 9), bd_bounds = example_bounds\<rparr>"

definition example_authorized :: mining_session where
  "example_authorized = example_session\<lparr>ms_state := Authorized, ms_nonce_prefix := Some (Four [1, 0, 0, 0]),
     ms_worker := Some \<lparr>aw_account_id = 7, aw_worker_id = 9, aw_canonical_login = ''rig'', aw_attribution_login = ''rig''\<rparr>,
     ms_announced_jobs := [\<lparr>ja_generation_id = example_id, ja_target = example_binding\<rparr>]\<rparr>"

definition example_prepared :: "(session_error, submission_context) result \<times> generation_registry" where
  "example_prepared = prepare_submission (\<lambda>x. x) example_authorized ''rig'' example_id [1, 0, 0, 0]
     (TwentyEight (replicate 28 0)) [] example_registry 200"

definition example_context :: submission_context where
  "example_context = \<lparr>sc_session_id = 5, sc_identity = \<lparr>wi_account_id = 7, wi_worker_id = 9, wi_label = ''rig''\<rparr>,
     sc_target_le = ShareTarget_to_backend (ShareTarget (replicate 32 9)), sc_time = [1, 0, 0, 0],
     sc_nonce = [1, 0, 0, 0] @ replicate 28 0, sc_solution = [],
     sc_admission = \<lparr>ga_generation = example_generation, ga_counter = 0, ga_role = Ordinary\<rparr>\<rparr>"

lemma example_prepares:
  "fst (prepare_submission h example_authorized ''rig'' example_id [1, 0, 0, 0] (TwentyEight (replicate 28 0)) [] example_registry 200) =
     Ok example_context"
proof -
  have "fst (begin_admission example_registry example_id 200) = Ok (sc_admission example_context)"
    by (simp add: example_registry_eq begin_admission_def advance_clock_def check_clock_def expire_at_def Let_def
        ensure_def map_ran_def expire_entry_def accepting_def checked_add_def example_context_def)
  then obtain r1 where b: "begin_admission example_registry example_id 200 = (Ok (sc_admission example_context), r1)"
    by (cases "begin_admission example_registry example_id 200") auto
  have g: "check_generation example_id example_generation \<lparr>ja_generation_id = example_id, ja_target = example_binding\<rparr> [1, 0, 0, 0] = Ok ()"
    by (simp add: check_generation_Ok example_binding_def example_bounds_def example_generation_def header_time_def
        example_descriptor_def)
  show ?thesis
    by (simp add: prepare_submission_def prepare_submission_mode_def session_require_def ensure_def
        example_authorized_def example_session_def find_assignment_def obtain_admission_def b g example_context_def [THEN arg_cong, of sc_admission])
      (simp add: example_context_def g backend_identity_def example_binding_def)
qed

lemma example_prepared_Ok: "fst example_prepared = Ok example_context"
  by (simp add: example_prepared_def example_prepares)

theorem prepared_submission_exact_witness:
  "\<exists>c. fst example_prepared = Ok c \<and> ms_state example_authorized = Authorized \<and>
     GenerationAdmission_job_id (sc_admission c) = example_id"
proof -
  have "prepare_submission_mode (\<lambda>x. x) example_authorized ''rig'' example_id [1, 0, 0, 0] (TwentyEight (replicate 28 0)) []
      example_registry 200 False = (Ok example_context, snd example_prepared)"
    using example_prepared_Ok by (simp add: example_prepared_def prepare_submission_def prod_eq_iff)
  from prepared_submission_exact [OF example_reach this] example_prepared_Ok show ?thesis by blast
qed

text \<open>Submissions never leak or lose a guard: preparing one against a reachable registry leads to a reachable
  registry whose outstanding guards are the old ones, plus the context's own guard exactly when it succeeds.\<close>

lemma submission_guards_accounted:
  assumes "reach registry_start (registry_step h) (r, gs)"
    and "prepare_submission_mode h s login i time suffix solution r now paused = (x, r')"
  shows "reach registry_start (registry_step h) (r', case x of Ok c \<Rightarrow> sc_admission c # gs | Err _ \<Rightarrow> gs)"
  by (rule reach_steps [OF assms(1) prepare_submission_run [OF assms(2)]])

text \<open>The candidate that \<open>refilter_zcash_candidate\<close> asks for.\<close>

lemma refilter_candidate:
  obtains role allow where "role \<noteq> Ordinary"
    "(if GenerationAdmission_is_paused_zcash_candidate old \<or> (\<not> GenerationAdmission_is_winner_recovery old \<and> recovery_only)
      then begin_paused_zcash_candidate h r i nonce solution now
      else if recovery_only then begin_historical_zcash_candidate_during_pause h r i nonce solution now
      else begin_zcash_winner_recovery h r i nonce solution now) =
     begin_zcash_candidate h r i nonce solution now role allow"
  using that by (cases "GenerationAdmission_is_paused_zcash_candidate old \<or> (\<not> GenerationAdmission_is_winner_recovery old \<and> recovery_only)";
      cases recovery_only) (auto simp: candidate_defs)

lemma drop_run: "x \<in> set gs \<Longrightarrow> (registry_step h)\<^sup>*\<^sup>* (r, gs) (drop_admission r x, remove1 x gs)"
  by (intro step_run registry_step.drop)

text \<open>C24 Refiltering exchanges the guard and nothing else: it keeps identity, target, time, nonce and solution and the
  descriptor of the generation, its new guard is a recovery guard, and against a reachable registry the old
  guard is released on every path while the new one is outstanding exactly when it succeeds.\<close>

theorem refilter_exchanges_guard:
  assumes "reach registry_start (registry_step h) (r, gs)" "sc_admission c \<in> set gs"
    and "refilter_zcash_candidate h c r now recovery_only = (x, r')"
  shows "reach registry_start (registry_step h)
      (r', (case x of Ok c' \<Rightarrow> sc_admission c' # remove1 (sc_admission c) gs | Err _ \<Rightarrow> remove1 (sc_admission c) gs)) \<and>
    (\<forall>c'. x = Ok c' \<longrightarrow> c' = c\<lparr>sc_admission := sc_admission c'\<rparr> \<and> ga_role (sc_admission c') \<noteq> Ordinary \<and>
       bg_descriptor (ga_generation (sc_admission c')) = bg_descriptor (ga_generation (sc_admission c)))"
proof -
  let ?old = "sc_admission c" and ?i = "GenerationAdmission_job_id (sc_admission c)"
  obtain role allow where role: "role \<noteq> Ordinary" and
    cand: "(if GenerationAdmission_is_paused_zcash_candidate ?old \<or> (\<not> GenerationAdmission_is_winner_recovery ?old \<and> recovery_only)
      then begin_paused_zcash_candidate h r ?i (sc_nonce c) (sc_solution c) now
      else if recovery_only then begin_historical_zcash_candidate_during_pause h r ?i (sc_nonce c) (sc_solution c) now
      else begin_zcash_winner_recovery h r ?i (sc_nonce c) (sc_solution c) now) =
     begin_zcash_candidate h r ?i (sc_nonce c) (sc_solution c) now role allow"
    by (rule refilter_candidate)
  obtain y r1 where y: "begin_zcash_candidate h r ?i (sc_nonce c) (sc_solution c) now role allow = (y, r1)"
    by (cases "begin_zcash_candidate h r ?i (sc_nonce c) (sc_solution c) now role allow")
  note eq = assms(3) [unfolded refilter_zcash_candidate_def Let_def cand y prod.case]
  note reach1 = reach_steps [OF assms(1) candidate_run [OF y role, of gs]]
  show ?thesis
  proof (cases y)
    case (Err e)
    with eq reach1 reach_steps [OF _ drop_run [OF assms(2)]] show ?thesis by auto
  next
    case (Ok a)
    then have a: "ga_role a = role" using y by (auto simp: begin_zcash_candidate_Ok)
    have "ga_counter a = length (gr_counters r)"
      using y Ok by (auto simp: begin_zcash_candidate_Ok advance_clock_Ok)
    moreover have "ga_counter ?old < length (gr_counters r)"
      using reach_ok [OF assms(1)] guards_ok_guard [OF _ assms(2)] by (simp add: machine_ok_def)
    ultimately have new: "?old \<noteq> a" by auto
    have both: "reach registry_start (registry_step h) (r1, a # gs)" using reach1 Ok by simp
    have "reach registry_start (registry_step h) (drop_admission r1 a, gs)"
      using reach_steps [OF both drop_run [of a "a # gs"]] by simp
    note both_dropped = reach_steps [OF this drop_run [OF assms(2)]]
    have "reach registry_start (registry_step h) (drop_admission r1 ?old, a # remove1 ?old gs)"
      using reach_steps [OF both drop_run [of ?old "a # gs"]] assms(2) new by auto
    with both_dropped eq Ok a role show ?thesis by (auto split: if_splits)
  qed
qed

theorem refilter_exchanges_guard_witness:
  "\<exists>x r'. refilter_zcash_candidate (\<lambda>x. x) example_context (snd example_prepared) 250 True = (x, r') \<and>
     reach registry_start (registry_step (\<lambda>x. x)) (r', case x of Ok c' \<Rightarrow> [sc_admission c'] | Err _ \<Rightarrow> [])"
proof -
  have "prepare_submission_mode (\<lambda>x. x) example_authorized ''rig'' example_id [1, 0, 0, 0] (TwentyEight (replicate 28 0)) []
      example_registry 200 False = (Ok example_context, snd example_prepared)"
    using example_prepared_Ok by (simp add: example_prepared_def prepare_submission_def prod_eq_iff)
  from reach_steps [OF example_reach prepare_submission_run [OF this]]
  have reach: "reach registry_start (registry_step (\<lambda>x. x)) (snd example_prepared, [sc_admission example_context])" by simp
  obtain x r' where out: "refilter_zcash_candidate (\<lambda>x. x) example_context (snd example_prepared) 250 True = (x, r')"
    by (cases "refilter_zcash_candidate (\<lambda>x. x) example_context (snd example_prepared) 250 True")
  from refilter_exchanges_guard [OF reach _ out] out show ?thesis by (cases x) auto
qed

end
