(* ===== verification/Client_Properties.thy ===== *)
theory Client_Properties
  imports Client_Machine Session_Properties
begin

text \<open>
  What a backend connection guarantees its user: events exactly once, nothing taken back, commits that are backed by
  evidence, and silence after a failure. An example conversation instantiates them.
\<close>

section \<open>An example conversation\<close>

text \<open>A backend whose journal is empty: it greets, sends an empty snapshot, then commits one share.\<close>

definition example_sha :: "bytes \<Rightarrow> bytes" where
  "example_sha _ = replicate 32 1"

definition example_hello :: hello_ok where
  "example_hello = \<lparr>ho_id = 1, ho_backend_session = 11, ho_backend_instance = 12, ho_journal_stream = 13,
     ho_capabilities = REQUIRED_BACKEND_CAPABILITIES, ho_wcash_genesis = replicate 32 1, ho_zcash_genesis = replicate 32 2,
     ho_wcash_payout_commitment = replicate 32 3, ho_zcash_payout_commitment = replicate 32 4,
     ho_share_target_ceiling_be = TargetBe (replicate 32 9), ho_chain_id = 7, ho_current_event_seq = 0\<rparr>"

definition example_client_config :: backend_client_config where
  "example_client_config = \<lparr>cc_socket_path = ''/run/b'', cc_expected = \<lparr>eb_wcash_genesis = replicate 32 1, eb_zcash_genesis = replicate 32 2,
     eb_chain_id = 7, eb_wcash_payout_commitment = replicate 32 3, eb_zcash_payout_commitment = replicate 32 4,
     eb_share_target_ceiling_be = TargetBe (replicate 32 9), eb_backend_instance = None, eb_journal_stream = None\<rparr>,
     cc_connect_timeout = DEFAULT_CONNECT_TIMEOUT, cc_request_timeout = DEFAULT_REQUEST_TIMEOUT, cc_event_queue_capacity = 4\<rparr>"

definition example_receipt :: share_receipt where
  "example_receipt = \<lparr>sr_event_seq = 1, sr_job_id = replicate 32 1, sr_share_id = replicate 32 1,
     sr_attribution_id = replicate 32 1, sr_parent_hash_le = replicate 32 1, sr_winners = []\<rparr>"

definition example_event :: backend_event where
  "example_event = ShareCommittedEvent example_receipt (replicate 32 1) (sc_identity example_context) (sc_target_le example_context)"

definition example_messages :: "bytes \<Rightarrow> (string, backend_message) result" where
  "example_messages bs =
     (if bs = [1] then Ok (HelloOk BACKEND_PROTOCOL_VERSION example_hello)
      else if bs = [2] then Ok (JobSnapshot BACKEND_PROTOCOL_VERSION 2 0 None [])
      else if bs = [3] then Ok (BackendEventMessage BACKEND_PROTOCOL_VERSION example_event)
      else if bs = [4] then Ok (ShareCommitted BACKEND_PROTOCOL_VERSION 3 example_receipt False)
      else Err ''syntax'')"

definition example_api :: "unit json_api" where
  "example_api = \<lparr>api_to_vec = (\<lambda>_. Ok [0]), api_from_slice = example_messages, api_value = (\<lambda>_. Ok JNull), api_as_u64 = (\<lambda>_. None)\<rparr>"

abbreviation example_frame :: "u8 \<Rightarrow> read_outcome" where
  "example_frame k \<equiv> Received [0, 0, 0, 1, k]"

lemma example_section:
  "read_exact_section (example_frame k # rest) [] 4 sec eof = (Ok [0, 0, 0, 1], Received [k] # rest)"
  "read_exact_section (Received [k] # rest) [] (Suc 0) sec eof = (Ok [k], rest)"
  by (simp_all add: read_exact_section.simps Let_def)

lemma example_read:
  "read_backend_message example_sha example_api (example_frame k # rest) =
     (map_err Failed (map_err ClientProtocol (and_then (map_err Json (example_messages [k])) (\<lambda>m.
        and_then (BackendMessage_validate example_sha m) (\<lambda>_. Ok m)))), rest)"
  by (simp add: read_backend_message_def BACKEND_LENGTH_PREFIX_BYTES_def example_section from_be_bytes_def be_val_def
     MAX_BACKEND_PAYLOAD_BYTES_def example_api_def check_version_def json_get_def decode_backend_message_def decode_length_frame_def)

lemma example_valid_messages:
  "BackendMessage_validate example_sha (HelloOk BACKEND_PROTOCOL_VERSION example_hello) = Ok ()"
  "BackendMessage_validate example_sha (JobSnapshot BACKEND_PROTOCOL_VERSION 2 0 None []) = Ok ()"
  "BackendMessage_validate example_sha (ShareCommitted BACKEND_PROTOCOL_VERSION 3 example_receipt False) = Ok ()"
  by (simp_all add: unit_result_is_ok BackendMessage_validate_def HelloOk_validate_def example_hello_def JobSnapshot_validate_def
    ShareReceipt_validate_def example_receipt_def contains_repeat_def REQUIRED_BACKEND_CAPABILITIES_def TargetBe_is_zero_def
    require_nonzero_id_def upt_rec)

lemma example_identity_valid: "is_ok (WorkerIdentity_validate (sc_identity example_context))"
  by code_simp

lemma example_target_nonzero: "\<not> TargetLe_is_zero (sc_target_le example_context)"
  by code_simp

lemma example_attribution: "canonical_attribution_id example_sha (sc_identity example_context) (sc_target_le example_context) = Ok (replicate 32 1)"
  using example_identity_valid example_target_nonzero by (simp add: canonical_attribution_id_Ok example_sha_def)

lemma example_valid_event:
  "BackendMessage_validate example_sha (BackendEventMessage BACKEND_PROTOCOL_VERSION example_event) = Ok ()"
  using example_identity_valid example_target_nonzero example_attribution
  by (simp add: unit_result_is_ok BackendMessage_validate_def BackendEvent_validate_def example_event_def
    ShareReceipt_validate_def example_receipt_def)

lemma example_encode:
  "BackendRequest_validate request = Ok () \<Longrightarrow> encode_backend_request (api_to_vec example_api) request = Ok [0, 0, 0, 1, 0]"
  by (simp add: encode_backend_request_def encode_length_frame_def example_api_def MAX_BACKEND_PAYLOAD_BYTES_def
     to_be_bytes_def to_le_bytes_def upt_rec)

definition example_socket :: socket where
  "example_socket = \<lparr>sk_sent = [], sk_writes = [Written, Written, Written],
     sk_reads = [example_frame 1, example_frame 2, example_frame 3, example_frame 4]\<rparr>"

definition example_connected :: backend_client where
  "example_connected = accept_hello ((fresh_client
     \<lparr>sk_sent = [[0, 0, 0, 1, 0]], sk_writes = [Written, Written], sk_reads = [example_frame 2, example_frame 3, example_frame 4]\<rparr>
     example_client_config 0 21 0)\<lparr>bc_next_request_id := 2\<rparr>) example_hello 0"

lemma example_exchange:
  assumes "bc_usable c" "BackendRequest_validate request = Ok ()" "sk_writes (bc_stream c) = Written # ws"
    "event_source c allow (MonotonicAnchor now) = Some (a, b)"
    "await_response example_sha example_api (BackendRequest_id request) operation allow a b (c\<lparr>bc_usable := False, bc_stream :=
       (bc_stream c)\<lparr>sk_sent := sk_sent (bc_stream c) @ [[0, 0, 0, 1, 0]], sk_writes := ws\<rparr>\<rparr>) = (Ok m, d)"
  shows "exchange example_sha example_api now c request operation allow =
    (Ok (m, MonotonicAnchor now), (if allow then d\<lparr>bc_live_event_anchor_floor := Some (MonotonicAnchor now)\<rparr> else d)\<lparr>bc_usable := True\<rparr>)"
  using assms by (simp add: exchange_def ensure_usable_def ensure_def example_encode write_all_def Let_def)

lemma example_await:
  assumes "sk_reads (bc_stream c) = example_frame k # rest" "example_messages [k] = Ok m"
    "BackendMessage_validate example_sha m = Ok ()" "BackendMessage_correlation_id m = Some rid"
  shows "await_response example_sha example_api rid operation allow a b c = (Ok m, set_reads c rest)"
  using assms by (cases m) (simp_all add: await_response.simps [of _ _ _ _ _ _ _ c] example_read)

lemma example_client_config_valid: "BackendClientConfig_validate example_client_config = Ok ()"
proof -
  have "is_ok (validate_socket_path ''/run/b'')" by code_simp
  then show ?thesis
    by (simp add: unit_result_is_ok BackendClientConfig_validate_def example_client_config_def client_validate_timeout_def
      DEFAULT_CONNECT_TIMEOUT_def DEFAULT_REQUEST_TIMEOUT_def MAX_TIMEOUT_def MAX_EVENT_QUEUE_CAPACITY_def)
qed

lemma example_hello_id: "ho_id example_hello = 1"
  by (simp add: example_hello_def)

lemma example_requests_valid:
  "BackendRequest_validate (Hello BACKEND_PROTOCOL_VERSION 1 21 0) = Ok ()"
  "BackendRequest_validate (SubscribeJobs BACKEND_PROTOCOL_VERSION 2 0) = Ok ()"
  by (simp_all add: unit_result_is_ok BackendRequest_validate_def validate_backend_header_def require_nonzero_id_def)

lemma example_reply:
  assumes "bc_usable c" "BackendRequest_validate request = Ok ()"
    "bc_stream c = \<lparr>sk_sent = sent, sk_writes = Written # ws, sk_reads = example_frame k # rest\<rparr>"
    "example_messages [k] = Ok m" "BackendMessage_validate example_sha m = Ok ()"
    "BackendMessage_correlation_id m = Some (BackendRequest_id request)"
  shows "exchange example_sha example_api now c request operation False = (Ok (m, MonotonicAnchor now),
    c\<lparr>bc_stream := \<lparr>sk_sent = sent @ [[0, 0, 0, 1, 0]], sk_writes = ws, sk_reads = rest\<rparr>\<rparr>)"
proof -
  let ?c = "c\<lparr>bc_usable := False, bc_stream := (bc_stream c)\<lparr>sk_sent := sk_sent (bc_stream c) @ [[0, 0, 0, 1, 0]], sk_writes := ws\<rparr>\<rparr>"
  have "await_response example_sha example_api (BackendRequest_id request) operation False (MonotonicAnchor now) None ?c =
      (Ok m, set_reads ?c rest)"
    by (rule example_await [OF _ assms(4-6)]) (simp add: assms(3))
  from example_exchange [OF assms(1,2) _ _ this] assms(1,3) show ?thesis
    by (simp add: event_source_def set_reads_def)
qed

lemma example_connect: "connect example_sha example_api 0 example_client_config (Ok example_socket) 0 21 0 = Ok example_connected"
proof -
  let ?c = "(fresh_client example_socket example_client_config 0 21 0)\<lparr>bc_next_request_id := 2\<rparr>"
  let ?s = "\<lparr>sk_sent = [[0, 0, 0, 1, 0]], sk_writes = [Written, Written], sk_reads = [example_frame 2, example_frame 3, example_frame 4]\<rparr>"
  have "exchange example_sha example_api 0 ?c (Hello BACKEND_PROTOCOL_VERSION 1 21 0) ''hello'' False =
      (Ok (HelloOk BACKEND_PROTOCOL_VERSION example_hello, MonotonicAnchor 0), ?c\<lparr>bc_stream := ?s\<rparr>)"
    by (subst example_reply [where k = 1 and m = "HelloOk BACKEND_PROTOCOL_VERSION example_hello" and sent = "[]"])
      (simp_all add: example_requests_valid example_valid_messages example_messages_def fresh_client_def example_socket_def example_hello_id)
  moreover have "verify_hello (?c\<lparr>bc_stream := ?s\<rparr>) example_hello 0 = Ok ()"
    by (simp add: unit_result_is_ok verify_hello_def Let_def example_hello_def example_client_config_def)
  moreover have "?c\<lparr>bc_stream := ?s\<rparr> = (fresh_client ?s example_client_config 0 21 0)\<lparr>bc_next_request_id := 2\<rparr>"
    by (simp add: fresh_client_def)
  ultimately show ?thesis
    by (simp add: connect_def example_client_config_valid allocate_fresh hello_response_def example_connected_def)
qed

definition example_live :: backend_client where
  "example_live = enter_live (example_connected\<lparr>bc_next_request_id := 3, bc_stream :=
     \<lparr>sk_sent = [[0, 0, 0, 1, 0], [0, 0, 0, 1, 0]], sk_writes = [Written], sk_reads = [example_frame 3, example_frame 4]\<rparr>\<rparr>) 0 (MonotonicAnchor 5)"

lemma example_connected_fields:
  "bc_usable example_connected" "bc_phase example_connected = Replay" "bc_replay_cursor example_connected = 0"
  "bc_replay_complete example_connected" "bc_next_request_id example_connected = 2" "bc_observed_event_high_watermark example_connected = 0"
  "bc_stream example_connected =
     \<lparr>sk_sent = [[0, 0, 0, 1, 0]], sk_writes = [Written, Written], sk_reads = [example_frame 2, example_frame 3, example_frame 4]\<rparr>"
  "bc_queued_events example_connected = []" "bc_observed_events example_connected = []" "bc_historical_events example_connected = []"
  "bc_config example_connected = example_client_config"
  by (simp_all add: example_connected_def accept_hello_def fresh_client_def example_hello_def)

lemma example_subscribe: "snd (subscribe_jobs example_sha example_api 5 example_connected 0) = example_live"
proof -
  let ?c = "example_connected\<lparr>bc_next_request_id := 3\<rparr>"
  let ?s = "\<lparr>sk_sent = [[0, 0, 0, 1, 0], [0, 0, 0, 1, 0]], sk_writes = [Written], sk_reads = [example_frame 3, example_frame 4]\<rparr>"
  have "exchange example_sha example_api 5 ?c (SubscribeJobs BACKEND_PROTOCOL_VERSION 2 0) ''subscribe_jobs'' False =
      (Ok (JobSnapshot BACKEND_PROTOCOL_VERSION 2 0 None [], MonotonicAnchor 5), ?c\<lparr>bc_stream := ?s\<rparr>)"
    by (subst example_reply [where k = 2 and m = "JobSnapshot BACKEND_PROTOCOL_VERSION 2 0 None []" and sent = "[[0, 0, 0, 1, 0]]"])
      (simp_all add: example_requests_valid example_valid_messages example_messages_def example_connected_fields)
  then show ?thesis
    by (simp add: subscribe_jobs_def ensure_phase_def ensure_usable_def ensure_def try_all.simps allocate_request_id_eq
      example_connected_fields subscribe_response_def observe_watermark_def Let_def example_live_def)
      (simp add: example_connected_def accept_hello_def fresh_client_def example_hello_def enter_live_def)
qed

definition example_delivered :: delivered_backend_event where
  "example_delivered = \<lparr>de_event = example_event, de_anchor = MonotonicAnchor 5,
     de_connection_binding = \<lparr>cb_authority = client_authority example_live, cb_connection_token = 0, cb_snapshot_event_seq = 0\<rparr>\<rparr>"

definition example_committed :: backend_client where
  "example_committed = example_live\<lparr>bc_next_request_id := 4, bc_stream :=
     \<lparr>sk_sent = [[0, 0, 0, 1, 0], [0, 0, 0, 1, 0], [0, 0, 0, 1, 0]], sk_writes = [], sk_reads = []\<rparr>,
     bc_queued_events := [example_delivered], bc_live_event_cursor := Some 1, bc_observed_event_high_watermark := 1,
     bc_live_event_anchor_floor := Some (MonotonicAnchor 9)\<rparr>"

lemma example_live_fields:
  "bc_usable example_live" "bc_phase example_live = LiveStream" "bc_live_event_cursor example_live = Some 0"
  "bc_next_request_id example_live = 3" "bc_observed_event_high_watermark example_live = 0"
  "bc_stream example_live =
     \<lparr>sk_sent = [[0, 0, 0, 1, 0], [0, 0, 0, 1, 0]], sk_writes = [Written], sk_reads = [example_frame 3, example_frame 4]\<rparr>"
  "bc_queued_events example_live = []" "bc_observed_events example_live = []" "bc_historical_events example_live = []"
  "bc_live_event_anchor_floor example_live = Some (MonotonicAnchor 5)" "bc_config example_live = example_client_config"
  "connection_binding example_live = Some (de_connection_binding example_delivered)"
  by (simp_all add: example_live_def enter_live_def example_connected_fields connection_binding_def example_delivered_def)
    (simp_all add: client_authority_def example_connected_def accept_hello_def fresh_client_def)

lemma example_event_seq: "BackendEvent_event_seq example_event = 1"
  by (simp add: example_event_def example_receipt_def)

definition example_awaiting :: "read_outcome list \<Rightarrow> backend_client" where
  "example_awaiting reads = example_live\<lparr>bc_next_request_id := 4, bc_usable := False, bc_stream :=
     \<lparr>sk_sent = [[0, 0, 0, 1, 0], [0, 0, 0, 1, 0], [0, 0, 0, 1, 0]], sk_writes = [], sk_reads = reads\<rparr>\<rparr>"

definition example_informed :: "read_outcome list \<Rightarrow> backend_client" where
  "example_informed reads = (example_awaiting reads)\<lparr>bc_live_event_cursor := Some 1, bc_observed_event_high_watermark := 1,
     bc_queued_events := [example_delivered]\<rparr>"

lemma example_accept:
  "accept_event ''submit_share'' True (MonotonicAnchor 5) (Some (de_connection_binding example_delivered)) (example_awaiting reads)
     example_event = (Ok (), example_informed reads)"
  unfolding accept_event_def example_informed_def example_event_seq
  by (simp add: example_awaiting_def example_live_fields checked_add_1 example_client_config_def Let_def example_delivered_def)

lemma example_await_commit:
  "await_response example_sha example_api 3 ''submit_share'' True (MonotonicAnchor 5) (Some (de_connection_binding example_delivered))
     (example_awaiting [example_frame 3, example_frame 4]) =
     (Ok (ShareCommitted BACKEND_PROTOCOL_VERSION 3 example_receipt False), example_informed [])"
proof -
  have reads: "set_reads (example_awaiting r) r' = example_awaiting r'" "sk_reads (bc_stream (example_awaiting r)) = r"
      "set_reads (example_informed r) r' = example_informed r'" "sk_reads (bc_stream (example_informed r)) = r" for r r'
    by (simp_all add: set_reads_def example_awaiting_def example_informed_def)
  have "read_backend_message example_sha example_api (sk_reads (bc_stream (example_awaiting [example_frame 3, example_frame 4]))) =
      (Ok (BackendEventMessage BACKEND_PROTOCOL_VERSION example_event), [example_frame 4])"
    by (simp add: reads example_read example_messages_def example_valid_event)
  from await_response_event [OF this, unfolded reads, OF example_accept] show ?thesis
    using example_await [of "example_informed [example_frame 4]" 4 "[]" "ShareCommitted BACKEND_PROTOCOL_VERSION 3 example_receipt False" 3
      "''submit_share''" True "MonotonicAnchor 5" "Some (de_connection_binding example_delivered)"]
    by (simp add: reads example_messages_def example_valid_messages)
qed

lemma example_submit_exchange:
  assumes "BackendRequest_validate request = Ok ()" "BackendRequest_id request = 3"
  shows "exchange example_sha example_api 9 (example_live\<lparr>bc_next_request_id := 4\<rparr>) request ''submit_share'' True =
    (Ok (ShareCommitted BACKEND_PROTOCOL_VERSION 3 example_receipt False, MonotonicAnchor 9), example_committed)"
proof -
  let ?c = "example_live\<lparr>bc_next_request_id := 4\<rparr>"
  have "?c\<lparr>bc_usable := False, bc_stream := (bc_stream ?c)\<lparr>sk_sent := sk_sent (bc_stream ?c) @ [[0, 0, 0, 1, 0]], sk_writes := []\<rparr>\<rparr> =
      example_awaiting [example_frame 3, example_frame 4]"
    by (simp add: example_awaiting_def example_live_fields)
  note exchange = example_exchange [of ?c request "[]" True 9 "MonotonicAnchor 5" "Some (de_connection_binding example_delivered)"
      "''submit_share''", unfolded this assms(2), OF _ assms(1) _ _ example_await_commit]
  have "example_committed = (example_informed [])\<lparr>bc_live_event_anchor_floor := Some (MonotonicAnchor 9), bc_usable := True\<rparr>"
    unfolding example_committed_def example_informed_def example_awaiting_def
    by (simp add: example_live_def enter_live_def example_connected_def accept_hello_def fresh_client_def)
  with exchange show ?thesis by (simp add: example_live_fields event_source_def)
qed

lemma example_request_submit:
  "BackendRequest_validate (SubmitShare \<lparr>ss_version = BACKEND_PROTOCOL_VERSION, ss_id = 3, ss_job_id = replicate 32 1,
     ss_identity = sc_identity example_context, ss_target_le = sc_target_le example_context, ss_time = [1, 0, 0, 0],
     ss_nonce = n, ss_solution = so\<rparr>) = Ok ()"
  using example_identity_valid example_target_nonzero
  by (simp add: unit_result_is_ok BackendRequest_validate_def validate_backend_header_def require_nonzero_id_def)
    (simp add: FixedHex_is_zero_def)

lemma example_receipt_checked:
  "check_receipt example_committed (context_submission example_context) (replicate 32 1) (replicate 32 1) 0 example_receipt False =
     (Ok \<lparr>cm_receipt = example_receipt, cm_replayed = False\<rparr>, example_committed)"
proof -
  have ev: "live_evidence example_committed = [example_event]" "bc_historical_events example_committed = []"
      "bc_phase example_committed = LiveStream" "bc_live_event_cursor example_committed = Some 1"
    by (simp_all add: live_evidence_def example_committed_def example_delivered_def example_live_fields)
  have m: "share_event_matches example_event example_receipt (sb_identity (context_submission example_context))
      (sb_target_le (context_submission example_context))"
    by (simp add: example_event_def context_submission_def example_receipt_def)
  have s: "sb_job_id (context_submission example_context) = replicate 32 1"
    by (simp add: context_submission_def example_context_def GenerationAdmission_job_id_def example_generation_def JobId_to_protocol_def)
  have r: "recorded_share example_event = Some example_receipt" by (simp add: example_event_def)
  have "require_live_events_through example_committed ''share commit'' (sr_event_seq example_receipt) = (Ok (), example_committed)"
    by (simp add: require_live_events_through_def ev example_receipt_def)
  moreover have "require_consistent_share_history example_committed example_receipt (sb_identity (context_submission example_context))
      (sb_target_le (context_submission example_context)) = (Ok (), example_committed)"
    by (simp add: require_consistent_share_history_def ev m r Let_def)
  moreover have "require_matching_share_event example_committed example_receipt (sb_identity (context_submission example_context))
      (sb_target_le (context_submission example_context)) 0 False = (Ok (), example_committed)"
    using m by (simp add: require_matching_share_event_def ev example_event_seq [unfolded example_receipt_def])
      (simp add: example_receipt_def)
  ultimately show ?thesis
    by (simp add: check_receipt_def try_all.simps ensure_def s)
      (simp add: example_receipt_def)
qed

lemma example_submit:
  "client_submit_share example_sha example_api 9 example_live (context_submission example_context) =
     (Ok \<lparr>cm_receipt = example_receipt, cm_replayed = False\<rparr>, example_committed)"
proof -
  have job: "JobId_to_protocol (GenerationAdmission_job_id (sc_admission example_context)) = replicate 32 1"
    by (simp add: example_context_def GenerationAdmission_job_id_def example_generation_def JobId_to_protocol_def)
  have time: "sc_time example_context = [1, 0, 0, 0]" by (simp add: example_context_def)
  have ids: "canonical_share_id example_sha j t n so = replicate 32 1" for j t n so
    by (simp add: canonical_share_id_def example_sha_def)
  have "submit_live example_sha example_api 9 example_live (context_submission example_context) 0 (replicate 32 1) =
      (Ok \<lparr>cm_receipt = example_receipt, cm_replayed = False\<rparr>, example_committed)"
    using example_receipt_checked
    by (simp add: submit_live_def allocate_request_id_eq example_live_fields context_submission_def job time
      example_submit_exchange example_request_submit submit_response_def ids)
  then show ?thesis
    by (simp add: client_submit_share_def ensure_phase_def ensure_usable_def ensure_def example_live_fields
      context_submission_def example_attribution)
qed

lemma example_receipt_for_job: "ShareReceipt_validate_for_job example_receipt example_descriptor = Ok ()"
proof -
  have "is_ok (JobDescriptor_validate example_descriptor)"
    using example_from_descriptor by (simp add: BackendGeneration_from_descriptor_def unit_result_is_ok)
  then show ?thesis
    by (simp add: unit_result_is_ok ShareReceipt_validate_for_job_def ShareReceipt_validate_def example_receipt_def)
      (simp add: example_descriptor_def)
qed

lemma example_prepared_submit:
  "submit_prepared_share_borrowed example_sha example_api 9 example_live example_context =
     (Ok \<lparr>cm_receipt = example_receipt, cm_replayed = False\<rparr>, example_committed)"
proof -
  have "validate_receipt_for_job example_committed example_receipt example_descriptor (replicate 32 1) False b False = (Ok (), example_committed)"
    for b
    using example_receipt_for_job by (simp add: validate_receipt_for_job_def try_all.simps ensure_def) (simp add: example_receipt_def)
  moreover have "canonical_parent_header_hash_le example_sha h n so = replicate 32 1" for h n so
    by (simp add: canonical_parent_header_hash_le_def example_sha_def)
  moreover have "bg_descriptor (ga_generation (sc_admission example_context)) = example_descriptor"
      "GenerationAdmission_is_winner_recovery (sc_admission example_context) = False"
    by (simp_all add: example_context_def example_generation_def GenerationAdmission_is_winner_recovery_def)
  ultimately show ?thesis by (simp add: submit_prepared_share_borrowed_def example_submit)
qed

abbreviation example_run :: "backend_client \<Rightarrow> client_run" where
  "example_run c \<equiv> \<lparr>cr_client = c, cr_from = 0, cr_replayed = [], cr_handed = []\<rparr>"

lemma example_client_reach:
  "reach (client_start example_sha example_api) (client_step example_sha example_api) (example_run example_committed)"
proof -
  have "client_start example_sha example_api (example_run example_connected)"
    unfolding client_start_def using example_connect by (simp, blast)
  then have "reach (client_start example_sha example_api) (client_step example_sha example_api) (example_run example_connected)"
    by (rule reach.intros)
  moreover have "client_step example_sha example_api (example_run example_connected) (example_run example_live)"
    using step_subscribe [of example_sha example_api 5 "example_run example_connected" 0 _ example_live] example_subscribe
    by (cases "subscribe_jobs example_sha example_api 5 example_connected 0") simp
  moreover have "client_step example_sha example_api (example_run example_live) (example_run example_committed)"
    using step_prepared [of example_sha example_api 9 "example_run example_live" example_context _ example_committed] example_prepared_submit
    by simp
  ultimately show ?thesis by (meson reach.intros)
qed

lemma example_pop:
  "client_step example_sha example_api (example_run example_committed)
     ((example_run (snd (pop_queued_event example_committed)))\<lparr>cr_handed := [example_delivered]\<rparr>)"
proof -
  have "pop_queued_event example_committed = (Some example_delivered, snd (pop_queued_event example_committed))"
    by (simp add: pop_queued_event_def example_committed_def)
  from step_pop [of "example_run example_committed", simplified, OF this] show ?thesis by simp
qed

section \<open>Properties\<close>

text \<open>C11 On every connection the replayed pages and then the live events are consecutive journal sequences without gap
  or repetition: what was handed out followed by what is queued runs exactly from the snapshot to the cursor, every live
  event carries the binding of this connection, replay ends no later than the snapshot, and the cursor never passes the
  observed watermark.\<close>

theorem backend_events_exactly_once:
  assumes "reach (client_start sha256 api) (client_step sha256 api) r"
  shows "map (unat \<circ> BackendEvent_event_seq) (cr_replayed r) =
      [Suc (unat (cr_from r)) ..< Suc (unat (bc_replay_cursor (cr_client r)))] \<and>
    (case bc_phase (cr_client r) of
       Replay \<Rightarrow> cr_handed r @ bc_queued_events (cr_client r) = []
     | LiveStream \<Rightarrow> (\<exists>snap cur. bc_subscribed_snapshot_event_seq (cr_client r) = Some snap \<and>
         bc_live_event_cursor (cr_client r) = Some cur \<and>
         bc_replay_cursor (cr_client r) \<le> snap \<and> cur \<le> bc_observed_event_high_watermark (cr_client r) \<and>
         map event_no (cr_handed r @ bc_queued_events (cr_client r)) = [Suc (unat snap) ..< Suc (unat cur)] \<and>
         (\<forall>d \<in> set (cr_handed r @ bc_queued_events (cr_client r)).
            is_bound_to (cr_client r) (de_connection_binding d))))"
proof -
  have wf: "client_wf r" using assms by (rule client.reach_inv)
  have "is_bound_to (cr_client r) b" if "Some b = connection_binding (cr_client r)" for b
    using that by (cases "bc_subscribed_snapshot_event_seq (cr_client r)") (auto simp: connection_binding_def is_bound_to_def split: if_splits)
  with wf show ?thesis
    by (cases "bc_phase (cr_client r)") (fastforce simp: client_wf_defs)+
qed

theorem backend_events_exactly_once_witness:
  "bc_phase example_committed = LiveStream \<and> map event_no (bc_queued_events example_committed) = [1]"
  using backend_events_exactly_once [OF example_client_reach]
  by (simp add: example_committed_def example_live_fields example_delivered_def event_no_def example_event_seq)

text \<open>A connection takes nothing back: whatever operations follow, its watermark, replay cursor, live cursor and
  request numbers never decrease, a binding once issued stays, the expected identities stay, every event handed out
  before is a prefix of what is handed out later, and a connection that became unusable stays unusable.\<close>

lemma backend_connection_monotone:
  assumes "reach (client_start sha256 api) (client_step sha256 api) r" "(client_step sha256 api)\<^sup>*\<^sup>* r r'"
  shows "(bc_usable (cr_client r') \<longrightarrow> bc_usable (cr_client r)) \<and>
    bc_next_request_id (cr_client r) \<le> bc_next_request_id (cr_client r') \<and>
    bc_observed_event_high_watermark (cr_client r) \<le> bc_observed_event_high_watermark (cr_client r') \<and>
    bc_replay_cursor (cr_client r) \<le> bc_replay_cursor (cr_client r') \<and>
    (\<forall>b. connection_binding (cr_client r) = Some b \<longrightarrow> connection_binding (cr_client r') = Some b) \<and>
    client_authority (cr_client r') = client_authority (cr_client r) \<and>
    prefix (cr_replayed r) (cr_replayed r') \<and> prefix (cr_handed r) (cr_handed r')"
proof -
  have "client_le r r'" using assms client.reach_inv client.steps_le by blast
  then show ?thesis by (auto simp: client_le_def Let_def client_authority_def)
qed

lemma commit_receipt:
  assumes "client_submit_share sha256 api now c s = (Ok commit, d)"
  shows "\<exists>before attribution_id. bc_phase c = LiveStream \<and> bc_live_event_cursor c = Some before \<and>
    canonical_attribution_id sha256 (sb_identity s) (sb_target_le s) = Ok attribution_id \<and>
    receipt_verified d s (canonical_share_id sha256 (sb_job_id s) (sb_time s) (sb_nonce s) (sb_solution s))
      attribution_id before (cm_receipt commit) (cm_replayed commit) \<and> bc_usable d"
proof -
  have "client_submit_share sha256 api now (cr_client (example_run c)) s = (Ok commit, d)" using assms by simp
  then obtain before attribution_id c2 message where live: "bc_phase c = LiveStream" "bc_live_event_cursor c = Some before"
      "canonical_attribution_id sha256 (sb_identity s) (sb_target_le s) = Ok attribution_id" "bc_usable c2"
    and r: "submit_response c2 s (canonical_share_id sha256 (sb_job_id s) (sb_time s) (sb_nonce s) (sb_solution s))
         attribution_id before message = (Ok commit, d)"
    by (rule client_submit_share_cases) auto
  from submit_response_cases [OF r] live show ?thesis by auto
qed

text \<open>C12 A share commit is returned only with proof: the receipt names the submitted job, the canonical identifier of the
  submitted proof and of its attribution, and the hash of the exact submitted header; a fresh commit is a new journal
  sequence; the same receipt with the submitted worker and target was received as a live event of this connection no later
  than the cursor; no retained event contradicts it; and the receipt fits the job the share was admitted to.\<close>

theorem share_commit_verified:
  assumes "submit_prepared_share_borrowed sha256 api now c ctx = (Ok commit, d)"
  shows "\<exists>before attribution_id. bc_phase c = LiveStream \<and> bc_live_event_cursor c = Some before \<and>
    canonical_attribution_id sha256 (sc_identity ctx) (sc_target_le ctx) = Ok attribution_id \<and>
    receipt_verified d (context_submission ctx)
      (canonical_share_id sha256 (JobId_to_protocol (GenerationAdmission_job_id (sc_admission ctx))) (sc_time ctx) (sc_nonce ctx) (sc_solution ctx))
      attribution_id before (cm_receipt commit) (cm_replayed commit) \<and> bc_usable d \<and>
    ShareReceipt_validate_for_job (cm_receipt commit) (bg_descriptor (ga_generation (sc_admission ctx))) = Ok () \<and>
    sr_parent_hash_le (cm_receipt commit) = canonical_parent_header_hash_le sha256
      (jd_header_input (bg_descriptor (ga_generation (sc_admission ctx)))) (sc_nonce ctx) (sc_solution ctx)"
proof -
  obtain x' c' where s: "client_submit_share sha256 api now c (context_submission ctx) = (x', c')" and x: "x' = Ok commit" "d = c'"
    and v: "ShareReceipt_validate_for_job (cm_receipt commit) (bg_descriptor (ga_generation (sc_admission ctx))) = Ok ()"
      "sr_parent_hash_le (cm_receipt commit) = canonical_parent_header_hash_le sha256
        (jd_header_input (bg_descriptor (ga_generation (sc_admission ctx)))) (sc_nonce ctx) (sc_solution ctx)"
    using assms by (rule submit_prepared_cases) auto
  from commit_receipt [OF s [unfolded x(1)]] v x(2) show ?thesis by (auto simp: context_submission_def)
qed

theorem share_commit_verified_witness:
  "sr_event_seq example_receipt = 1 \<and> bc_live_event_cursor example_live = Some 0 \<and>
   evidenced example_committed example_receipt (sc_identity example_context) (sc_target_le example_context)"
  using share_commit_verified [OF example_prepared_submit]
  by (auto simp: receipt_verified_def context_submission_def example_live_fields example_receipt_def)

text \<open>C40 A failed exchange closes the connection for good: unless nothing was attempted, an exchange that did not end with
  its correlated response leaves the connection unusable, and on an unusable connection every operation is refused
  without touching the socket or any other part of its state.\<close>

theorem failed_exchange_closes:
  assumes "exchange sha256 api now c request operation allow = (Err e, d)" "d \<noteq> c"
  shows "\<not> bc_usable d \<and> read_events sha256 api t d n limit = (Err ConnectionUnusable, d) \<and>
    subscribe_jobs sha256 api t d n = (Err ConnectionUnusable, d) \<and> health sha256 api t d = (Err ConnectionUnusable, d) \<and>
    client_submit_share sha256 api t d s = (Err ConnectionUnusable, d) \<and>
    submit_prepared_share_borrowed sha256 api t d ctx = (Err ConnectionUnusable, d) \<and>
    exchange sha256 api t d request' operation' allow' = (Err ConnectionUnusable, d)"
proof -
  have u: "\<not> bc_usable d"
    using exchange_exchanged [OF assms(1)] assms(2) unfolding exchanged_def by auto
  then show ?thesis
    by (simp add: read_events_def subscribe_jobs_def health_def client_submit_share_def submit_prepared_share_borrowed_def
      exchange_def ensure_phase_def ensure_usable_def ensure_def try_all.simps allocate_request_id_eq Let_def)
qed

lemma example_committed_fields:
  "connection_binding example_committed = Some (de_connection_binding example_delivered)" "bc_usable example_committed"
  "bc_live_event_anchor_floor example_committed = Some (MonotonicAnchor 9)" "sk_writes (bc_stream example_committed) = []"
  by (simp_all add: example_committed_def example_live_fields)

lemma example_stalled:
  "exchange example_sha example_api 9 example_committed (Health BACKEND_PROTOCOL_VERSION 4) ''health'' True =
     (Err (ClientTimeout ''health''), example_committed\<lparr>bc_usable := False\<rparr>)"
proof -
  have "BackendRequest_validate (Health BACKEND_PROTOCOL_VERSION 4) = Ok ()"
    by (simp add: unit_result_is_ok BackendRequest_validate_def validate_backend_header_def require_nonzero_id_def)
  moreover have "example_committed\<lparr>bc_usable := False, bc_stream := bc_stream example_committed\<rparr> = example_committed\<lparr>bc_usable := False\<rparr>"
    by simp
  ultimately show ?thesis
    by (simp add: exchange_def ensure_usable_def ensure_def example_encode event_source_def write_all_def Let_def example_committed_fields)
qed

theorem failed_exchange_closes_witness:
  "\<not> bc_usable (snd (exchange example_sha example_api 9 example_committed (Health BACKEND_PROTOCOL_VERSION 4) ''health'' True))"
proof -
  have "example_committed\<lparr>bc_usable := False\<rparr> \<noteq> example_committed"
  proof
    assume "example_committed\<lparr>bc_usable := False\<rparr> = example_committed"
    from arg_cong [OF this, of bc_usable] show False by (simp add: example_committed_fields(2))
  qed
  from failed_exchange_closes [OF example_stalled this] show ?thesis
    unfolding example_stalled snd_conv by blast
qed

end
