(* ===== verification/Router_Properties.thy ===== *)
theory Router_Properties
  imports Job_Router Client_Properties
begin

text \<open>
  The job router as a state machine over its critical sections, whose registry part is a run of the registry machine,
  and the properties of the router: what it broadcasts, and when it stops admitting.
\<close>

abbreviation jr_registry :: "job_router \<Rightarrow> generation_registry" where
  "jr_registry jr \<equiv> rs_registry (jr_state jr)"

section \<open>Only a snapshot opens the registry\<close>

lemma advance_clock_sync:
  "advance_clock r now = (x, r') \<Longrightarrow> gr_synchronized r' \<longleftrightarrow> gr_synchronized r \<and> x = Ok ()"
  by (cases x) (auto simp: advance_clock_Ok advance_clock_Err)

lemma prune_sync [simp]: "gr_synchronized (prune_winner_recovery r now) = gr_synchronized r"
  by (simp add: prune_winner_recovery_def)

lemma drop_admission_sync [simp]: "gr_synchronized (drop_admission r a) = gr_synchronized r"
  by (simp add: drop_admission_def)

lemma query_sync:
  assumes "GenerationRegistry_admissible_job_ids r now = (x, r') \<or> current_generation r now = (y, r') \<or>
    winner_recovery_job_ids r now = (z, r')"
  shows "gr_synchronized r' \<Longrightarrow> gr_synchronized r"
  using query_cases [OF assms] by (auto simp: advance_clock_sync)

lemmas admissible_sync = query_sync [OF disjI1]
  and current_sync = query_sync [OF disjI2 [OF disjI1]]
  and recovery_sync = query_sync [OF disjI2 [OF disjI2]]

lemma begin_admission_sync:
  assumes "begin_admission r i now = (x, r')"
  shows "gr_synchronized r' \<or> is_ok x \<Longrightarrow> gr_synchronized r"
  using assms by (auto simp: begin_admission_def advance_clock_sync split: prod.splits result.splits if_splits option.splits generation_storage.splits)

lemma candidate_sync:
  assumes "begin_zcash_candidate h r i nonce solution now role allow = (x, r')"
  shows "gr_synchronized r' \<or> is_ok x \<Longrightarrow> gr_synchronized r"
  using assms by (cases x) (auto simp: begin_zcash_candidate_Ok candidate_ok_def advance_clock_sync dest!: begin_zcash_candidate_Err)

lemma obtain_admission_sync:
  assumes "obtain_admission h i a time nonce solution r now paused = (x, r')"
  shows "gr_synchronized r' \<or> is_ok x \<Longrightarrow> gr_synchronized r"
  using assms
  by (auto simp: obtain_admission_def candidate_defs split: if_splits prod.splits result.splits job_registry_error.splits
      dest!: begin_admission_sync candidate_sync)

lemma prepare_submission_sync:
  assumes "prepare_submission_mode h s login i time sfx solution r now paused = (x, r')"
  shows "gr_synchronized r' \<or> is_ok x \<Longrightarrow> gr_synchronized r"
  using assms
  by (auto simp: prepare_submission_mode_def split: prod.splits result.splits dest!: obtain_admission_sync)

lemma candidate_run_of:
  "begin_paused_zcash_candidate h r i nonce solution now = (x, r') \<Longrightarrow>
     (registry_step h)\<^sup>*\<^sup>* (r, gs) (r', (case x of Ok a \<Rightarrow> a # gs | Err _ \<Rightarrow> gs))"
  "begin_historical_zcash_candidate_during_pause h r i nonce solution now = (x, r') \<Longrightarrow>
     (registry_step h)\<^sup>*\<^sup>* (r, gs) (r', (case x of Ok a \<Rightarrow> a # gs | Err _ \<Rightarrow> gs))"
  "begin_zcash_winner_recovery h r i nonce solution now = (x, r') \<Longrightarrow>
     (registry_step h)\<^sup>*\<^sup>* (r, gs) (r', (case x of Ok a \<Rightarrow> a # gs | Err _ \<Rightarrow> gs))"
  by (auto simp: candidate_defs intro: candidate_run)

text \<open>Refiltering trades the old guard for a new one or drops it.\<close>

abbreviation exchanged_guard ::
  "generation_admission \<Rightarrow> ('e, submission_context) result \<Rightarrow> generation_admission list \<Rightarrow> generation_admission list" where
  "exchanged_guard old x gs \<equiv> remove1 old (case x of Ok c \<Rightarrow> sc_admission c # gs | Err _ \<Rightarrow> gs)"

lemma refilter_requests:
  assumes "refilter_zcash_candidate h c r now recovery_only = (x, r')"
  obtains y r1 where "(registry_step h)\<^sup>*\<^sup>* (r, gs) (r1, (case y of Ok a \<Rightarrow> a # gs | Err _ \<Rightarrow> gs))"
    "gr_synchronized r1 \<or> is_ok y \<Longrightarrow> gr_synchronized r"
    "(case y of Err e \<Rightarrow> (Err (SessionRegistry e), drop_admission r1 (sc_admission c))
      | Ok a \<Rightarrow> if bg_descriptor (ga_generation a) \<noteq> bg_descriptor (ga_generation (sc_admission c))
          then (Err (RegistryAssignmentMismatch (GenerationAdmission_job_id (sc_admission c))),
                drop_admission (drop_admission r1 a) (sc_admission c))
          else (Ok (c\<lparr>sc_admission := a\<rparr>), drop_admission r1 (sc_admission c))) = (x, r')"
proof -
  let ?i = "GenerationAdmission_job_id (sc_admission c)"
  define candidate where "candidate =
    (if GenerationAdmission_is_paused_zcash_candidate (sc_admission c) \<or>
        (\<not> GenerationAdmission_is_winner_recovery (sc_admission c) \<and> recovery_only)
     then begin_paused_zcash_candidate h r ?i (sc_nonce c) (sc_solution c) now
     else if recovery_only
     then begin_historical_zcash_candidate_during_pause h r ?i (sc_nonce c) (sc_solution c) now
     else begin_zcash_winner_recovery h r ?i (sc_nonce c) (sc_solution c) now)"
  obtain y r1 where y: "candidate = (y, r1)" by (cases candidate)
  show thesis
  proof (rule that)
    show "(registry_step h)\<^sup>*\<^sup>* (r, gs) (r1, (case y of Ok a \<Rightarrow> a # gs | Err _ \<Rightarrow> gs))"
      using y unfolding candidate_def by (auto split: if_splits intro: candidate_run_of)
    show "gr_synchronized r1 \<or> is_ok y \<Longrightarrow> gr_synchronized r"
      using y unfolding candidate_def by (auto simp: candidate_defs split: if_splits dest!: candidate_sync)
  qed (use assms y in \<open>simp add: refilter_zcash_candidate_def Let_def candidate_def [symmetric]\<close>)
qed

lemma refilter_sync:
  assumes "refilter_zcash_candidate h c r now recovery_only = (x, r')"
  shows "gr_synchronized r' \<Longrightarrow> gr_synchronized r"
  using assms
  by (rule refilter_requests) (auto split: result.splits if_splits)

lemma refilter_run:
  assumes "refilter_zcash_candidate h c r now recovery_only = (x, r')" "sc_admission c \<in> set gs"
  shows "(registry_step h)\<^sup>*\<^sup>* (r, gs) (r', exchanged_guard (sc_admission c) x gs)"
  using assms(1)
proof (rule refilter_requests [where gs = gs])
  let ?old = "sc_admission c"
  fix y :: "(job_registry_error, generation_admission) result" and r1
  assume run: "(registry_step h)\<^sup>*\<^sup>* (r, gs) (r1, (case y of Ok a \<Rightarrow> a # gs | Err _ \<Rightarrow> gs))"
  assume eq: "(case y of Err e \<Rightarrow> (Err (SessionRegistry e), drop_admission r1 ?old)
      | Ok a \<Rightarrow> if bg_descriptor (ga_generation a) \<noteq> bg_descriptor (ga_generation ?old)
          then (Err (RegistryAssignmentMismatch (GenerationAdmission_job_id ?old)), drop_admission (drop_admission r1 a) ?old)
          else (Ok (c\<lparr>sc_admission := a\<rparr>), drop_admission r1 ?old)) = (x, r')"
  show ?thesis
  proof (cases y)
    case (Err e)
    with run drop_run [OF assms(2), of h r1] have "(registry_step h)\<^sup>*\<^sup>* (r, gs) (drop_admission r1 ?old, remove1 ?old gs)" by auto
    with eq Err show ?thesis by auto
  next
    case (Ok a)
    with run have granted: "(registry_step h)\<^sup>*\<^sup>* (r, gs) (r1, a # gs)" by simp
    have returned: "(registry_step h)\<^sup>*\<^sup>* (r1, a # gs) (drop_admission r1 a, gs)" using drop_run [of a "a # gs" h r1] by simp
    have refused: "(registry_step h)\<^sup>*\<^sup>* (r, gs) (drop_admission (drop_admission r1 a) ?old, remove1 ?old gs)"
      by (rule rtranclp_trans [OF rtranclp_trans [OF granted returned] drop_run [OF assms(2)]])
    have "(registry_step h)\<^sup>*\<^sup>* (r1, a # gs) (drop_admission r1 ?old, remove1 ?old (a # gs))"
      using assms(2) by (intro drop_run) simp
    with granted have "(registry_step h)\<^sup>*\<^sup>* (r, gs) (drop_admission r1 ?old, remove1 ?old (a # gs))" by (rule rtranclp_trans)
    with refused eq Ok show ?thesis by (auto simp del: remove1.simps split: if_splits)
  qed
qed

section \<open>The state machine\<close>

type_synonym router_machine = "job_router \<times> generation_admission list"

text \<open>One critical section of the router with the guards it hands out and takes back, the drop of a guard elsewhere, or
  a panic under the lock. An event that fails ends its section and calls \<open>suspend\<close>, which is a section of its own.\<close>

inductive router_step :: "(bytes \<Rightarrow> bytes) \<Rightarrow> router_machine \<Rightarrow> router_machine \<Rightarrow> bool" for h where
  suspend: "JobRouter_suspend jr = (x, jr') \<Longrightarrow> router_step h (jr, gs) (jr', gs)"
| suspend_bound: "suspend_if_bound jr b = (y, jr') \<Longrightarrow> router_step h (jr, gs) (jr', gs)"
| event: "apply_event_locked h now jr b d = (z, jr') \<Longrightarrow> router_step h (jr, gs) (jr', gs)"
| recover: "recover_from_snapshot jr snapshot = (x, jr') \<Longrightarrow> router_step h (jr, gs) (jr', gs)"
| pause: "pause_for_health now jr client = (x, jr') \<Longrightarrow> router_step h (jr, gs) (jr', gs)"
| resume: "resume_after_health now jr client = (x, jr') \<Longrightarrow> router_step h (jr, gs) (jr', gs)"
| allow: "allow_recovery_only_after_health now jr client = (x, jr') \<Longrightarrow> router_step h (jr, gs) (jr', gs)"
| queued: "prepare_queued_paused_candidate h now jr ctx client = (c, jr') \<Longrightarrow> sc_admission ctx \<in> set gs \<Longrightarrow>
    router_step h (jr, gs) (jr', exchanged_guard (sc_admission ctx) c gs)"
| current: "JobRouter_current_generation now jr = (g, jr') \<Longrightarrow> router_step h (jr, gs) (jr', gs)"
| admissible: "JobRouter_admissible_job_ids now jr = (ids, jr') \<Longrightarrow> router_step h (jr, gs) (jr', gs)"
| retained: "retained_job_ids now jr = (ids, jr') \<Longrightarrow> router_step h (jr, gs) (jr', gs)"
| recovery: "JobRouter_winner_recovery_job_ids now jr = (ids, jr') \<Longrightarrow> router_step h (jr, gs) (jr', gs)"
| submit: "JobRouter_prepare_submission h now jr session login i time sfx solution = (c, jr') \<Longrightarrow>
    router_step h (jr, gs) (jr', (case c of Ok ctx \<Rightarrow> sc_admission ctx # gs | Err _ \<Rightarrow> gs))"
| drop: "g \<in> set gs \<Longrightarrow>
    router_step h (jr, gs) (jr\<lparr>jr_state := (jr_state jr)\<lparr>rs_registry := drop_admission (jr_registry jr) g\<rparr>\<rparr>, remove1 g gs)"
| poison: "router_step h (jr, gs) (jr\<lparr>jr_poisoned := True\<rparr>, gs)"

definition router_start :: "router_machine \<Rightarrow> bool" where
  "router_start m \<longleftrightarrow> (\<exists>a b c snapshot timeline n. GenerationRegistryConfig_new a b = Ok c \<and>
     JobRouter_from_snapshot snapshot c timeline n = Ok (fst m) \<and> snd m = [])"

text \<open>A section that only queries the registry, or hands out guards.\<close>

definition quiet :: "job_router \<Rightarrow> job_router \<Rightarrow> bool" where
  "quiet jr jr' \<longleftrightarrow> jr' = jr\<lparr>jr_state := (jr_state jr)\<lparr>rs_registry := jr_registry jr'\<rparr>\<rparr> \<and>
     (gr_synchronized (jr_registry jr') \<longrightarrow> gr_synchronized (jr_registry jr))"

lemma quiet_refl [simp]: "quiet jr jr"
  by (simp add: quiet_def)

lemma quiet_registry: "(gr_synchronized r \<Longrightarrow> gr_synchronized (jr_registry jr)) \<Longrightarrow>
    quiet jr (jr\<lparr>jr_state := (jr_state jr)\<lparr>rs_registry := r\<rparr>\<rparr>)"
  by (simp add: quiet_def)

lemma locked_registry_cases:
  assumes "locked_registry now jr f = (x, jr')"
  shows "(jr' = jr \<and> \<not> is_ok x) \<or>
    (\<exists>t r. f t (jr_registry jr) = (x, r) \<and> jr' = jr\<lparr>jr_state := (jr_state jr)\<lparr>rs_registry := r\<rparr>\<rparr>)"
  using assms by (auto simp: locked_registry_def split: result.splits prod.splits)

lemma locked_run:
  assumes "locked_registry now jr f = (x, jr')"
    and "\<And>t y r. f t (jr_registry jr) = (y, r) \<Longrightarrow> (registry_step h)\<^sup>*\<^sup>* (jr_registry jr, gs) (r, gs) \<and>
      (gr_synchronized r \<longrightarrow> gr_synchronized (jr_registry jr))"
  shows "quiet jr jr' \<and> (registry_step h)\<^sup>*\<^sup>* (jr_registry jr, gs) (jr_registry jr', gs)"
  using locked_registry_cases [OF assms(1)] assms(2) by (auto intro!: quiet_registry)

lemma registry_query:
  "from_registry (GenerationRegistry_admissible_job_ids r t) = (x, r') \<Longrightarrow>
     (registry_step h)\<^sup>*\<^sup>* (r, gs) (r', gs) \<and> (gr_synchronized r' \<longrightarrow> gr_synchronized r)"
  "from_registry (current_generation r t) = (y, r') \<Longrightarrow>
     (registry_step h)\<^sup>*\<^sup>* (r, gs) (r', gs) \<and> (gr_synchronized r' \<longrightarrow> gr_synchronized r)"
  "from_registry (winner_recovery_job_ids r t) = (z, r') \<Longrightarrow>
     (registry_step h)\<^sup>*\<^sup>* (r, gs) (r', gs) \<and> (gr_synchronized r' \<longrightarrow> gr_synchronized r)"
  by (auto split: prod.splits dest: admissible_sync current_sync recovery_sync
      intro!: step_run intro: registry_step.admissible registry_step.current registry_step.recovery)


abbreviation registry_run :: "(bytes \<Rightarrow> bytes) \<Rightarrow> router_machine \<Rightarrow> router_machine \<Rightarrow> bool" where
  "registry_run h m m' \<equiv> (registry_step h)\<^sup>*\<^sup>* (jr_registry (fst m), snd m) (jr_registry (fst m'), snd m')"

lemma locked_query:
  "locked_registry now jr (\<lambda>t r. from_registry (GenerationRegistry_admissible_job_ids r t)) = (x, jr') \<Longrightarrow>
     quiet jr jr' \<and> registry_run h (jr, gs) (jr', gs)"
  "locked_registry now jr (\<lambda>t r. from_registry (current_generation r t)) = (y, jr') \<Longrightarrow>
     quiet jr jr' \<and> registry_run h (jr, gs) (jr', gs)"
  "locked_registry now jr (\<lambda>t r. from_registry (winner_recovery_job_ids r t)) = (z, jr') \<Longrightarrow>
     quiet jr jr' \<and> registry_run h (jr, gs) (jr', gs)"
  unfolding fst_conv snd_conv
  by (erule locked_run, erule registry_query(1)) (erule locked_run, erule registry_query(2), erule locked_run, erule registry_query(3))

lemma query_quiet:
  "JobRouter_current_generation now jr = (g, jr') \<Longrightarrow> quiet jr jr' \<and> registry_run h (jr, gs) (jr', gs)"
  "JobRouter_admissible_job_ids now jr = (ids, jr') \<Longrightarrow> quiet jr jr' \<and> registry_run h (jr, gs) (jr', gs)"
  "retained_job_ids now jr = (ids, jr') \<Longrightarrow> quiet jr jr' \<and> registry_run h (jr, gs) (jr', gs)"
  "JobRouter_winner_recovery_job_ids now jr = (ids, jr') \<Longrightarrow> quiet jr jr' \<and> registry_run h (jr, gs) (jr', gs)"
proof -
  show "quiet jr jr' \<and> registry_run h (jr, gs) (jr', gs)" if "JobRouter_current_generation now jr = (g, jr')"
    using that locked_query(2) [of now jr _ _ h gs]
    by (cases "locked_registry now jr (\<lambda>t r. from_registry (current_generation r t))")
      (simp add: JobRouter_current_generation_def split: if_splits)
  show "quiet jr jr' \<and> registry_run h (jr, gs) (jr', gs)" if "JobRouter_admissible_job_ids now jr = (ids, jr')"
    using that locked_query(1) [of now jr _ _ h gs]
    by (cases "locked_registry now jr (\<lambda>t r. from_registry (GenerationRegistry_admissible_job_ids r t))")
      (simp add: JobRouter_admissible_job_ids_def split: if_splits)
  show "quiet jr jr' \<and> registry_run h (jr, gs) (jr', gs)" if "retained_job_ids now jr = (ids, jr')"
    using that locked_query(1) [of now jr _ _ h gs]
    by (cases "locked_registry now jr (\<lambda>t r. from_registry (GenerationRegistry_admissible_job_ids r t))")
      (simp add: retained_job_ids_def split: if_splits)
  show "quiet jr jr' \<and> registry_run h (jr, gs) (jr', gs)" if "JobRouter_winner_recovery_job_ids now jr = (ids, jr')"
    using that locked_query(3) [of now jr _ _ h gs] by (simp add: JobRouter_winner_recovery_job_ids_def split: if_splits)
qed

lemma drop_context_quiet:
  assumes "sc_admission ctx \<in> set gs"
  shows "quiet jr (drop_context ctx jr) \<and> registry_run h (jr, gs) (drop_context ctx jr, remove1 (sc_admission ctx) gs)"
  using drop_run [OF assms, of h "jr_registry jr"] by (auto simp: drop_context_def intro: quiet_registry)

lemma queued_quiet:
  assumes "prepare_queued_paused_candidate h now jr ctx client = (x, jr')" "sc_admission ctx \<in> set gs"
  shows "quiet jr jr' \<and> registry_run h (jr, gs) (jr', exchanged_guard (sc_admission ctx) x gs)"
proof (cases "\<not> is_ok x \<and> jr' = drop_context ctx jr")
  case True
  with drop_context_quiet [OF assms(2), of jr h] show ?thesis by (cases x) auto
next
  case False
  with assms(1) obtain y r t where r: "refilter_zcash_candidate h ctx (jr_registry jr) t
        (rs_health_paused (jr_state jr) \<and> rs_recovery_only (jr_state jr)) = (y, r)"
      and x: "x = map_err RouterSession y" "jr' = jr\<lparr>jr_state := (jr_state jr)\<lparr>rs_registry := r\<rparr>\<rparr>"
    by (auto simp: prepare_queued_paused_candidate_def Let_def split: if_splits result.splits prod.splits)
  have "exchanged_guard (sc_admission ctx) x gs = exchanged_guard (sc_admission ctx) y gs" unfolding x by (cases y) auto
  then show ?thesis using refilter_run [OF r assms(2)] refilter_sync [OF r] by (simp add: x quiet_registry del: remove1.simps)
qed

lemma submit_cases:
  assumes "JobRouter_prepare_submission h now jr s login i time sfx solution = (x, jr')"
  shows "(\<not> is_ok x \<and> (jr' = jr \<or>
       (\<exists>t y r. GenerationRegistry_admissible_job_ids (jr_registry jr) t = (y, r) \<and>
          jr' = jr\<lparr>jr_state := (jr_state jr)\<lparr>rs_registry := r\<rparr>\<rparr>))) \<or>
    (\<exists>t y r0 z r. \<not> jr_poisoned jr \<and> timeline_now_ms (jr_timeline jr) now = Ok t \<and>
       (if rs_health_paused (jr_state jr)
        then rs_recovery_only (jr_state jr) \<and> GenerationRegistry_admissible_job_ids (jr_registry jr) t = (y, r0)
        else r0 = jr_registry jr) \<and>
       prepare_submission_mode h s login i time sfx solution r0 t (rs_health_paused (jr_state jr)) = (z, r) \<and>
       x = map_err RouterSession z \<and> jr' = jr\<lparr>jr_state := (jr_state jr)\<lparr>rs_registry := r\<rparr>\<rparr>)"
  using assms unfolding JobRouter_prepare_submission_def locked_registry_def
    prepare_submission_def prepare_paused_zcash_candidate_def
  by (auto split: if_splits result.splits prod.splits) blast

lemma submit_quiet:
  assumes "JobRouter_prepare_submission h now jr s login i time sfx solution = (x, jr')"
  shows "quiet jr jr' \<and> registry_run h (jr, gs) (jr', (case x of Ok c \<Rightarrow> sc_admission c # gs | Err _ \<Rightarrow> gs))"
  using submit_cases [OF assms]
proof (elim disjE conjE exE)
  assume "\<not> is_ok x" "jr' = jr"
  then show ?thesis by (cases x) auto
next
  fix t y r
  assume "\<not> is_ok x" and y: "GenerationRegistry_admissible_job_ids (jr_registry jr) t = (y, r)"
    "jr' = jr\<lparr>jr_state := (jr_state jr)\<lparr>rs_registry := r\<rparr>\<rparr>"
  then show ?thesis
    using admissible_sync [OF y(1)] registry_step.admissible [OF y(1), of h gs] by (cases x) (auto simp: quiet_registry)
next
  fix t y r0 z r
  assume first: "if rs_health_paused (jr_state jr)
        then rs_recovery_only (jr_state jr) \<and> GenerationRegistry_admissible_job_ids (jr_registry jr) t = (y, r0)
        else r0 = jr_registry jr"
    and z: "prepare_submission_mode h s login i time sfx solution r0 t (rs_health_paused (jr_state jr)) = (z, r)"
      "x = map_err RouterSession z" "jr' = jr\<lparr>jr_state := (jr_state jr)\<lparr>rs_registry := r\<rparr>\<rparr>"
  have "(registry_step h)\<^sup>*\<^sup>* (jr_registry jr, gs) (r0, gs)" "gr_synchronized r0 \<longrightarrow> gr_synchronized (jr_registry jr)"
    using first by (auto split: if_splits intro: registry_step.admissible dest: admissible_sync)
  moreover have "(case x of Ok c \<Rightarrow> sc_admission c # gs | Err _ \<Rightarrow> gs) = (case z of Ok c \<Rightarrow> sc_admission c # gs | Err _ \<Rightarrow> gs)"
    unfolding z by (cases z) auto
  ultimately show ?thesis
    using prepare_submission_run [OF z(1), of gs] prepare_submission_sync [OF z(1)] by (auto simp: z(3) quiet_registry)
qed

section \<open>What the other sections do\<close>

definition same_epoch :: "job_router \<Rightarrow> job_router \<Rightarrow> bool" where
  "same_epoch jr jr' \<longleftrightarrow> jr_registry jr' = jr_registry jr \<and> jr_poisoned jr' = jr_poisoned jr \<and>
     rs_backend_authority (jr_state jr') = rs_backend_authority (jr_state jr) \<and>
     rs_connection_binding (jr_state jr') = rs_connection_binding (jr_state jr)"

definition health_effect :: "job_router \<Rightarrow> job_router \<Rightarrow> bool" where
  "health_effect jr jr' \<longleftrightarrow> same_epoch jr jr' \<and>
     (jr_updates jr' = jr_updates jr \<and> (rs_force_clean_jobs (jr_state jr) \<longrightarrow> rs_force_clean_jobs (jr_state jr')) \<or>
      (\<exists>g. jr_updates jr' = jr_updates jr @ [UpdateActivated g True]))"

lemma health_effect_refl [simp]: "health_effect jr jr"
  by (simp add: health_effect_def same_epoch_def)

text \<open>The three health operations query the registry and then set the flags; only a resumption broadcasts.\<close>

lemma pause_effect:
  assumes "pause_for_health now jr client = (x, jr')"
  shows "\<exists>jr1. quiet jr jr1 \<and> registry_run h (jr, gs) (jr1, gs) \<and> health_effect jr1 jr'"
proof -
  let ?q = "locked_registry now jr (\<lambda>t r. from_registry (GenerationRegistry_admissible_job_ids r t))"
  obtain y jr1 where q: "?q = (y, jr1)" by (cases ?q)
  then have run: "quiet jr jr1 \<and> registry_run h (jr, gs) (jr1, gs)" by (rule locked_query(1))
  have "jr' = jr \<or> health_effect jr1 jr'"
    using assms q by (cases y) (auto simp: pause_for_health_def health_effect_def same_epoch_def Let_def split: if_splits)
  with run show ?thesis using quiet_refl health_effect_refl by blast
qed

lemma allow_effect:
  assumes "allow_recovery_only_after_health now jr client = (x, jr')"
  shows "\<exists>jr1. quiet jr jr1 \<and> registry_run h (jr, gs) (jr1, gs) \<and> health_effect jr1 jr'"
proof -
  let ?q = "locked_registry now jr (\<lambda>t r. from_registry (winner_recovery_job_ids r t))"
  obtain y jr1 where q: "?q = (y, jr1)" by (cases ?q)
  then have run: "quiet jr jr1 \<and> registry_run h (jr, gs) (jr1, gs)" by (rule locked_query(3))
  have "jr' = jr \<or> health_effect jr1 jr'"
    using assms q by (cases y) (auto simp: allow_recovery_only_after_health_def health_effect_def same_epoch_def split: if_splits)
  with run show ?thesis using quiet_refl health_effect_refl by blast
qed

lemma resume_effect:
  assumes "resume_after_health now jr client = (x, jr')"
  shows "\<exists>jr1. quiet jr jr1 \<and> registry_run h (jr, gs) (jr1, gs) \<and> health_effect jr1 jr'"
proof -
  let ?q = "locked_registry now jr (\<lambda>t r. from_registry (current_generation r t))"
  obtain y jr1 where q: "?q = (y, jr1)" by (cases ?q)
  then have run: "quiet jr jr1 \<and> registry_run h (jr, gs) (jr1, gs)" by (rule locked_query(2))
  have "jr' = jr \<or> health_effect jr1 jr'"
    using assms q by (cases y)
      (auto simp: resume_after_health_def health_effect_def same_epoch_def send_update_def Let_def split: if_splits option.splits)
  with run show ?thesis using quiet_refl health_effect_refl by blast
qed

text \<open>An event: its registry part, and what is broadcast. A failed section leaves the registry closed.\<close>

lemma update_for_activation_cases:
  assumes "update_for_activation s job t = (x, s')"
  shows "(s' = s \<and> (x = Ok None \<or> \<not> is_ok x)) \<or>
    (\<exists>y r clean g. GenerationRegistry_admissible_job_ids (rs_registry s) t = (y, r) \<and>
       (s' = s\<lparr>rs_registry := r\<rparr> \<and> (x = Ok None \<or> \<not> is_ok x) \<or>
        s' = s\<lparr>rs_registry := r, rs_force_clean_jobs := False\<rparr> \<and> (rs_force_clean_jobs s \<longrightarrow> clean) \<and>
        x = Ok (Some (UpdateActivated g clean))))"
  using assms unfolding update_for_activation_def by (auto split: if_splits result.splits prod.splits)

definition event_effect :: "router_state \<Rightarrow> (job_router_error, job_update option) result \<Rightarrow> router_state \<Rightarrow> bool" where
  "event_effect s x s' \<longleftrightarrow> (gr_synchronized (rs_registry s') \<longrightarrow> gr_synchronized (rs_registry s)) \<and>
     rs_backend_authority s' = rs_backend_authority s \<and> rs_connection_binding s' = rs_connection_binding s \<and>
     (case x of
        Ok (Some (UpdateActivated g clean)) \<Rightarrow> rs_force_clean_jobs s \<longrightarrow> clean
      | Ok (Some _) \<Rightarrow> rs_force_clean_jobs s'
      | _ \<Rightarrow> rs_force_clean_jobs s \<longrightarrow> rs_force_clean_jobs s')"

lemma update_for_activation_effect:
  assumes "update_for_activation s job t = (x, s')"
  shows "event_effect s x s' \<and> (registry_step h)\<^sup>*\<^sup>* (rs_registry s, gs) (rs_registry s', gs)"
  using update_for_activation_cases [OF assms]
  by (auto simp: event_effect_def intro!: step_run intro: registry_step.admissible dest: admissible_sync split: result.splits)

lemma update_for_effect:
  assumes "RouterState_update_for s event t = (x, s')"
  shows "event_effect s x s' \<and> (registry_step h)\<^sup>*\<^sup>* (rs_registry s, gs) (rs_registry s', gs)"
proof (cases "\<exists>q job. event = JobActivated q job")
  case True
  with assms show ?thesis using update_for_activation_effect by (auto simp: RouterState_update_for_def)
next
  case False
  with assms show ?thesis
    by (cases event) (auto simp: RouterState_update_for_def event_effect_def split: if_splits result.splits)
qed

lemma delivered_effect:
  assumes "DeliveredBackendEvent_apply_to_registry_at h d r timeline t = (x, r')"
  shows "(registry_step h)\<^sup>*\<^sup>* (r, gs) (r', gs) \<and> (gr_synchronized r' \<or> is_ok x \<longrightarrow> gr_synchronized r)"
proof (cases "anchor_ms timeline (de_anchor d)")
  case (Err e)
  with assms show ?thesis by (auto simp: DeliveredBackendEvent_apply_to_registry_at_def)
next
  case (Ok anchor)
  then obtain y where y: "apply_event_at h r (de_event d) anchor t = (y, r')" "x = map_err IntegrationRegistry y"
    using assms by (auto simp: DeliveredBackendEvent_apply_to_registry_at_def split: prod.splits)
  have "gr_synchronized r' \<or> is_ok y \<longrightarrow> gr_synchronized r"
    using y(1) by (cases y) (auto simp: apply_event_at_Ok check_event_Ok elim!: apply_event_at_Err)
  then show ?thesis using y registry_step.event [OF y(1), of gs] by auto
qed

lemma event_cases:
  assumes "apply_event_locked h now jr b d = (z, jr')"
  obtains (closed) "jr_poisoned jr" "z = Done (Err RouterPoisoned)" "jr' = send_update UpdateSuspended jr"
  | (foreign) "z = Done (Err BackendConnectionMismatch)" "jr' = jr"
      "de_connection_binding d \<noteq> b \<or> rs_connection_binding (jr_state jr) \<noteq> Some b"
  | (clock) e where "\<not> jr_poisoned jr" "z = Done (Err (RouterTimeline e))"
      "jr' = send_update UpdateSuspended (jr\<lparr>jr_state := suspend_state (jr_state jr)\<rparr>)"
  | (refused) e t r where "\<not> jr_poisoned jr"
      "DeliveredBackendEvent_apply_to_registry_at h d (jr_registry jr) (jr_timeline jr) t = (Err e, r)"
      "z = Suspend (RouterIntegration e)" "jr' = jr\<lparr>jr_state := (jr_state jr)\<lparr>rs_registry := r\<rparr>\<rparr>"
  | (applied) t r y s where "\<not> jr_poisoned jr" "de_connection_binding d = b" "rs_connection_binding (jr_state jr) = Some b"
      "DeliveredBackendEvent_apply_to_registry_at h d (jr_registry jr) (jr_timeline jr) t = (Ok (), r)"
      "RouterState_update_for ((jr_state jr)\<lparr>rs_registry := r\<rparr>) (de_event d) t = (y, s)"
      "z = (case y of Ok _ \<Rightarrow> Done (Ok ()) | Err e \<Rightarrow> Suspend e)"
      "jr' = (case y of Ok (Some u) \<Rightarrow> send_update u (jr\<lparr>jr_state := s\<rparr>) | _ \<Rightarrow> jr\<lparr>jr_state := s\<rparr>)"
proof (cases "jr_poisoned jr \<or> de_connection_binding d \<noteq> b \<or> rs_connection_binding (jr_state jr) \<noteq> Some b")
  case True
  with assms closed foreign show thesis by (auto simp: apply_event_locked_def Let_def split: if_splits)
next
  case False
  note body = assms [unfolded apply_event_locked_def Let_def]
  show thesis
  proof (cases "timeline_now_ms (jr_timeline jr) now")
    case (Err e)
    with body False show thesis by (intro clock [of e]) auto
  next
    case (Ok t)
    obtain v r where v: "DeliveredBackendEvent_apply_to_registry_at h d (jr_registry jr) (jr_timeline jr) t = (v, r)"
      by (cases "DeliveredBackendEvent_apply_to_registry_at h d (jr_registry jr) (jr_timeline jr) t")
    obtain y s where y: "RouterState_update_for ((jr_state jr)\<lparr>rs_registry := r\<rparr>) (de_event d) t = (y, s)"
      by (cases "RouterState_update_for ((jr_state jr)\<lparr>rs_registry := r\<rparr>) (de_event d) t")
    show thesis
    proof (cases v)
      case (Err e)
      with body False Ok v show thesis by (intro refused [of t e r]) auto
    next
      case unit: (Ok u)
      with body False Ok v y show thesis by (intro applied [of t r y s]) (auto split: result.splits option.splits)
    qed
  qed
qed

lemma suspend_state_keeps [simp]:
  "rs_registry (suspend_state s) = suspend (rs_registry s)" "rs_force_clean_jobs (suspend_state s)"
  "rs_backend_authority (suspend_state s) = rs_backend_authority s" "rs_connection_binding (suspend_state s) = rs_connection_binding s"
  by (simp_all add: suspend_state_def)

lemma send_update_keeps [simp]:
  "jr_state (send_update u jr) = jr_state jr" "jr_poisoned (send_update u jr) = jr_poisoned jr"
  "jr_updates (send_update u jr) = jr_updates jr @ [u]" "jr_timeline (send_update u jr) = jr_timeline jr"
  by (simp_all add: send_update_def)

lemma suspend_run: "(registry_step h)\<^sup>*\<^sup>* (r, gs) (suspend r, gs)"
  by (rule step_run [OF registry_step.suspend])

lemma snapshot_effect:
  assumes "JobSnapshot_apply_to_registry snapshot r timeline = (x, r')"
  shows "(registry_step h)\<^sup>*\<^sup>* (r, gs) (r', gs)"
  using assms by (auto simp: JobSnapshot_apply_to_registry_def split: result.splits prod.splits intro!: step_run registry_step.snapshot)

lemma recover_cases:
  assumes "recover_from_snapshot jr snapshot = (x, jr')"
  obtains (poisoned) "jr_poisoned jr" "jr' = send_update UpdateSuspended jr" "\<not> is_ok x"
  | (refused) "gr_synchronized (jr_registry jr)" "jr' = jr" "\<not> is_ok x"
  | (foreign) "\<not> gr_synchronized (jr_registry jr)" "jr' = send_update UpdateSuspended jr" "\<not> is_ok x"
  | (failed) e r where "JobSnapshot_apply_to_registry snapshot (jr_registry jr) (jr_timeline jr) = (Err e, r)" "\<not> is_ok x"
      "jr' = send_update UpdateSuspended (jr\<lparr>jr_state := (jr_state jr)\<lparr>rs_force_clean_jobs := True, rs_recovery_only := False,
         rs_registry := suspend r\<rparr>\<rparr>)"
  | (recovered) r where "JobSnapshot_apply_to_registry snapshot (jr_registry jr) (jr_timeline jr) = (Ok (), r)" "x = Ok ()"
      "\<not> jr_poisoned jr" "\<not> gr_synchronized (jr_registry jr)"
      "rs_backend_authority (jr_state jr) = Some (cb_authority (js_connection_binding snapshot))"
      "jr' = jr\<lparr>jr_state := (jr_state jr)\<lparr>rs_force_clean_jobs := True, rs_recovery_only := False, rs_registry := r,
         rs_health_paused := False, rs_backend_authority := Some (cb_authority (js_connection_binding snapshot)),
         rs_connection_binding := Some (js_connection_binding snapshot)\<rparr>\<rparr>"
proof (cases "jr_poisoned jr \<or> gr_synchronized (jr_registry jr) \<or>
    rs_backend_authority (jr_state jr) \<noteq> Some (cb_authority (js_connection_binding snapshot))")
  case True
  with assms poisoned refused foreign show thesis
    by (auto simp: recover_from_snapshot_def recover_with_def Let_def split: if_splits)
next
  case False
  obtain y r where y: "JobSnapshot_apply_to_registry snapshot (jr_registry jr) (jr_timeline jr) = (y, r)"
    by (cases "JobSnapshot_apply_to_registry snapshot (jr_registry jr) (jr_timeline jr)")
  show thesis
  proof (cases y)
    case (Err e)
    with assms False y show thesis by (intro failed [of e r]) (auto simp: recover_from_snapshot_def recover_with_def Let_def)
  next
    case (Ok u)
    with assms False y show thesis by (intro recovered [of r]) (auto simp: recover_from_snapshot_def recover_with_def Let_def)
  qed
qed

section \<open>The invariant\<close>

fun is_activation :: "job_update \<Rightarrow> bool" where
  "is_activation (UpdateActivated _ _) = True"
| "is_activation _ = False"

text \<open>Work that keeps its predecessors valid is only ever announced directly after other work.\<close>

definition clean_log :: "job_update list \<Rightarrow> bool" where
  "clean_log us \<longleftrightarrow> (\<forall>n g. Suc n < length us \<and> us ! Suc n = UpdateActivated g False \<longrightarrow> is_activation (us ! n))"

lemma clean_log_short [simp]: "clean_log []" "clean_log [u]"
  by (simp_all add: clean_log_def)

lemma clean_log_snoc [simp]:
  "clean_log (us @ [u]) \<longleftrightarrow> clean_log us \<and> (us = [] \<or> is_activation (last us) \<or> (\<forall>g. u \<noteq> UpdateActivated g False))"
  (is "?l = ?r")
proof
  assume l: ?l
  have "clean_log us" unfolding clean_log_def
  proof (intro allI impI)
    fix n g assume "Suc n < length us \<and> us ! Suc n = UpdateActivated g False"
    with l show "is_activation (us ! n)" by (auto simp: clean_log_def nth_append dest!: spec [of _ n] spec [of _ g] split: if_splits)
  qed
  moreover have "is_activation (last us)" if "us \<noteq> []" "u = UpdateActivated g False" for g
    using l that unfolding clean_log_def
    by (auto simp: nth_append last_conv_nth dest!: spec [of _ "length us - 1"] spec [of _ g] split: if_splits)
  ultimately show ?r by blast
next
  assume r: ?r
  show ?l unfolding clean_log_def
  proof (intro allI impI)
    fix n g assume n: "Suc n < length (us @ [u]) \<and> (us @ [u]) ! Suc n = UpdateActivated g False"
    show "is_activation ((us @ [u]) ! n)"
    proof (cases "Suc n = length us")
      case True
      then have "us \<noteq> []" "length us - 1 = n" by auto
      then have "us \<noteq> []" "last us = us ! n" by (auto simp: last_conv_nth)
      with r n True show ?thesis by (auto simp: nth_append)
    qed (use r n in \<open>auto simp: clean_log_def nth_append less_Suc_eq\<close>)
  qed
qed

definition router_ok :: "job_router \<Rightarrow> bool" where
  "router_ok jr \<longleftrightarrow> clean_log (jr_updates jr) \<and>
     (gr_synchronized (jr_registry jr) \<and> \<not> jr_poisoned jr \<and> \<not> rs_force_clean_jobs (jr_state jr) \<longrightarrow>
        jr_updates jr = [] \<or> is_activation (last (jr_updates jr))) \<and>
     (\<exists>b. rs_connection_binding (jr_state jr) = Some b \<and> rs_backend_authority (jr_state jr) = Some (cb_authority b))"

definition router_le :: "job_router \<Rightarrow> job_router \<Rightarrow> bool" where
  "router_le jr jr' \<longleftrightarrow> (\<exists>us. jr_updates jr' = jr_updates jr @ us) \<and> (jr_poisoned jr \<longrightarrow> jr_poisoned jr') \<and>
     rs_backend_authority (jr_state jr') = rs_backend_authority (jr_state jr)"

lemma router_le_refl [simp]: "router_le jr jr"
  by (simp add: router_le_def)

lemma router_le_trans: "router_le a b \<Longrightarrow> router_le b c \<Longrightarrow> router_le a c"
  by (auto simp: router_le_def)

lemma quiet_keeps:
  assumes "quiet jr jr'"
  shows "jr_updates jr' = jr_updates jr" "jr_poisoned jr' = jr_poisoned jr"
    "rs_force_clean_jobs (jr_state jr') = rs_force_clean_jobs (jr_state jr)"
    "rs_backend_authority (jr_state jr') = rs_backend_authority (jr_state jr)"
    "rs_connection_binding (jr_state jr') = rs_connection_binding (jr_state jr)"
proof -
  define r where "r = jr_registry jr'"
  then have "jr' = jr\<lparr>jr_state := (jr_state jr)\<lparr>rs_registry := r\<rparr>\<rparr>" using assms by (simp add: quiet_def)
  then show "jr_updates jr' = jr_updates jr" "jr_poisoned jr' = jr_poisoned jr"
    "rs_force_clean_jobs (jr_state jr') = rs_force_clean_jobs (jr_state jr)"
    "rs_backend_authority (jr_state jr') = rs_backend_authority (jr_state jr)"
    "rs_connection_binding (jr_state jr') = rs_connection_binding (jr_state jr)" by simp_all
qed

lemma quiet_sync: "quiet jr jr' \<Longrightarrow> gr_synchronized (jr_registry jr') \<Longrightarrow> gr_synchronized (jr_registry jr)"
  by (simp add: quiet_def)

lemma quiet_ok: "quiet jr jr' \<Longrightarrow> (router_ok jr \<longrightarrow> router_ok jr') \<and> router_le jr jr'"
  using quiet_keeps [of jr jr'] quiet_sync [of jr jr'] by (auto simp: router_ok_def router_le_def)

lemma health_ok:
  assumes "\<exists>jr1. quiet jr jr1 \<and> registry_run h (jr, gs) (jr1, gs) \<and> health_effect jr1 jr'"
  shows "registry_run h (jr, gs) (jr', gs) \<and> (router_ok jr \<longrightarrow> router_ok jr') \<and> router_le jr jr'"
proof -
  from assms obtain jr1 where q: "quiet jr jr1" "registry_run h (jr, gs) (jr1, gs)" "health_effect jr1 jr'" by blast
  then have same: "jr_registry jr' = jr_registry jr1" by (simp add: health_effect_def same_epoch_def)
  have "(router_ok jr1 \<longrightarrow> router_ok jr') \<and> router_le jr1 jr'"
    using q(3) by (auto simp: health_effect_def same_epoch_def router_ok_def router_le_def)
  with quiet_ok [OF q(1)] q(2) same show ?thesis by (auto intro: router_le_trans)
qed

lemma suspended_ok:
  assumes "jr' = send_update UpdateSuspended jr \<and> (jr_poisoned jr \<or> \<not> gr_synchronized (jr_registry jr)) \<or>
    jr' = send_update UpdateSuspended (jr\<lparr>jr_state := suspend_state (jr_state jr)\<rparr>)"
  shows "registry_run h (jr, gs) (jr', gs) \<and> (router_ok jr \<longrightarrow> router_ok jr') \<and> router_le jr jr'"
  using assms suspend_run [of h "jr_registry jr" gs] by (auto simp: router_ok_def router_le_def)

lemma suspend_cases:
  assumes "JobRouter_suspend jr = (x, jr')"
  shows "jr' = send_update UpdateSuspended jr \<and> (jr_poisoned jr \<or> \<not> gr_synchronized (jr_registry jr)) \<or>
    jr' = send_update UpdateSuspended (jr\<lparr>jr_state := suspend_state (jr_state jr)\<rparr>)"
  using assms by (auto simp: JobRouter_suspend_def split: if_splits)

lemma suspend_if_bound_cases:
  assumes "suspend_if_bound jr b = (y, jr')"
  shows "jr' = jr \<or> jr' = send_update UpdateSuspended jr \<and> (jr_poisoned jr \<or> \<not> gr_synchronized (jr_registry jr)) \<or>
    jr' = send_update UpdateSuspended (jr\<lparr>jr_state := suspend_state (jr_state jr)\<rparr>)"
  using assms by (auto simp: suspend_if_bound_def split: if_splits)

lemma event_ok:
  assumes "apply_event_locked h now jr b d = (z, jr')"
  shows "registry_run h (jr, gs) (jr', gs) \<and> (router_ok jr \<longrightarrow> router_ok jr') \<and> router_le jr jr'"
  using assms
proof (cases rule: event_cases)
  case (refused e t r)
  note effect = delivered_effect [OF refused(2), of gs]
  then have "quiet jr jr'" unfolding refused(4) by (blast intro: quiet_registry)
  with effect refused(4) quiet_ok show ?thesis by simp
next
  case (applied t r y s)
  note first = delivered_effect [OF applied(4), of gs]
  note second = update_for_effect [OF applied(5), of h gs, simplified]
  have registry: "jr_registry jr' = rs_registry s" unfolding applied(7) by (auto split: result.splits option.splits)
  have "registry_run h (jr, gs) (jr', gs)" using first second registry by (auto intro: rtranclp_trans)
  moreover have "(router_ok jr \<longrightarrow> router_ok jr') \<and> router_le jr jr'"
    using first second applied(1) unfolding applied(7)
    by (auto simp: event_effect_def router_ok_def router_le_def split: result.splits option.splits job_update.splits)
  ultimately show ?thesis by blast
qed (use suspended_ok [of jr' jr h gs] in auto)

lemma recover_ok:
  assumes "recover_from_snapshot jr snapshot = (x, jr')"
  shows "registry_run h (jr, gs) (jr', gs) \<and> (router_ok jr \<longrightarrow> router_ok jr') \<and> router_le jr jr'"
  using assms
proof (cases rule: recover_cases)
  case (failed e r)
  have "(registry_step h)\<^sup>*\<^sup>* (jr_registry jr, gs) (suspend r, gs)"
    by (rule rtranclp_trans [OF snapshot_effect [OF failed(1)] suspend_run])
  then show ?thesis unfolding failed by (auto simp: router_ok_def router_le_def)
next
  case (recovered r)
  with snapshot_effect [OF recovered(1), of h gs] show ?thesis by (auto simp: router_ok_def router_le_def)
qed (use suspended_ok [of jr' jr h gs] in auto)

lemma router_step_ok:
  assumes "router_step h m m'"
  shows "registry_run h m m' \<and> (router_ok (fst m) \<longrightarrow> router_ok (fst m')) \<and> router_le (fst m) (fst m')"
  using assms
proof (cases rule: router_step.cases)
  case (suspend jr x jr' gs)
  with suspended_ok [OF suspend_cases] show ?thesis by simp
next
  case (suspend_bound jr b y jr' gs)
  with suspend_if_bound_cases [OF suspend_bound(3)] suspended_ok [of jr' jr h gs] show ?thesis by auto
next
  case (event now jr b d z jr' gs)
  with event_ok show ?thesis by simp
next
  case (recover jr snapshot x jr' gs)
  with recover_ok show ?thesis by simp
next
  case (pause now jr client x jr' gs)
  with health_ok [OF pause_effect] show ?thesis by simp
next
  case (resume now jr client x jr' gs)
  with health_ok [OF resume_effect] show ?thesis by simp
next
  case (allow now jr client x jr' gs)
  with health_ok [OF allow_effect] show ?thesis by simp
next
  case (queued now jr ctx client c jr' gs)
  with queued_quiet [OF queued(3,4)] quiet_ok [of jr jr'] show ?thesis by (simp del: remove1.simps)
next
  case (current now jr g jr' gs)
  with query_quiet(1) [OF current(3), of h gs] quiet_ok [of jr jr'] show ?thesis by simp
next
  case (admissible now jr ids jr' gs)
  with query_quiet(2) [OF admissible(3), of h gs] quiet_ok [of jr jr'] show ?thesis by simp
next
  case (retained now jr ids jr' gs)
  with query_quiet(3) [OF retained(3), of h gs] quiet_ok [of jr jr'] show ?thesis by simp
next
  case (recovery now jr ids jr' gs)
  with query_quiet(4) [OF recovery(3), of h gs] quiet_ok [of jr jr'] show ?thesis by simp
next
  case (submit now jr session login i time sfx solution c jr' gs)
  with submit_quiet [OF submit(3), of gs] quiet_ok [of jr jr'] show ?thesis by simp
next
  case (drop g gs jr)
  with drop_run [OF drop(3), of h] show ?thesis by (auto intro!: quiet_ok quiet_registry)
next
  case (poison jr gs)
  then show ?thesis by (auto simp: router_ok_def router_le_def)
qed

lemma from_snapshot_ok:
  assumes "JobRouter_from_snapshot snapshot c timeline n = Ok jr" "GenerationRegistryConfig_new a b = Ok c"
  shows "router_ok jr" "reach registry_start (registry_step h) (jr_registry jr, [])"
proof -
  from assms(1) obtain r where r: "JobSnapshot_apply_to_registry snapshot (GenerationRegistry_new c) timeline = (Ok (), r)"
    "jr = \<lparr>jr_state = \<lparr>rs_registry = r, rs_health_paused = False, rs_recovery_only = False, rs_force_clean_jobs = False,
               rs_backend_authority = Some (cb_authority (js_connection_binding snapshot)),
               rs_connection_binding = Some (js_connection_binding snapshot)\<rparr>,
             jr_poisoned = False, jr_timeline = timeline, jr_updates = []\<rparr>"
    by (auto simp: JobRouter_from_snapshot_def split: result.splits prod.splits)
  then show "router_ok jr" by (simp add: router_ok_def)
  have "registry_start (GenerationRegistry_new c, [])" using assms(2) by (auto simp: registry_start_def)
  then show "reach registry_start (registry_step h) (jr_registry jr, [])"
    using snapshot_effect [OF r(1), of h "[]"] by (auto simp: r(2) intro: reach_steps reach.start)
qed

interpretation router_registry: simulation router_start "router_step h" registry_start "registry_step h"
    "\<lambda>m. (jr_registry (fst m), snd m)" for h
  using router_step_ok from_snapshot_ok(2) by unfold_locales (auto simp: router_start_def)

definition router_inv :: "router_machine \<Rightarrow> bool" where
  "router_inv m \<longleftrightarrow> router_ok (fst m) \<and> machine_ok (jr_registry (fst m), snd m)"

interpretation router: monotone_system router_start "router_step h" router_inv "\<lambda>m m'. router_le (fst m) (fst m')" for h
proof
  fix m m' :: router_machine
  show "router_inv m" if "router_start m"
  proof -
    have "reach registry_start (registry_step h) (jr_registry (fst m), snd m)" by (rule router_registry.sim_start [OF that])
    then show ?thesis using that by (auto simp: router_inv_def router_start_def reach_ok from_snapshot_ok(1))
  qed
  show "router_inv m'" if "router_step h m m'" "router_inv m"
    using router_step_ok [OF that(1)] that(2) registry.steps_inv [of h "(jr_registry (fst m), snd m)" "(jr_registry (fst m'), snd m')"]
    by (auto simp: router_inv_def)
qed (use router_step_ok router_le_trans in auto)

section \<open>An example\<close>

definition example_timeline :: monotonic_timeline where
  "example_timeline = \<lparr>mt_origin = 0\<rparr>"

lemma example_times:
  "timeline_now_ms example_timeline 150000000 = Ok 150"
  "anchor_ms example_timeline (MonotonicAnchor 100000000) = Ok 100"
  "anchor_ms example_timeline (MonotonicAnchor 150000000) = Ok 150"
  by (simp_all add: timeline_now_ms_def anchor_ms_def instant_ms_def example_timeline_def Let_def)

abbreviation router_binding :: backend_connection_binding where
  "router_binding \<equiv> de_connection_binding example_delivered"

definition example_job_snapshot :: job_snapshot where
  "example_job_snapshot = \<lparr>js_event_seq = 5, js_current = Some \<lparr>aj_job = example_descriptor, aj_accept_for_ms = 1000\<rparr>, js_recent = [],
     js_replayed_through_event_seq = 5, js_anchor = MonotonicAnchor 100000000, js_connection_binding = router_binding\<rparr>"

definition example_router_with :: "generation_registry \<Rightarrow> bool \<Rightarrow> bool \<Rightarrow> job_update list \<Rightarrow> job_router" where
  "example_router_with r paused clean us = \<lparr>jr_state = \<lparr>rs_registry = r, rs_health_paused = paused, rs_recovery_only = False,
       rs_force_clean_jobs = clean, rs_backend_authority = Some (cb_authority router_binding),
       rs_connection_binding = Some router_binding\<rparr>,
     jr_poisoned = False, jr_timeline = example_timeline, jr_updates = us\<rparr>"

abbreviation example_router :: job_router where
  "example_router \<equiv> example_router_with example_registry False False []"

lemma example_router_reach: "reach router_start (router_step h) (example_router, [])"
proof (rule reach.start)
  have "JobRouter_from_snapshot example_job_snapshot \<lparr>rc_maximum_recent = 2, rc_maximum_generations = 8\<rparr> example_timeline 16 =
      Ok example_router"
    by (simp add: JobRouter_from_snapshot_def validate_event_capacity_def MAXIMUM_EVENT_CAPACITY_def JobSnapshot_apply_to_registry_def
        example_job_snapshot_def example_times example_snapshot example_router_with_def)
  moreover have "GenerationRegistryConfig_new 2 8 = Ok \<lparr>rc_maximum_recent = 2, rc_maximum_generations = 8\<rparr>"
    by (simp add: GenerationRegistryConfig_new_def)
  ultimately show "router_start (example_router, [])" unfolding router_start_def fst_conv snd_conv by blast
qed

text \<open>An unrelated generation is closed; then the backend pauses and resumes.\<close>

definition example_closed :: generation_registry where
  "example_closed = example_registry\<lparr>gr_last_event_seq := Some 6, gr_last_delivery_anchor_ms := Some 150, gr_last_monotonic_ms := Some 150\<rparr>"

definition example_close :: delivered_backend_event where
  "example_close = \<lparr>de_event = GenerationClosed 6 (replicate 32 9), de_anchor = MonotonicAnchor 150000000,
     de_connection_binding = router_binding\<rparr>"

lemma example_close_applies:
  "apply_event_at (\<lambda>x. x) example_registry (GenerationClosed 6 (replicate 32 9)) 150 150 = (Ok (), example_closed)"
  by (simp add: apply_event_at_def try_apply_event_def check_event_def example_registry_eq Let_def ensure_def effective_now_def
      check_clock_def check_delivery_clock_def BackendEvent_validate_def require_nonzero_hex_def checked_add_def
      dispatch_event_def JobId_new_def close_generation_def expire_at_def expire_entry_def option_filter_def entry_is_some_and_def
      accepting_def map_ran_def example_closed_def)

lemma example_close_event:
  "apply_event_locked (\<lambda>x. x) 150000000 example_router router_binding example_close =
     (Done (Ok ()), example_router_with example_closed False True [UpdateRetired (JobId (replicate 32 9))])"
  by (simp add: apply_event_locked_def example_router_with_def example_close_def example_times Let_def
      DeliveredBackendEvent_apply_to_registry_at_def example_close_applies RouterState_update_for_def JobId_new_def send_update_def)

definition example_caught_up :: backend_client where
  "example_caught_up = example_live\<lparr>bc_live_event_cursor := Some 6\<rparr>"

lemma bound_to_own: "connection_binding c = Some b \<Longrightarrow> is_bound_to c b"
  by (auto simp: is_bound_to_def connection_binding_def bind_eq_Some_conv split: if_splits)

lemma example_bound: "is_bound_to example_caught_up router_binding" "bc_live_event_cursor example_caught_up = Some 6"
proof -
  have "is_bound_to example_live router_binding" by (rule bound_to_own [OF example_live_fields(12)])
  then show "is_bound_to example_caught_up router_binding"
    by (simp add: is_bound_to_def example_caught_up_def client_authority_def)
qed (simp add: example_caught_up_def)

lemma example_queries:
  "\<exists>a. GenerationRegistry_admissible_job_ids example_closed 150 = (Ok a, example_closed)"
  "current_generation example_closed 150 = (Ok (Some example_generation), example_closed)"
  by (simp_all add: GenerationRegistry_admissible_job_ids_def current_generation_def example_closed_def example_registry_eq advance_clock_def
      check_clock_def ensure_def expire_at_def expire_entry_def map_ran_def option_filter_def entry_is_some_and_def
      accepting_def retained_at_watermark_def Let_def)

lemma example_pause:
  "pause_for_health 150000000 (example_router_with example_closed False True us) example_caught_up =
     (Ok (), example_router_with example_closed True True us)"
  using example_queries(1)
  by (auto simp: pause_for_health_def bound_client_def example_bound example_router_with_def locked_registry_def example_times Let_def)

lemma example_resume:
  "resume_after_health 150000000 (example_router_with example_closed True True us) example_caught_up =
     (Ok (), example_router_with example_closed False False (us @ [UpdateActivated example_generation True]))"
  by (simp add: resume_after_health_def bound_client_def example_bound example_router_with_def locked_registry_def example_times
      example_queries(2) Let_def send_update_def) (simp add: example_closed_def)

definition example_resumed :: job_router where
  "example_resumed = example_router_with example_closed False False
     [UpdateRetired (JobId (replicate 32 9)), UpdateActivated example_generation True]"

lemma example_resumed_reach: "reach router_start (router_step (\<lambda>x. x)) (example_resumed, [])"
proof -
  let ?us = "[UpdateRetired (JobId (replicate 32 9))]"
  have "reach router_start (router_step (\<lambda>x. x)) (example_router_with example_closed False True ?us, [])"
    by (rule reach.step [OF example_router_reach router_step.event [OF example_close_event]])
  then have "reach router_start (router_step (\<lambda>x. x)) (example_router_with example_closed True True ?us, [])"
    by (rule reach.step) (rule router_step.pause [OF example_pause])
  then have "reach router_start (router_step (\<lambda>x. x)) (example_router_with example_closed False False (?us @ [UpdateActivated example_generation True]), [])"
    by (rule reach.step) (rule router_step.resume [OF example_resume])
  then show ?thesis by (simp add: example_resumed_def)
qed

section \<open>Properties\<close>

text \<open>C13 The router refines the registry: whatever the order of its critical sections, the registry inside it is one the
  registry's own operations can reach with exactly the guards that are outstanding, and every section is a
  sequence of those operations. Every property of the registry therefore holds inside the router.\<close>

theorem router_refines_registry:
  assumes "reach router_start (router_step h) (jr, gs)" "router_step h (jr, gs) (jr', gs')"
  shows "reach registry_start (registry_step h) (jr_registry jr, gs) \<and>
    (registry_step h)\<^sup>*\<^sup>* (jr_registry jr, gs) (jr_registry jr', gs')"
  using router_registry.sim_reach [OF assms(1)] router_registry.sim_step [OF assms(2)] by simp

theorem router_refines_registry_witness:
  "reach registry_start (registry_step (\<lambda>x. x)) (example_registry, []) \<and>
   (registry_step (\<lambda>x. x))\<^sup>*\<^sup>* (example_registry, []) (example_closed, [])"
  using router_refines_registry [OF example_router_reach router_step.event [OF example_close_event, of "[]"]]
  by (simp add: example_router_with_def)

text \<open>C14 Miners are told to drop their old work whenever it may be void: in the broadcast stream, an activation that
  directly follows a retirement or a suspension always asks for clean jobs.\<close>

theorem router_clean_work:
  assumes "reach router_start (router_step h) (jr, gs)" "Suc n < length (jr_updates jr)"
    and "jr_updates jr ! n = UpdateRetired i \<or> jr_updates jr ! n = UpdateSuspended"
    and "jr_updates jr ! Suc n = UpdateActivated g clean"
  shows "clean"
proof -
  have "clean_log (jr_updates jr)" using router.reach_inv [OF assms(1)] by (simp add: router_inv_def router_ok_def)
  then show ?thesis using assms(2-4) by (cases clean) (auto simp: clean_log_def)
qed

theorem router_clean_work_witness:
  "jr_updates example_resumed ! 1 = UpdateActivated example_generation True"
  using router_clean_work [OF example_resumed_reach, of 0 "JobId (replicate 32 9)" example_generation True]
  by (simp add: example_resumed_def example_router_with_def)

text \<open>The router's epoch stays with one backend: along every run the broadcast stream only grows, and although a
  recovery may install another connection, its authority (backend and journal) is always the one of the
  first snapshot.\<close>

lemma router_one_authority:
  assumes "reach router_start (router_step h) m" "(router_step h)\<^sup>*\<^sup>* m m'"
  shows "\<exists>b b' us. rs_connection_binding (jr_state (fst m)) = Some b \<and> rs_connection_binding (jr_state (fst m')) = Some b' \<and>
    cb_authority b' = cb_authority b \<and> jr_updates (fst m') = jr_updates (fst m) @ us"
proof -
  have inv: "router_inv m" by (rule router.reach_inv [OF assms(1)])
  moreover have "router_inv m'" by (rule router.steps_inv [OF assms(2) inv])
  moreover have "router_le (fst m) (fst m')" by (rule router.steps_le [OF assms(2) inv])
  ultimately show ?thesis by (auto simp: router_inv_def router_ok_def router_le_def)
qed

lemma update_for_keeps_seq:
  assumes "RouterState_update_for s event t = (x, s')"
  shows "gr_last_event_seq (rs_registry s') = gr_last_event_seq (rs_registry s)"
proof -
  have query: "gr_last_event_seq r' = gr_last_event_seq r" if "GenerationRegistry_admissible_job_ids r t = (y, r')" for r y r'
  proof -
    from query_cases [OF disjI1 [OF that]] obtain u r1 where "advance_clock r t = (u, r1)" "r' = r1 \<or> r' = prune_winner_recovery r1 t"
      by blast
    then show ?thesis by (cases u) (auto simp: advance_clock_Ok advance_clock_Err)
  qed
  show ?thesis
  proof (cases "\<exists>q job. event = JobActivated q job")
    case True
    with assms obtain job where "update_for_activation s job t = (x, s')" by (auto simp: RouterState_update_for_def)
    from update_for_activation_cases [OF this] show ?thesis by (auto dest: query)
  next
    case False
    with assms show ?thesis by (cases event) (auto simp: RouterState_update_for_def split: if_splits result.splits)
  qed
qed

lemma closed_router_refuses:
  assumes "jr_poisoned jr \<or> \<not> gr_synchronized (jr_registry jr)"
  shows "\<not> is_ok (fst (JobRouter_prepare_submission h now jr s login i time sfx solution))"
proof -
  obtain x jr' where x: "JobRouter_prepare_submission h now jr s login i time sfx solution = (x, jr')"
    by (cases "JobRouter_prepare_submission h now jr s login i time sfx solution")
  have "\<not> is_ok x"
  proof
    assume ok: "is_ok x"
    with submit_cases [OF x] obtain t y r0 z r where "\<not> jr_poisoned jr"
      "if rs_health_paused (jr_state jr)
        then rs_recovery_only (jr_state jr) \<and> GenerationRegistry_admissible_job_ids (jr_registry jr) t = (y, r0)
        else r0 = jr_registry jr"
      "prepare_submission_mode h s login i time sfx solution r0 t (rs_health_paused (jr_state jr)) = (z, r)"
      "x = map_err RouterSession z" by blast
    with assms ok show False by (cases z) (auto split: if_splits dest: prepare_submission_sync admissible_sync)
  qed
  with x show ?thesis by simp
qed

lemma applied_seq:
  assumes "DeliveredBackendEvent_apply_to_registry_at h d r timeline t = (Ok (), r')" "machine_ok (r, gs)"
  shows "gr_last_event_seq r' = Some (BackendEvent_event_seq (de_event d)) \<and>
    (\<exists>previous. gr_last_event_seq r = Some previous \<and> unat (BackendEvent_event_seq (de_event d)) = unat previous + 1)"
proof -
  from assms(1) obtain anchor where "apply_event_at h r (de_event d) anchor t = (Ok (), r')"
    by (auto simp: DeliveredBackendEvent_apply_to_registry_at_def split: result.splits prod.splits)
  moreover have "core_registry r" using assms(2) by (simp add: machine_ok_def wf_registry_def)
  ultimately show ?thesis using apply_event_at_advances by blast
qed



text \<open>C16 While the router is paused for health, ordinary shares are not admitted: a submission it prepares then needs the
  recovery permission, and its guard is that of a Zcash candidate whose header hash meets the Zcash network target
  of its generation. In every case the router is neither poisoned nor suspended.\<close>

theorem router_pause_gate:
  assumes "JobRouter_prepare_submission h now jr s login i time sfx solution = (Ok ctx, jr')"
  shows "\<not> jr_poisoned jr \<and> gr_synchronized (jr_registry jr) \<and>
    (if rs_health_paused (jr_state jr)
     then rs_recovery_only (jr_state jr) \<and> GenerationAdmission_is_paused_zcash_candidate (sc_admission ctx) \<and>
       rev (canonical_parent_header_hash_le h (jd_header_input (bg_descriptor (ga_generation (sc_admission ctx))))
             (sc_nonce ctx) (sc_solution ctx))
         \<le> rev (TargetLe_as_bytes (jd_zcash_target_le (bg_descriptor (ga_generation (sc_admission ctx)))))
     else \<not> GenerationAdmission_is_paused_zcash_candidate (sc_admission ctx))"
proof -
  have open_router: "\<not> (jr_poisoned jr \<or> \<not> gr_synchronized (jr_registry jr))"
    using closed_router_refuses [of jr h now s login i time sfx solution] assms by auto
  let ?paused = "rs_health_paused (jr_state jr)"
  from submit_cases [OF assms] obtain t r0 z r where z: "?paused \<longrightarrow> rs_recovery_only (jr_state jr)"
    "prepare_submission_mode h s login i time sfx solution r0 t ?paused = (z, r)" "Ok ctx = map_err RouterSession z"
    by (auto split: if_splits)
  from z(2,3) have "prepare_submission_mode h s login i time sfx solution r0 t ?paused = (Ok ctx, r)" by (cases z) auto
  then show ?thesis
  proof (rule prepare_submission_Ok)
    fix worker prefix a nonce x
    assume x: "obtain_admission h i a time nonce solution r0 t ?paused = (Ok x, r)"
      "ctx = \<lparr>sc_session_id = ms_id s, sc_identity = backend_identity worker,
       sc_target_le = ShareTarget_to_backend (bd_target (ja_target a)), sc_time = time, sc_nonce = nonce,
       sc_solution = solution, sc_admission = x\<rparr>"
    show ?thesis
      using x open_router z(1)
      by (auto simp: obtain_admission_def candidate_defs begin_zcash_candidate_Ok candidate_ok_def begin_admission_Ok
          GenerationAdmission_is_paused_zcash_candidate_def
          split: if_splits result.splits prod.splits job_registry_error.splits)
  qed
qed

definition example_recovering :: job_router where
  "example_recovering = \<lparr>jr_state = \<lparr>rs_registry = example_closed, rs_health_paused = True, rs_recovery_only = True,
       rs_force_clean_jobs = True, rs_backend_authority = Some (cb_authority router_binding),
       rs_connection_binding = Some router_binding\<rparr>,
     jr_poisoned = False, jr_timeline = example_timeline, jr_updates = []\<rparr>"

definition example_candidate :: submission_context where
  "example_candidate = example_context\<lparr>sc_admission :=
     \<lparr>ga_generation = example_generation, ga_counter = 1, ga_role = PausedZcashCandidate\<rparr>\<rparr>"

lemma example_paused_admission:
  "fst (begin_paused_zcash_candidate (\<lambda>b. replicate 32 0) example_closed example_id (sc_nonce example_context) [] 150) =
     Ok (sc_admission example_candidate)"
proof -
  have order: "\<not> replicate 32 (8 :: byte) < replicate 32 0" by code_simp
  show ?thesis
    by (simp add: begin_paused_zcash_candidate_def begin_zcash_candidate_def example_closed_def example_registry_eq advance_clock_def
        check_clock_def ensure_def expire_at_def Let_def map_ran_def expire_entry_def prune_winner_recovery_def current_parent_def
        option_filter_def entry_is_some_and_def retained_at_watermark_def accepting_def canonical_parent_header_hash_le_def
        example_candidate_def)
      (simp add: example_generation_def example_descriptor_def order)
qed

lemma example_paused_prepared:
  "fst (prepare_submission_mode (\<lambda>b. replicate 32 0) example_authorized ''rig'' example_id [1, 0, 0, 0]
     (TwentyEight (replicate 28 0)) [] example_closed 150 True) = Ok example_candidate"
proof -
  obtain r1 where b: "begin_paused_zcash_candidate (\<lambda>b. replicate 32 0) example_closed example_id
      (1 # 0 # 0 # 0 # replicate 28 0) [] 150 = (Ok (sc_admission example_candidate), r1)"
    using example_paused_admission by (cases "begin_paused_zcash_candidate (\<lambda>b. replicate 32 0) example_closed example_id
      (1 # 0 # 0 # 0 # replicate 28 0) [] 150") (auto simp: example_context_def)
  have g: "check_generation example_id example_generation \<lparr>ja_generation_id = example_id, ja_target = example_binding\<rparr> [1, 0, 0, 0] = Ok ()"
    by (simp add: check_generation_Ok example_binding_def example_bounds_def example_generation_def header_time_def
        example_descriptor_def)
  have "check_retained example_closed example_id \<lparr>ja_generation_id = example_id, ja_target = example_binding\<rparr> [1, 0, 0, 0] = Ok ()"
    using g by (simp add: check_retained_def GenerationRegistry_generation_def example_closed_def example_registry_eq)
  with b g show ?thesis
    by (simp add: prepare_submission_mode_def session_require_def ensure_def
        example_authorized_def example_session_def find_assignment_def obtain_admission_def example_candidate_def)
      (simp add: example_context_def backend_identity_def example_binding_def)
qed

theorem router_pause_gate_witness:
  "rs_health_paused (jr_state example_recovering) \<and> rs_recovery_only (jr_state example_recovering) \<and>
   fst (JobRouter_prepare_submission (\<lambda>b. replicate 32 0) 150000000 example_recovering example_authorized ''rig'' example_id
     [1, 0, 0, 0] (TwentyEight (replicate 28 0)) []) = Ok example_candidate \<and>
   GenerationAdmission_is_paused_zcash_candidate (sc_admission example_candidate)"
proof -
  let ?out = "JobRouter_prepare_submission (\<lambda>b. replicate 32 0) 150000000 example_recovering example_authorized ''rig'' example_id
     [1, 0, 0, 0] (TwentyEight (replicate 28 0)) []"
  have res: "fst ?out = Ok example_candidate"
    using example_queries(1) example_paused_prepared
    by (auto simp: JobRouter_prepare_submission_def example_recovering_def locked_registry_def example_times
        prepare_paused_zcash_candidate_def split: prod.splits)
  then have "?out = (Ok example_candidate, snd ?out)" by (simp only: prod_eq_iff fst_conv snd_conv simp_thms)
  from router_pause_gate [OF this] res show ?thesis by (simp add: example_recovering_def)
qed

end
