(* ===== verification/Edge_Config.thy ===== *)
theory Edge_Config
  imports Rate_Limit Mining_Session Zip301
begin

text \<open>
  The finite limits of a miner connection (\<open>crates/wcash-pool-edge/src/config.rs\<close>), the sanitized errors a miner sees
  (\<open>error.rs\<close>) and the share outcomes reported to telemetry (\<open>telemetry.rs\<close>). A \<open>Duration\<close> is its number of nanoseconds.
\<close>

section \<open>Limits\<close>

datatype edge_config_error =
    EdgeInvalidCapacity string nat nat
  | EdgeInvalidTimeout string
  | FrameTimeoutExceedsIdle
  | EdgeRateLimit rate_limit_error

definition MAXIMUM_TIMEOUT :: nat where "MAXIMUM_TIMEOUT = 300 * 10 ^ 9"
definition MAXIMUM_CONNECTIONS :: nat where "MAXIMUM_CONNECTIONS = 65535"
definition MAXIMUM_QUEUE_CAPACITY :: nat where "MAXIMUM_QUEUE_CAPACITY = 4096"
definition MAXIMUM_ANNOUNCED_JOBS :: nat where "MAXIMUM_ANNOUNCED_JOBS = 16"

definition validate_capacity :: "string \<Rightarrow> nat \<Rightarrow> nat \<Rightarrow> (edge_config_error, unit) result" where
  "validate_capacity field actual maximum =
     ensure (1 \<le> actual \<and> actual \<le> maximum) (EdgeInvalidCapacity field actual maximum)"

definition validate_timeout :: "string \<Rightarrow> nat \<Rightarrow> (edge_config_error, unit) result" where
  "validate_timeout field timeout = ensure (timeout \<noteq> 0 \<and> timeout \<le> MAXIMUM_TIMEOUT) (EdgeInvalidTimeout field)"

record connection_limits =
  cl_maximum_connections :: nat
  cl_outbound_queue_capacity :: nat
  cl_backend_queue_capacity :: nat
  cl_maximum_announced_jobs :: nat

definition ConnectionLimits_new :: "nat \<Rightarrow> nat \<Rightarrow> nat \<Rightarrow> nat \<Rightarrow> (edge_config_error, connection_limits) result" where
  "ConnectionLimits_new maximum_connections outbound_queue_capacity backend_queue_capacity maximum_announced_jobs =
     and_then (try_all
       [validate_capacity ''maximum_connections'' maximum_connections MAXIMUM_CONNECTIONS,
        validate_capacity ''outbound_queue_capacity'' outbound_queue_capacity MAXIMUM_QUEUE_CAPACITY,
        validate_capacity ''backend_queue_capacity'' backend_queue_capacity MAXIMUM_QUEUE_CAPACITY,
        validate_capacity ''maximum_announced_jobs'' maximum_announced_jobs MAXIMUM_ANNOUNCED_JOBS]) (\<lambda>_.
     Ok \<lparr>cl_maximum_connections = maximum_connections, cl_outbound_queue_capacity = outbound_queue_capacity,
         cl_backend_queue_capacity = backend_queue_capacity, cl_maximum_announced_jobs = maximum_announced_jobs\<rparr>)"

record edge_config =
  ec_limits :: connection_limits
  ec_request_rate :: rate_limit
  ec_idle_timeout :: nat
  ec_frame_timeout :: nat
  ec_write_timeout :: nat
  ec_authorization_timeout :: nat
  ec_submission_timeout :: nat

definition EdgeConfig_new ::
  "connection_limits \<Rightarrow> rate_limit \<Rightarrow> nat \<Rightarrow> nat \<Rightarrow> nat \<Rightarrow> nat \<Rightarrow> nat \<Rightarrow> (edge_config_error, edge_config) result" where
  "EdgeConfig_new limits request_rate idle_timeout frame_timeout write_timeout authorization_timeout submission_timeout =
     and_then (try_all
       [validate_timeout ''idle_timeout'' idle_timeout, validate_timeout ''frame_timeout'' frame_timeout,
        validate_timeout ''write_timeout'' write_timeout,
        validate_timeout ''authorization_timeout'' authorization_timeout,
        validate_timeout ''submission_timeout'' submission_timeout,
        ensure (frame_timeout \<le> idle_timeout) FrameTimeoutExceedsIdle]) (\<lambda>_.
     Ok \<lparr>ec_limits = limits, ec_request_rate = request_rate, ec_idle_timeout = idle_timeout, ec_frame_timeout = frame_timeout,
         ec_write_timeout = write_timeout, ec_authorization_timeout = authorization_timeout,
         ec_submission_timeout = submission_timeout\<rparr>)"

text \<open>The bounds every constructed configuration has.\<close>

lemma ConnectionLimits_bounds:
  "ConnectionLimits_new m q b j = Ok l \<Longrightarrow>
     1 \<le> cl_outbound_queue_capacity l \<and> cl_outbound_queue_capacity l \<le> 4096 \<and>
     1 \<le> cl_maximum_announced_jobs l \<and> cl_maximum_announced_jobs l \<le> 16"
  by (auto simp: ConnectionLimits_new_def validate_capacity_def MAXIMUM_QUEUE_CAPACITY_def MAXIMUM_ANNOUNCED_JOBS_def ensure_def
      try_all.simps split: if_splits)

section \<open>Miner errors\<close>

datatype miner_error_code =
    MinerOther
  | MinerStaleJob
  | MinerDuplicateShare
  | MinerLowDifficulty
  | MinerUnauthorized
  | MinerNotSubscribed

fun MinerErrorCode_as_i32 :: "miner_error_code \<Rightarrow> 32 word" where
  "MinerErrorCode_as_i32 MinerOther = 20"
| "MinerErrorCode_as_i32 MinerStaleJob = 21"
| "MinerErrorCode_as_i32 MinerDuplicateShare = 22"
| "MinerErrorCode_as_i32 MinerLowDifficulty = 23"
| "MinerErrorCode_as_i32 MinerUnauthorized = 24"
| "MinerErrorCode_as_i32 MinerNotSubscribed = 25"

datatype miner_error = MinerError (me_code: miner_error_code) (me_message: string) (me_close_connection: bool)

definition message_for :: "miner_error \<Rightarrow> zip301_id \<Rightarrow> zip301_server_message" where
  "message_for e rid = ErrorMessage rid (MinerErrorCode_as_i32 (me_code e)) (me_message e)"

fun MinerError_from_session :: "session_error \<Rightarrow> miner_error" where
  "MinerError_from_session (UnexpectedState _ actual) =
     (if actual = Connected then MinerError MinerNotSubscribed ''not subscribed'' False
      else if actual = Subscribed then MinerError MinerUnauthorized ''unauthorized'' False
      else MinerError MinerOther ''invalid request'' True)"
| "MinerError_from_session LoginMismatch = MinerError MinerUnauthorized ''unauthorized'' False"
| "MinerError_from_session IdentitySwitch = MinerError MinerUnauthorized ''unauthorized'' False"
| "MinerError_from_session MissingIdentity = MinerError MinerUnauthorized ''unauthorized'' False"
| "MinerError_from_session (JobNotAnnounced _) = MinerError MinerStaleJob ''stale job'' False"
| "MinerError_from_session (HeaderTimeMismatch _) = MinerError MinerStaleJob ''stale job'' False"
| "MinerError_from_session (SessionRegistry (UnknownJob _)) = MinerError MinerStaleJob ''stale job'' False"
| "MinerError_from_session (SessionRegistry (RegistryStaleJob _)) = MinerError MinerStaleJob ''stale job'' False"
| "MinerError_from_session (SessionRegistry NotSynchronized) = MinerError MinerStaleJob ''stale job'' False"
| "MinerError_from_session _ = MinerError MinerOther ''invalid request'' True"

fun MinerError_from_backend :: "backend_error_code \<Rightarrow> miner_error" where
  "MinerError_from_backend StaleJob = MinerError MinerStaleJob ''stale job'' False"
| "MinerError_from_backend LowDifficulty = MinerError MinerLowDifficulty ''low difficulty share'' False"
| "MinerError_from_backend AttributionConflict = MinerError MinerDuplicateShare ''duplicate share'' False"
| "MinerError_from_backend InvalidRequest = MinerError MinerOther ''invalid share'' False"
| "MinerError_from_backend InvalidEquihash = MinerError MinerOther ''invalid share'' False"
| "MinerError_from_backend TargetOutOfRange = MinerError MinerOther ''invalid share'' False"
| "MinerError_from_backend Overloaded = MinerError MinerOther ''service unavailable'' True"
| "MinerError_from_backend BackendUnhealthy = MinerError MinerOther ''service unavailable'' True"
| "MinerError_from_backend RecoveryDeferred = MinerError MinerOther ''service temporarily unavailable'' False"

section \<open>Share outcomes\<close>

datatype share_outcome = Accepted | OutcomeStale | OutcomeInvalid | OutcomeDuplicate

text \<open>The calls on a telemetry sink.\<close>

datatype telemetry_event =
    WorkerConnected authenticated_worker
  | WorkerDisconnected authenticated_worker
  | ShareReported authenticated_worker share_outcome

fun share_outcome_for_backend :: "backend_error_code \<Rightarrow> share_outcome option" where
  "share_outcome_for_backend StaleJob = Some OutcomeStale"
| "share_outcome_for_backend AttributionConflict = Some OutcomeDuplicate"
| "share_outcome_for_backend InvalidRequest = Some OutcomeInvalid"
| "share_outcome_for_backend LowDifficulty = Some OutcomeInvalid"
| "share_outcome_for_backend InvalidEquihash = Some OutcomeInvalid"
| "share_outcome_for_backend TargetOutOfRange = Some OutcomeInvalid"
| "share_outcome_for_backend Overloaded = None"
| "share_outcome_for_backend BackendUnhealthy = None"
| "share_outcome_for_backend RecoveryDeferred = None"

definition share_outcome_for_session :: "session_error \<Rightarrow> share_outcome option" where
  "share_outcome_for_session e =
     (case me_code (MinerError_from_session e) of
        MinerStaleJob \<Rightarrow> Some OutcomeStale
      | MinerDuplicateShare \<Rightarrow> Some OutcomeDuplicate
      | MinerLowDifficulty \<Rightarrow> Some OutcomeInvalid
      | MinerOther \<Rightarrow> Some OutcomeInvalid
      | MinerUnauthorized \<Rightarrow> None
      | MinerNotSubscribed \<Rightarrow> None)"

end
