(* ===== verification/Connection_Actor.thy ===== *)
theory Connection_Actor
  imports Edge_Config Job_Router Vardiff
begin

text \<open>
  The per-connection actor of the miner edge (\<open>crates/wcash-pool-edge/src/connection.rs\<close>). A method that borrows the
  actor mutably returns its result with the actor it leaves behind, also on an error. The job router and the nonce
  allocator are shared with every other connection: between two calls of the actor the others may do anything to them
  (\<open>sh_others\<close>), and each call reads the clock once. The telemetry sink is the list of the calls made on it. The
  iteration order of a hash map is a parameter: \<open>hash\<close> gives the position of a key.
\<close>

section \<open>State\<close>

record mining_policy =
  mp_vardiff :: vardiff_config
  mp_initial_target :: share_target

datatype authentication_error = Denied | AuthenticationUnavailable

record authentication_grant =
  ag_worker :: authenticated_worker
  ag_credential_id :: uuid

definition AuthenticationGrant_new :: "authenticated_worker \<Rightarrow> uuid \<Rightarrow> (authentication_error, authentication_grant) result" where
  "AuthenticationGrant_new worker credential_id =
     (if uuid_is_nil credential_id then Err AuthenticationUnavailable
      else Ok \<lparr>ag_worker = worker, ag_credential_id = credential_id\<rparr>)"

record authentication_ticket =
  at_session_id :: uuid
  at_ticket :: u64
  at_worker :: string
  at_password :: string

record share_ticket =
  st_session_id :: uuid
  st_ticket :: u64

datatype connection_action = Authenticate authentication_ticket | SubmitAction share_ticket submission_context

record pending_share_state =
  ps_response_id :: "nat option"
  ps_target :: target_binding
  ps_admitted_at_ms :: u64
  ps_vardiff_sample :: "bool option"
  ps_winner_recovery :: bool
  ps_expected_job_id :: bytes
  ps_expected_share_id :: bytes
  ps_expected_attribution_id :: bytes

definition matches_receipt :: "pending_share_state \<Rightarrow> share_receipt \<Rightarrow> bool" where
  "matches_receipt p receipt \<longleftrightarrow> sr_job_id receipt = ps_expected_job_id p \<and> sr_share_id receipt = ps_expected_share_id p \<and>
     sr_attribution_id receipt = ps_expected_attribution_id p"

definition counts_toward_vardiff :: "bool \<Rightarrow> bool" where
  "counts_toward_vardiff replayed = (\<not> replayed)"

datatype share_router_error =
    BackendNotLive
  | SubmissionConnectionMismatch
  | SubmissionOverloaded
  | ReplayRequiresProjection share_receipt
  | SubmissionUnavailable
  | JobStreamUnusable
  | EventConsumerUnusable
  | BackendHealthDeadline
  | Rejected backend_error_code
  | TaskFailed

datatype connection_actor_error =
    ActorClosed
  | OutboundQueueFull nat
  | ResponseIdCapacity
  | NoPendingAuthorization
  | CompletionTicketMismatch
  | TicketExhausted
  | MissingAssignment job_id
  | ActorProtocol protocol_error
  | ActorSession session_error
  | ActorRouter job_router_error
  | ActorAssignment job_assignment_error
  | ActorVardiff vardiff_error

record connection_actor =
  ac_config :: edge_config
  ac_policy :: mining_policy
  ac_session :: mining_session
  ac_rate_limiter :: request_rate_limiter
  ac_vardiff :: "vardiff_controller option"
  ac_assignments :: "(job_id \<times> target_binding) list"
  ac_advertised_lineage :: "job_id list"
  ac_outbound :: "zip301_server_message list"
  ac_response_ids :: "zip301_id option list"
  ac_pending_authorization :: "(u64 \<times> nat) option"
  ac_authentication_grant :: "authentication_grant option"
  ac_pending_shares :: "(u64 \<times> pending_share_state) list"
  ac_timing_order :: "u64 list"
  ac_next_ticket :: u64
  ac_telemetry :: "telemetry_event list"
  ac_telemetry_connected :: bool
  ac_closed :: bool

abbreviation ac_capacity :: "connection_actor \<Rightarrow> nat" where
  "ac_capacity a \<equiv> cl_outbound_queue_capacity (ec_limits (ac_config a))"

definition ConnectionActor_new ::
  "uuid \<Rightarrow> edge_config \<Rightarrow> mining_policy \<Rightarrow> u64 \<Rightarrow> (connection_actor_error, connection_actor) result" where
  "ConnectionActor_new session_id cfg policy now_ms =
     and_then (map_err ActorSession (MiningSession_new session_id (cl_maximum_announced_jobs (ec_limits cfg)))) (\<lambda>session.
     Ok \<lparr>ac_config = cfg, ac_policy = policy, ac_session = session,
         ac_rate_limiter = RequestRateLimiter_new (ec_request_rate cfg) now_ms, ac_vardiff = None, ac_assignments = [],
         ac_advertised_lineage = [], ac_outbound = [], ac_response_ids = [], ac_pending_authorization = None,
         ac_authentication_grant = None, ac_pending_shares = [], ac_timing_order = [], ac_next_ticket = 1,
         ac_telemetry = [], ac_telemetry_connected = False, ac_closed = False\<rparr>)"

text \<open>\<open>?\<close> on a call that also changes the state.\<close>

fun chain :: "('e, 'a) result \<times> 's \<Rightarrow> ('a \<Rightarrow> 's \<Rightarrow> ('e, 'b) result \<times> 's) \<Rightarrow> ('e, 'b) result \<times> 's" where
  "chain (Err e, s) f = (Err e, s)"
| "chain (Ok x, s) f = f x s"

section \<open>Closing, queueing, tickets\<close>

definition record_share_outcome :: "share_outcome \<Rightarrow> connection_actor \<Rightarrow> connection_actor" where
  "record_share_outcome outcome a =
     (case ms_worker (ac_session a) of
        None \<Rightarrow> a
      | Some worker \<Rightarrow> a\<lparr>ac_telemetry := ac_telemetry a @ [ShareReported worker outcome]\<rparr>)"

definition close_actor :: "connection_actor \<Rightarrow> connection_actor" where
  "close_actor a =
     (let a = (if ac_telemetry_connected a
               then (case ms_worker (ac_session a) of
                       None \<Rightarrow> a
                     | Some worker \<Rightarrow> a\<lparr>ac_telemetry := ac_telemetry a @ [WorkerDisconnected worker]\<rparr>)\<lparr>ac_telemetry_connected := False\<rparr>
               else a)
      in a\<lparr>ac_closed := True, ac_session := close_session (ac_session a), ac_assignments := [], ac_advertised_lineage := [],
           ac_pending_authorization := None, ac_authentication_grant := None, ac_pending_shares := [],
           ac_timing_order := [], ac_response_ids := []\<rparr>)"

definition require_open :: "connection_actor \<Rightarrow> (connection_actor_error, unit) result" where
  "require_open a = (if ac_closed a then Err ActorClosed else Ok ())"

definition ensure_outbound_capacity :: "nat \<Rightarrow> connection_actor \<Rightarrow> (connection_actor_error, unit) result \<times> connection_actor" where
  "ensure_outbound_capacity additional a =
     (let maximum = ac_capacity a; required = length (ac_outbound a) + additional
      in if 2 ^ 64 \<le> required then (Err (OutboundQueueFull maximum), a)
         else if maximum < required then (Err (OutboundQueueFull maximum), close_actor a)
         else (Ok (), a))"

definition queue :: "zip301_server_message \<Rightarrow> connection_actor \<Rightarrow> (connection_actor_error, unit) result \<times> connection_actor" where
  "queue message a = chain (ensure_outbound_capacity 1 a) (\<lambda>_ a. (Ok (), a\<lparr>ac_outbound := ac_outbound a @ [message]\<rparr>))"

definition queue_error :: "zip301_id \<Rightarrow> miner_error \<Rightarrow> connection_actor \<Rightarrow> (connection_actor_error, unit) result \<times> connection_actor" where
  "queue_error rid e a =
     chain (queue (message_for e rid) a) (\<lambda>_ a. (Ok (), if me_close_connection e then close_actor a else a))"

definition queue_session_error ::
  "zip301_id \<Rightarrow> session_error \<Rightarrow> connection_actor \<Rightarrow> (connection_actor_error, unit) result \<times> connection_actor" where
  "queue_session_error rid e a = queue_error rid (MinerError_from_session e) a"

definition store_response_id :: "zip301_id \<Rightarrow> connection_actor \<Rightarrow> (connection_actor_error, nat) result \<times> connection_actor" where
  "store_response_id rid a =
     (let slots = ac_response_ids a; index = length (takeWhile (\<lambda>slot. slot \<noteq> None) slots)
      in if index < length slots then (Ok index, a\<lparr>ac_response_ids := slots[index := Some rid]\<rparr>)
         else if ac_capacity a \<le> length slots then (Err ResponseIdCapacity, close_actor a)
         else (Ok (length slots), a\<lparr>ac_response_ids := slots @ [Some rid]\<rparr>))"

definition take_response_id :: "nat \<Rightarrow> connection_actor \<Rightarrow> (connection_actor_error, zip301_id) result \<times> connection_actor" where
  "take_response_id index a =
     (if index < length (ac_response_ids a)
      then (ok_or (ac_response_ids a ! index) CompletionTicketMismatch,
            a\<lparr>ac_response_ids := (ac_response_ids a)[index := None]\<rparr>)
      else (Err CompletionTicketMismatch, a))"

definition allocate_ticket :: "connection_actor \<Rightarrow> (connection_actor_error, u64) result \<times> connection_actor" where
  "allocate_ticket a =
     (case checked_add (ac_next_ticket a) 1 of
        None \<Rightarrow> (Err TicketExhausted, a)
      | Some next_ticket \<Rightarrow> (Ok (ac_next_ticket a), a\<lparr>ac_next_ticket := next_ticket\<rparr>))"

definition pop_outbound :: "connection_actor \<Rightarrow> zip301_server_message option \<times> connection_actor" where
  "pop_outbound a =
     (case ac_outbound a of [] \<Rightarrow> (None, a) | message # rest \<Rightarrow> (Some message, a\<lparr>ac_outbound := rest\<rparr>))"

text \<open>\<open>encode\<close> is \<open>encode_zip301_message\<close> with the serializer it uses.\<close>

definition pop_outbound_frame ::
  "(zip301_server_message \<Rightarrow> (protocol_error, bytes) result) \<Rightarrow> connection_actor \<Rightarrow>
     (connection_actor_error, bytes option) result \<times> connection_actor" where
  "pop_outbound_frame encode a =
     (case pop_outbound a of
        (None, a) \<Rightarrow> (Ok None, a)
      | (Some message, a) \<Rightarrow> (map_err ActorProtocol (and_then (encode message) (\<lambda>frame. Ok (Some frame))), a))"

definition transport_failed :: "connection_actor \<Rightarrow> connection_actor" where
  "transport_failed a = close_actor a"

definition invalidate_authorization :: "connection_actor \<Rightarrow> connection_actor" where
  "invalidate_authorization a = close_actor a"

section \<open>Variable difficulty\<close>

definition tick_vardiff :: "u64 \<Rightarrow> connection_actor \<Rightarrow> (connection_actor_error, unit) result \<times> connection_actor" where
  "tick_vardiff now_ms a =
     (case require_open a of
        Err e \<Rightarrow> (Err e, a)
      | Ok _ \<Rightarrow>
          (case ac_vardiff a of
             None \<Rightarrow> (Ok (), a)
           | Some v \<Rightarrow>
               (case tick v now_ms of
                  (Err e, v) \<Rightarrow> (Err (ActorVardiff e), a\<lparr>ac_vardiff := Some v\<rparr>)
                | (Ok _, v) \<Rightarrow> (Ok (), a\<lparr>ac_vardiff := Some v\<rparr>))))"

text \<open>One turn of the loop of \<open>drain_completed_timing\<close>: the front share leaves the queue and its sample is observed.\<close>

definition observe_completed ::
  "bool \<Rightarrow> pending_share_state \<Rightarrow> connection_actor \<Rightarrow> (connection_actor_error, unit) result \<times> connection_actor" where
  "observe_completed sample pending a =
     (if sample then
        (case ac_vardiff a of
           None \<Rightarrow> (Ok (), a)
         | Some v \<Rightarrow>
             (case observe_share v (ps_target pending) (ps_admitted_at_ms pending) of
                (Err e, v) \<Rightarrow> (Err (ActorVardiff e), a\<lparr>ac_vardiff := Some v\<rparr>)
              | (Ok _, v) \<Rightarrow> (Ok (), a\<lparr>ac_vardiff := Some v\<rparr>)))
      else (Ok (), a))"

lemma observe_completed_order: "observe_completed sample pending a = (x, a') \<Longrightarrow> ac_timing_order a' = ac_timing_order a"
  by (auto simp: observe_completed_def split: if_splits option.splits prod.splits result.splits)

function drain_completed_timing :: "connection_actor \<Rightarrow> (connection_actor_error, unit) result \<times> connection_actor" where
  "drain_completed_timing a =
     (case ac_timing_order a of
        [] \<Rightarrow> (Ok (), a)
      | ticket # rest \<Rightarrow>
          (case Option.bind (map_of (ac_pending_shares a) ticket) ps_vardiff_sample of
             None \<Rightarrow> (Ok (), a)
           | Some sample \<Rightarrow>
               (case map_of (ac_pending_shares a) ticket of
                  None \<Rightarrow> (Err CompletionTicketMismatch, a)
                | Some pending \<Rightarrow>
                    (case observe_completed sample pending
                        (a\<lparr>ac_pending_shares := AList.delete ticket (ac_pending_shares a), ac_timing_order := rest\<rparr>) of
                       (Err e, a) \<Rightarrow> (Err e, a)
                     | (Ok _, a) \<Rightarrow> drain_completed_timing a))))"
  by pat_completeness auto

termination
  by (relation "measure (\<lambda>a. length (ac_timing_order a))") (auto dest!: observe_completed_order sym [of "(_, _)"])

declare drain_completed_timing.simps [simp del]

section \<open>The shared services\<close>

text \<open>\<open>sh_others n\<close> is what the other connections did before the actor's call number \<open>n\<close>, and \<open>sh_clock n\<close> the instant that
  call reads.\<close>

record shared =
  sh_router :: job_router
  sh_allocator :: nonce_prefix_allocator
  sh_others :: "nat \<Rightarrow> job_router \<times> nonce_prefix_allocator \<Rightarrow> job_router \<times> nonce_prefix_allocator"
  sh_clock :: "nat \<Rightarrow> instant"
  sh_calls :: nat

type_synonym world = "connection_actor \<times> shared"

definition interleave :: "shared \<Rightarrow> shared" where
  "interleave sh = (case sh_others sh (sh_calls sh) (sh_router sh, sh_allocator sh) of
     (jr, al) \<Rightarrow> sh\<lparr>sh_router := jr, sh_allocator := al, sh_calls := Suc (sh_calls sh)\<rparr>)"

definition with_router ::
  "(instant \<Rightarrow> job_router \<Rightarrow> (job_router_error, 'a) result \<times> job_router) \<Rightarrow> world \<Rightarrow> (job_router_error, 'a) result \<times> world" where
  "with_router call w =
     (case w of (a, sh) \<Rightarrow>
        let now = sh_clock sh (sh_calls sh); sh = interleave sh
        in case call now (sh_router sh) of (x, jr) \<Rightarrow> (x, a, sh\<lparr>sh_router := jr\<rparr>))"

definition router_call ::
  "(instant \<Rightarrow> job_router \<Rightarrow> (job_router_error, 'a) result \<times> job_router) \<Rightarrow> world \<Rightarrow> (connection_actor_error, 'a) result \<times> world" where
  "router_call call w = (case with_router call w of (x, w) \<Rightarrow> (map_err ActorRouter x, w))"

text \<open>A step of the actor alone.\<close>

definition on_actor :: "(connection_actor \<Rightarrow> ('e, 'a) result \<times> connection_actor) \<Rightarrow> world \<Rightarrow> ('e, 'a) result \<times> world" where
  "on_actor f w = (case w of (a, sh) \<Rightarrow> case f a of (x, a) \<Rightarrow> (x, a, sh))"

section \<open>Announcing work\<close>

definition current_assigned_target :: "world \<Rightarrow> (connection_actor_error, share_target option) result \<times> world" where
  "current_assigned_target w =
     chain (router_call JobRouter_current_generation w) (\<lambda>current w.
       (Ok (Option.bind current (\<lambda>generation. map_option bd_target (map_of (ac_assignments (fst w)) (bg_id generation)))), w))"

definition reconcile_with :: "(job_id \<Rightarrow> nat) \<Rightarrow> job_id list \<Rightarrow> job_id list \<Rightarrow> connection_actor \<Rightarrow> connection_actor" where
  "reconcile_with hash admissible recovery_ids a =
     (let order = sort_key hash (map fst (ac_assignments a));
          session = fold (\<lambda>job_id s. retire_announced_job s job_id) (filter (\<lambda>job_id. job_id \<notin> set admissible) order) (ac_session a);
          assignments = filter (\<lambda>(job_id, _). job_id \<in> set admissible) (ac_assignments a)
      in a\<lparr>ac_session := retain_winner_recovery_jobs session recovery_ids, ac_assignments := assignments,
           ac_advertised_lineage := filter (\<lambda>job_id. map_of assignments job_id \<noteq> None) (ac_advertised_lineage a)\<rparr>)"

definition reconcile_jobs :: "(job_id \<Rightarrow> nat) \<Rightarrow> world \<Rightarrow> (connection_actor_error, unit) result \<times> world" where
  "reconcile_jobs hash w =
     chain (require_open (fst w), w) (\<lambda>_ w.
     chain (router_call retained_job_ids w) (\<lambda>admissible w.
     chain (router_call JobRouter_winner_recovery_job_ids w) (\<lambda>recovery_ids w.
     (Ok (), reconcile_with hash admissible recovery_ids (fst w), snd w))))"

definition assign_binding ::
  "backend_generation \<Rightarrow> connection_actor \<Rightarrow> (connection_actor_error, target_binding) result \<times> connection_actor" where
  "assign_binding generation a =
     (case map_of (ac_assignments a) (bg_id generation) of
        Some b \<Rightarrow> (Ok b, a)
      | None \<Rightarrow>
          (case ac_vardiff a of
             Some v \<Rightarrow>
               (case update_network_targets v (bg_wcash_network_target generation) (bg_zcash_network_target generation) of
                  (x, v) \<Rightarrow> (map_err ActorVardiff x, a\<lparr>ac_vardiff := Some v\<rparr>))
           | None \<Rightarrow>
               (case VardiffController_new (mp_vardiff (ac_policy a)) (bg_wcash_network_target generation)
                   (bg_zcash_network_target generation) (mp_initial_target (ac_policy a)) 1 of
                  Err e \<Rightarrow> (Err (ActorVardiff e), a)
                | Ok v \<Rightarrow> (Ok (binding v), a\<lparr>ac_vardiff := Some v\<rparr>))))"

definition record_announcement ::
  "backend_generation \<Rightarrow> bool \<Rightarrow> target_binding \<Rightarrow> bool \<Rightarrow> connection_actor \<Rightarrow> (connection_actor_error, unit) result \<times> connection_actor" where
  "record_announcement generation clean_jobs b send_target a =
     (case map_err ActorAssignment (JobAssignment_new generation b) of
        Err e \<Rightarrow> (Err e, a)
      | Ok assignment \<Rightarrow>
          (case announce_job (ac_session a) assignment of
             (Err e, session) \<Rightarrow> (Err (ActorSession e), a\<lparr>ac_session := session\<rparr>)
           | (Ok _, session) \<Rightarrow>
               (Ok (), a\<lparr>ac_session := session, ac_assignments := AList.update (bg_id generation) b (ac_assignments a),
                  ac_advertised_lineage := List.insert (bg_id generation) (ac_advertised_lineage a),
                  ac_outbound := ac_outbound a @
                    (if send_target then [SetTarget (ShareTarget_to_zip301 (bd_target b))] else []) @
                    [Notify \<lparr>zn_job_id = JobId_to_protocol (bg_id generation),
                       zn_header_input = jd_header_input (bg_descriptor generation), zn_clean_jobs = clean_jobs\<rparr>]\<rparr>)))"

text \<open>The part of \<open>announce_generation\<close> from the choice of the binding on.\<close>

definition announce_assigned :: "backend_generation \<Rightarrow> bool \<Rightarrow> world \<Rightarrow> (connection_actor_error, unit) result \<times> world" where
  "announce_assigned generation clean_jobs w =
     chain (on_actor (assign_binding generation) w) (\<lambda>b w.
     chain (if clean_jobs then (Ok True, w)
            else chain (current_assigned_target w) (\<lambda>target w. (Ok (target \<noteq> Some (bd_target b)), w))) (\<lambda>send_target w.
     chain (on_actor (ensure_outbound_capacity ((if send_target then 1 else 0) + 1)) w) (\<lambda>_ w.
     on_actor (record_announcement generation clean_jobs b send_target) w)))"

definition announce_generation ::
  "(job_id \<Rightarrow> nat) \<Rightarrow> backend_generation \<Rightarrow> bool \<Rightarrow> world \<Rightarrow> (connection_actor_error, unit) result \<times> world" where
  "announce_generation hash generation clean_jobs w =
     (if ms_state (ac_session (fst w)) \<noteq> Authorized then (Ok (), w)
      else chain (reconcile_jobs hash w) (\<lambda>_ w.
        let clean_jobs = (clean_jobs \<or> ac_advertised_lineage (fst w) = [])
        in if clean_jobs then announce_assigned generation True ((fst w)\<lparr>ac_advertised_lineage := []\<rparr>, snd w)
           else if map_of (ac_assignments (fst w)) (bg_id generation) \<noteq> None then (Ok (), w)
           else announce_assigned generation False w))"

definition synchronize_current_job :: "(job_id \<Rightarrow> nat) \<Rightarrow> world \<Rightarrow> (connection_actor_error, unit) result \<times> world" where
  "synchronize_current_job hash w =
     chain (router_call JobRouter_current_generation w) (\<lambda>current w.
       case current of None \<Rightarrow> (Ok (), w) | Some generation \<Rightarrow> announce_generation hash generation True w)"

definition apply_job_update ::
  "(job_id \<Rightarrow> nat) \<Rightarrow> job_update \<Rightarrow> world \<Rightarrow> (connection_actor_error, unit) result \<times> world" where
  "apply_job_update hash update w =
     chain (require_open (fst w), w) (\<lambda>_ w.
       case update of
         UpdateActivated generation clean_jobs \<Rightarrow>
           chain (router_call JobRouter_current_generation w) (\<lambda>current w.
             if map_option bg_id current = Some (bg_id generation) then announce_generation hash generation clean_jobs w
             else if clean_jobs then (Ok (), (fst w)\<lparr>ac_advertised_lineage := []\<rparr>, snd w)
             else (Ok (), w))
       | UpdateRetired job_id \<Rightarrow>
           (let a = (fst w)\<lparr>ac_assignments := AList.delete job_id (ac_assignments (fst w)),
                  ac_advertised_lineage := removeAll job_id (ac_advertised_lineage (fst w)),
                  ac_session := retire_announced_job (ac_session (fst w)) job_id\<rparr>
            in chain (router_call JobRouter_winner_recovery_job_ids (a, snd w)) (\<lambda>recovery_ids w.
                 (Ok (), (fst w)\<lparr>ac_session := retain_winner_recovery_jobs (ac_session (fst w)) recovery_ids\<rparr>, snd w)))
       | UpdateSuspended \<Rightarrow> (Ok (), close_actor (fst w), snd w))"

section \<open>Requests\<close>

definition begin_authorization ::
  "zip301_id \<Rightarrow> string \<Rightarrow> string \<Rightarrow> connection_actor \<Rightarrow> (connection_actor_error, connection_action option) result \<times> connection_actor" where
  "begin_authorization rid worker password a =
     (if ac_pending_authorization a \<noteq> None then
        chain (queue_error rid (MinerError MinerOther ''authorization already pending'' True) a) (\<lambda>_ a. (Ok None, a))
      else if ms_state (ac_session a) \<noteq> Subscribed then
        chain (queue_error rid (MinerError_from_session (UnexpectedState Subscribed (ms_state (ac_session a)))) a) (\<lambda>_ a. (Ok None, a))
      else
        chain (store_response_id rid a) (\<lambda>response_id a.
        chain (allocate_ticket a) (\<lambda>ticket a.
        (Ok (Some (Authenticate \<lparr>at_session_id = ms_id (ac_session a), at_ticket = ticket, at_worker = worker, at_password = password\<rparr>)),
         a\<lparr>ac_pending_authorization := Some (ticket, response_id)\<rparr>))))"

text \<open>What \<open>begin_submission\<close> does once a context was prepared.\<close>

definition track_submission ::
  "(bytes \<Rightarrow> bytes) \<Rightarrow> zip301_id \<Rightarrow> job_id \<Rightarrow> submission_context \<Rightarrow> u64 \<Rightarrow> connection_actor \<Rightarrow>
     (connection_actor_error, connection_action option) result \<times> connection_actor" where
  "track_submission sha256 rid job_id ctx now_ms a =
     (case announced_target_binding (ac_session a) job_id of
        None \<Rightarrow> (Err (MissingAssignment job_id), a)
      | Some target \<Rightarrow>
          (let winner_recovery = GenerationAdmission_is_winner_recovery (sc_admission ctx);
               protocol_id = JobId_to_protocol (GenerationAdmission_job_id (sc_admission ctx))
           in if \<not> winner_recovery \<and> map_of (ac_assignments a) job_id \<noteq> Some target then (Err (MissingAssignment job_id), a)
              else case map_err ActorProtocol (canonical_attribution_id sha256 (sc_identity ctx) (sc_target_le ctx)) of
                Err e \<Rightarrow> (Err e, a)
              | Ok attribution_id \<Rightarrow>
                  chain (store_response_id rid a) (\<lambda>response_id a.
                  chain (allocate_ticket a) (\<lambda>ticket a.
                  (Ok (Some (SubmitAction \<lparr>st_session_id = ms_id (ac_session a), st_ticket = ticket\<rparr> ctx)),
                   a\<lparr>ac_pending_shares := AList.update ticket
                       \<lparr>ps_response_id = Some response_id, ps_target = target, ps_admitted_at_ms = now_ms, ps_vardiff_sample = None,
                        ps_winner_recovery = winner_recovery, ps_expected_job_id = protocol_id,
                        ps_expected_share_id = canonical_share_id sha256 protocol_id (sc_time ctx) (sc_nonce ctx) (sc_solution ctx),
                        ps_expected_attribution_id = attribution_id\<rparr> (ac_pending_shares a),
                     ac_timing_order := ac_timing_order a @ [ticket]\<rparr>)))))"

definition begin_submission ::
  "(bytes \<Rightarrow> bytes) \<Rightarrow> zip301_id \<Rightarrow> string \<Rightarrow> bytes \<Rightarrow> bytes \<Rightarrow> nonce_suffix \<Rightarrow> bytes \<Rightarrow> u64 \<Rightarrow> world \<Rightarrow>
     (connection_actor_error, connection_action option) result \<times> world" where
  "begin_submission sha256 rid worker submitted_job time nonce_2 solution now_ms w =
     (if ac_capacity (fst w) \<le> length (ac_pending_shares (fst w)) then
        chain (on_actor (queue_error rid (MinerError MinerOther ''too many pending shares'' True)) w) (\<lambda>_ w. (Ok None, w))
      else case JobId_new submitted_job of
        Err _ \<Rightarrow>
          chain (on_actor (queue_error rid (MinerError MinerStaleJob ''stale job'' False))
            (record_share_outcome OutcomeStale (fst w), snd w)) (\<lambda>_ w. (Ok None, w))
      | Ok job_id \<Rightarrow>
          (case with_router (\<lambda>now jr. JobRouter_prepare_submission sha256 now jr (ac_session (fst w)) worker job_id time nonce_2 solution) w of
             (Ok ctx, a, sh) \<Rightarrow>
               (case track_submission sha256 rid job_id ctx now_ms a of
                  (Err e, a) \<Rightarrow> (Err e, a, sh\<lparr>sh_router := drop_context ctx (sh_router sh)\<rparr>)
                | (Ok action, a) \<Rightarrow> (Ok action, a, sh))
           | (Err (RouterSession e), a, sh) \<Rightarrow>
               chain (on_actor (queue_session_error rid e)
                 (case share_outcome_for_session e of None \<Rightarrow> a | Some outcome \<Rightarrow> record_share_outcome outcome a, sh)) (\<lambda>_ w. (Ok None, w))
           | (Err e, w) \<Rightarrow> (Err (ActorRouter e), w)))"

definition subscribe_request :: "zip301_id \<Rightarrow> world \<Rightarrow> (connection_actor_error, unit) result \<times> world" where
  "subscribe_request rid w =
     (let a = fst w; sh = interleave (snd w)
      in case subscribe (ac_session a) (sh_allocator sh) of
           (x, session, al) \<Rightarrow>
             on_actor (case x of Ok nonce_1 \<Rightarrow> queue (SubscribedMessage rid nonce_1) | Err e \<Rightarrow> queue_session_error rid e)
               (a\<lparr>ac_session := session\<rparr>, sh\<lparr>sh_allocator := al\<rparr>))"

definition suggest_target_request :: "zip301_id \<Rightarrow> world \<Rightarrow> (connection_actor_error, unit) result \<times> world" where
  "suggest_target_request rid w =
     (if ms_state (ac_session (fst w)) \<noteq> Authorized then
        on_actor (queue_error rid
          (if ms_state (ac_session (fst w)) = Connected then MinerError MinerNotSubscribed ''not subscribed'' False
           else MinerError MinerUnauthorized ''unauthorized'' False)) w
      else chain (current_assigned_target w) (\<lambda>target w.
        on_actor (queue (SetTarget (ShareTarget_to_zip301
          (case target of None \<Rightarrow> mp_initial_target (ac_policy (fst w)) | Some t \<Rightarrow> t)))) w))"

definition handle_request ::
  "(bytes \<Rightarrow> bytes) \<Rightarrow> 'num zip301_request \<Rightarrow> u64 \<Rightarrow> world \<Rightarrow> (connection_actor_error, connection_action option) result \<times> world" where
  "handle_request sha256 request now_ms w =
     chain (require_open (fst w), w) (\<lambda>_ w.
       case admit (ac_rate_limiter (fst w)) now_ms of
         (Err _, limiter) \<Rightarrow>
           chain (on_actor (queue_error (Zip301Request_id request) (MinerError MinerOther ''rate limit exceeded'' True))
             ((fst w)\<lparr>ac_rate_limiter := limiter\<rparr>, snd w)) (\<lambda>_ w. (Ok None, w))
       | (Ok _, limiter) \<Rightarrow>
           (let w = ((fst w)\<lparr>ac_rate_limiter := limiter\<rparr>, snd w)
            in case request of
                 Subscribe rid _ \<Rightarrow> chain (subscribe_request rid w) (\<lambda>_ w. (Ok None, w))
               | Authorize rid worker password \<Rightarrow> on_actor (begin_authorization rid worker password) w
               | SuggestTarget rid _ \<Rightarrow> chain (suggest_target_request rid w) (\<lambda>_ w. (Ok None, w))
               | ExtranonceSubscribe rid \<Rightarrow>
                   chain (on_actor (queue_error rid (MinerError MinerOther ''extranonce subscription unsupported'' False)) w)
                     (\<lambda>_ w. (Ok None, w))
               | MultiVersion _ _ \<Rightarrow> (Ok None, w)
               | Submit rid worker job_id time nonce_2 solution \<Rightarrow>
                   begin_submission sha256 rid worker job_id time nonce_2 solution now_ms w))"

section \<open>Completions\<close>

definition grant_authorization ::
  "(job_id \<Rightarrow> nat) \<Rightarrow> zip301_id \<Rightarrow> authentication_grant \<Rightarrow> world \<Rightarrow> (connection_actor_error, unit) result \<times> world" where
  "grant_authorization hash response_id grant w =
     (let a = fst w; worker = ag_worker grant
      in case complete_authorization (ac_session a) worker of
           (Err e, session) \<Rightarrow> (Err (ActorSession e), a\<lparr>ac_session := session\<rparr>, snd w)
         | (Ok _, session) \<Rightarrow>
             chain (on_actor (queue (BooleanMessage response_id True))
               (a\<lparr>ac_session := session, ac_authentication_grant := Some grant,
                  ac_telemetry := ac_telemetry a @ [WorkerConnected worker], ac_telemetry_connected := True\<rparr>, snd w)) (\<lambda>_ w.
             synchronize_current_job hash w))"

definition deny_authorization :: "zip301_id \<Rightarrow> connection_actor \<Rightarrow> (connection_actor_error, unit) result \<times> connection_actor" where
  "deny_authorization response_id a =
     (case reject_authorization (ac_session a) of
        (Err e, session) \<Rightarrow> (Err (ActorSession e), a\<lparr>ac_session := session\<rparr>)
      | (Ok _, session) \<Rightarrow> queue_error response_id (MinerError MinerUnauthorized ''unauthorized'' True) (a\<lparr>ac_session := session\<rparr>))"

definition actor_complete_authorization ::
  "(job_id \<Rightarrow> nat) \<Rightarrow> authentication_ticket \<Rightarrow> (authentication_error, authentication_grant) result \<Rightarrow> world \<Rightarrow>
     (connection_actor_error, unit) result \<times> world" where
  "actor_complete_authorization hash ticket outcome w =
     chain (require_open (fst w), w) (\<lambda>_ w.
       case ac_pending_authorization (fst w) of
         None \<Rightarrow> (Err NoPendingAuthorization, w)
       | Some (expected, index) \<Rightarrow>
           (let a = (fst w)\<lparr>ac_pending_authorization := None\<rparr>
            in if at_session_id ticket \<noteq> ms_id (ac_session a) \<or> at_ticket ticket \<noteq> expected
               then (Err CompletionTicketMismatch, close_actor a, snd w)
               else chain (on_actor (take_response_id index) (a, snd w)) (\<lambda>response_id w.
                 case outcome of
                   Ok grant \<Rightarrow>
                     if aw_canonical_login (ag_worker grant) = at_worker ticket then grant_authorization hash response_id grant w
                     else on_actor (deny_authorization response_id) w
                 | Err Denied \<Rightarrow> on_actor (deny_authorization response_id) w
                 | Err AuthenticationUnavailable \<Rightarrow>
                     on_actor (queue_error response_id (MinerError MinerOther ''service unavailable'' True)) w)))"

fun completion_outcome :: "(share_router_error, share_commit) result \<Rightarrow> share_outcome option" where
  "completion_outcome (Ok verified) = Some (if cm_replayed verified then OutcomeDuplicate else Accepted)"
| "completion_outcome (Err (Rejected code)) = share_outcome_for_backend code"
| "completion_outcome (Err (ReplayRequiresProjection _)) = Some OutcomeDuplicate"
| "completion_outcome (Err _) = None"

fun completion_response ::
  "zip301_id \<Rightarrow> (share_router_error, share_commit) result \<Rightarrow> connection_actor \<Rightarrow> (connection_actor_error, unit) result \<times> connection_actor" where
  "completion_response rid (Ok _) a = queue (BooleanMessage rid True) a"
| "completion_response rid (Err (Rejected code)) a = queue_error rid (MinerError_from_backend code) a"
| "completion_response rid (Err SubmissionOverloaded) a = queue_error rid (MinerError MinerOther ''service busy'' False) a"
| "completion_response rid (Err (ReplayRequiresProjection _)) a =
     queue_error rid (MinerError MinerOther ''share reconciliation pending'' False) a"
| "completion_response rid (Err _) a = queue_error rid (MinerError MinerOther ''service unavailable'' True) a"

definition completion_matches :: "pending_share_state option \<Rightarrow> (share_router_error, share_commit) result \<Rightarrow> bool" where
  "completion_matches pending outcome =
     (case pending of
        None \<Rightarrow> False
      | Some p \<Rightarrow> ps_vardiff_sample p = None \<and> (case outcome of Ok commit \<Rightarrow> matches_receipt p (cm_receipt commit) | Err _ \<Rightarrow> True))"

definition finish_timing :: "connection_actor \<Rightarrow> (connection_actor_error, unit) result \<times> connection_actor" where
  "finish_timing a =
     (if ac_closed a then (Ok (), a)
      else case drain_completed_timing a of (Err e, a) \<Rightarrow> (Err e, close_actor a) | (Ok _, a) \<Rightarrow> (Ok (), a))"

definition complete_submission ::
  "share_ticket \<Rightarrow> (share_router_error, share_commit) result \<Rightarrow> connection_actor \<Rightarrow> (connection_actor_error, unit) result \<times> connection_actor" where
  "complete_submission ticket outcome a =
     chain (require_open a, a) (\<lambda>_ a.
       if st_session_id ticket \<noteq> ms_id (ac_session a) then (Err CompletionTicketMismatch, close_actor a)
       else if \<not> completion_matches (map_of (ac_pending_shares a) (st_ticket ticket)) outcome
       then (Err CompletionTicketMismatch, close_actor a)
       else case map_of (ac_pending_shares a) (st_ticket ticket) of
         None \<Rightarrow> (Err CompletionTicketMismatch, close_actor a)
       | Some pending \<Rightarrow>
           (let sample = ((case outcome of Ok verified \<Rightarrow> counts_toward_vardiff (cm_replayed verified) | Err _ \<Rightarrow> False) \<and>
                  \<not> ps_winner_recovery pending);
                a = a\<lparr>ac_pending_shares := AList.update (st_ticket ticket)
                  (pending\<lparr>ps_vardiff_sample := Some sample, ps_response_id := None\<rparr>) (ac_pending_shares a)\<rparr>
            in case ps_response_id pending of
                 None \<Rightarrow> (Err CompletionTicketMismatch, close_actor a)
               | Some index \<Rightarrow>
                   chain (take_response_id index a) (\<lambda>response_id a.
                   chain (completion_response response_id outcome
                     (case completion_outcome outcome of None \<Rightarrow> a | Some reported \<Rightarrow> record_share_outcome reported a)) (\<lambda>_ a.
                   finish_timing a))))"

end
