(* ===== verification/Actor_Invariants.thy ===== *)
theory Actor_Invariants
  imports Connection_Actor Router_Properties
begin

text \<open>
  The invariant of the connection actor: bounded queues, the accounting of response identifiers and pending shares, the
  telemetry protocol and the cleared state of a closed actor; and that every operation keeps it.
\<close>

section \<open>The invariant\<close>

text \<open>The response slots that pending operations own, in the order of the operations.\<close>

definition owned_slots :: "connection_actor \<Rightarrow> nat list" where
  "owned_slots a = (case ac_pending_authorization a of None \<Rightarrow> [] | Some (_, index) \<Rightarrow> [index]) @
     List.map_filter (\<lambda>(_, p). ps_response_id p) (ac_pending_shares a)"

definition used_slots :: "connection_actor \<Rightarrow> nat set" where
  "used_slots a = {n. n < length (ac_response_ids a) \<and> ac_response_ids a ! n \<noteq> None}"

definition slots_ok :: "connection_actor \<Rightarrow> bool" where
  "slots_ok a \<longleftrightarrow> distinct (owned_slots a) \<and> set (owned_slots a) = used_slots a \<and> length (ac_response_ids a) \<le> ac_capacity a"

definition timing_ok :: "connection_actor \<Rightarrow> bool" where
  "timing_ok a \<longleftrightarrow> distinct (map fst (ac_pending_shares a)) \<and> set (map fst (ac_pending_shares a)) = set (ac_timing_order a) \<and>
     sorted_wrt (<) (ac_timing_order a) \<and> (\<forall>t \<in> set (ac_timing_order a). t < ac_next_ticket a) \<and>
     (\<forall>(t, p) \<in> set (ac_pending_shares a). ps_vardiff_sample p = None \<longleftrightarrow> ps_response_id p \<noteq> None) \<and>
     length (ac_pending_shares a) \<le> ac_capacity a"

text \<open>The oldest pending share is always one whose result is outstanding.\<close>

definition front_open :: "connection_actor \<Rightarrow> bool" where
  "front_open a \<longleftrightarrow> (case ac_timing_order a of [] \<Rightarrow> True
     | t # _ \<Rightarrow> Option.bind (map_of (ac_pending_shares a) t) ps_vardiff_sample = None)"

text \<open>A connection reports its worker once, then outcomes of that worker's shares, then its disconnection once.\<close>

definition telemetry_ok :: "connection_actor \<Rightarrow> bool" where
  "telemetry_ok a \<longleftrightarrow>
     (if ac_telemetry_connected a
      then \<exists>w outcomes. ms_worker (ac_session a) = Some w \<and> ac_telemetry a = WorkerConnected w # map (ShareReported w) outcomes
      else ms_worker (ac_session a) = None \<and>
        (ac_telemetry a = [] \<or> ac_closed a \<and>
          (\<exists>w outcomes. ac_telemetry a = WorkerConnected w # map (ShareReported w) outcomes @ [WorkerDisconnected w])))"

definition cleared :: "connection_actor \<Rightarrow> bool" where
  "cleared a \<longleftrightarrow> ms_state (ac_session a) = SessionClosed \<and> ac_assignments a = [] \<and> ac_advertised_lineage a = [] \<and>
     ac_pending_authorization a = None \<and> ac_authentication_grant a = None \<and> ac_pending_shares a = [] \<and>
     ac_timing_order a = [] \<and> ac_response_ids a = [] \<and> \<not> ac_telemetry_connected a"

definition phase_ok :: "connection_actor \<Rightarrow> bool" where
  "phase_ok a \<longleftrightarrow> (ac_pending_authorization a \<noteq> None \<longrightarrow> ms_state (ac_session a) = Subscribed \<and> ac_pending_shares a = []) \<and>
     (ac_pending_shares a \<noteq> [] \<longrightarrow> ms_state (ac_session a) = Authorized) \<and>
     (ac_telemetry_connected a \<longleftrightarrow> ms_state (ac_session a) = Authorized) \<and> (ac_closed a \<longrightarrow> cleared a)"

text \<open>What also holds when an operation has failed and the driver is about to close the actor.\<close>

definition actor_base :: "connection_actor \<Rightarrow> bool" where
  "actor_base a \<longleftrightarrow> 1 \<le> ac_capacity a \<and> ac_capacity a \<le> 4096 \<and> length (ac_outbound a) \<le> ac_capacity a \<and> telemetry_ok a"

definition actor_mid :: "connection_actor \<Rightarrow> bool" where
  "actor_mid a \<longleftrightarrow> actor_base a \<and> slots_ok a \<and> timing_ok a \<and> phase_ok a"

definition actor_ok :: "connection_actor \<Rightarrow> bool" where
  "actor_ok a \<longleftrightarrow> actor_mid a \<and> front_open a"

lemma actor_ok_base: "actor_mid a \<Longrightarrow> actor_base a" "actor_ok a \<Longrightarrow> actor_base a"
  by (simp_all add: actor_mid_def actor_ok_def)

text \<open>The fields the invariant reads, apart from the outbound queue; the rest matters only when the actor is closed.\<close>

definition same_core :: "connection_actor \<Rightarrow> connection_actor \<Rightarrow> bool" where
  "same_core a a' \<longleftrightarrow> ac_config a' = ac_config a \<and> ac_response_ids a' = ac_response_ids a \<and>
     ac_pending_authorization a' = ac_pending_authorization a \<and> ac_pending_shares a' = ac_pending_shares a \<and>
     ac_timing_order a' = ac_timing_order a \<and> ac_next_ticket a' = ac_next_ticket a \<and> ac_telemetry a' = ac_telemetry a \<and>
     ac_telemetry_connected a' = ac_telemetry_connected a \<and> ac_closed a' = ac_closed a \<and>
     ms_state (ac_session a') = ms_state (ac_session a) \<and> ms_worker (ac_session a') = ms_worker (ac_session a) \<and>
     (ac_closed a \<longrightarrow> ac_assignments a' = ac_assignments a \<and> ac_advertised_lineage a' = ac_advertised_lineage a \<and>
        ac_authentication_grant a' = ac_authentication_grant a)"

lemma same_core_refl [simp]: "same_core a a"
  by (simp add: same_core_def)

lemma same_core_trans: "same_core a b \<Longrightarrow> same_core b c \<Longrightarrow> same_core a c"
  by (simp add: same_core_def)

lemma telemetry_frame:
  "ac_telemetry a' = ac_telemetry a \<Longrightarrow> ac_telemetry_connected a' = ac_telemetry_connected a \<Longrightarrow> ac_closed a' = ac_closed a \<Longrightarrow>
     ms_worker (ac_session a') = ms_worker (ac_session a) \<Longrightarrow> telemetry_ok a' = telemetry_ok a"
  by (simp add: telemetry_ok_def cong: if_cong)

lemma same_core_parts:
  assumes "same_core a a'"
  shows "slots_ok a' = slots_ok a" "timing_ok a' = timing_ok a" "front_open a' = front_open a" "telemetry_ok a' = telemetry_ok a"
    "phase_ok a' = phase_ok a" "ac_capacity a' = ac_capacity a"
proof -
  show "slots_ok a' = slots_ok a" using assms by (simp add: same_core_def slots_ok_def owned_slots_def used_slots_def)
  show "timing_ok a' = timing_ok a" "front_open a' = front_open a"
    using assms by (simp_all add: same_core_def timing_ok_def front_open_def cong: list.case_cong)
  show "telemetry_ok a' = telemetry_ok a" using assms by (intro telemetry_frame) (simp_all add: same_core_def)
  show "phase_ok a' = phase_ok a" using assms by (auto simp: same_core_def phase_ok_def cleared_def)
  show "ac_capacity a' = ac_capacity a" using assms by (simp add: same_core_def)
qed

section \<open>Closing\<close>

lemma close_session_simps [simp]:
  "ms_state (close_session s) = SessionClosed" "ms_worker (close_session s) = None" "ms_id (close_session s) = ms_id s"
  by (simp_all add: close_session_def)

lemma close_actor_keeps [simp]:
  "ac_config (close_actor a) = ac_config a" "ac_outbound (close_actor a) = ac_outbound a" "ac_closed (close_actor a)"
  "cleared (close_actor a)" "ac_response_ids (close_actor a) = []" "ac_pending_shares (close_actor a) = []"
  "ac_timing_order (close_actor a) = []" "ac_pending_authorization (close_actor a) = None"
  "ac_session (close_actor a) = close_session (ac_session a)" "\<not> ac_telemetry_connected (close_actor a)"
  by (simp_all add: close_actor_def cleared_def Let_def split: option.splits)

lemma close_telemetry:
  assumes "telemetry_ok a"
  shows "telemetry_ok (close_actor a)"
proof (cases "ac_telemetry_connected a")
  case True
  with assms obtain w outcomes where w: "ms_worker (ac_session a) = Some w"
    "ac_telemetry a = WorkerConnected w # map (ShareReported w) outcomes" by (auto simp: telemetry_ok_def)
  then have "ac_telemetry (close_actor a) = WorkerConnected w # map (ShareReported w) outcomes @ [WorkerDisconnected w]"
    using True by (simp add: close_actor_def)
  then show ?thesis by (auto simp: telemetry_ok_def)
next
  case False
  then have "ac_telemetry (close_actor a) = ac_telemetry a" by (simp add: close_actor_def)
  with False assms show ?thesis by (auto simp: telemetry_ok_def)
qed

lemma close_ok: "actor_base a \<Longrightarrow> actor_ok (close_actor a)"
  using close_telemetry [of a] close_actor_keeps(4) [of a] unfolding actor_ok_def actor_mid_def actor_base_def
  by (simp add: slots_ok_def timing_ok_def front_open_def phase_ok_def owned_slots_def used_slots_def cleared_def)

section \<open>Sound operations\<close>

text \<open>An operation is sound for an invariant when it leaves the invariant, or fails with an actor that may be closed. The
  invariants of interest do not depend on the rest of the actor and hold of every closed one.\<close>

definition sound :: "(connection_actor \<Rightarrow> bool) \<Rightarrow> ('e, 'a) result \<times> connection_actor \<Rightarrow> bool" where
  "sound P out \<longleftrightarrow> (case fst out of Ok _ \<Rightarrow> P (snd out) | Err _ \<Rightarrow> actor_base (snd out))"

lemma sound_simps [simp]:
  "sound P (Ok x, a) \<longleftrightarrow> P a" "sound P (Err e, a) \<longleftrightarrow> actor_base a"
  by (simp_all add: sound_def)

lemma chain_sound:
  assumes "sound P m" "\<And>x a. m = (Ok x, a) \<Longrightarrow> P a \<Longrightarrow> sound Q (f x a)"
  shows "sound Q (chain m f)"
proof (cases m)
  case (Pair x a)
  with assms show ?thesis by (cases x) auto
qed

locale actor_frame =
  fixes inv :: "connection_actor \<Rightarrow> bool"
  assumes inv_base: "inv a \<Longrightarrow> actor_base a"
    and inv_frame: "inv a \<Longrightarrow> same_core a a' \<Longrightarrow> length (ac_outbound a') \<le> ac_capacity a' \<Longrightarrow> inv a'"
    and inv_close: "actor_base a \<Longrightarrow> inv (close_actor a)"
begin

lemma sound_base: "sound inv (x, a) \<Longrightarrow> actor_base a"
  by (cases x) (auto intro: inv_base)

lemma outbound_ok: "inv a \<Longrightarrow> length out \<le> ac_capacity a \<Longrightarrow> inv (a\<lparr>ac_outbound := out\<rparr>)"
  by (erule inv_frame) (simp_all add: same_core_def)

lemma ensure_capacity_sound: "inv a \<Longrightarrow> sound inv (ensure_outbound_capacity n a)"
  using inv_base [of a] inv_base [OF inv_close, of a] by (auto simp: ensure_outbound_capacity_def Let_def)

lemma queue_sound:
  assumes "inv a"
  shows "sound inv (queue m a)"
  unfolding queue_def
proof (rule chain_sound [OF ensure_capacity_sound [OF assms]])
  fix u b assume "ensure_outbound_capacity 1 a = (Ok u, b)" "inv b"
  then show "sound inv (Ok (), b\<lparr>ac_outbound := ac_outbound b @ [m]\<rparr>)"
    by (auto simp: ensure_outbound_capacity_def Let_def split: if_splits intro!: outbound_ok)
qed

lemma queue_error_sound: "inv a \<Longrightarrow> sound inv (queue_error rid e a)"
  unfolding queue_error_def by (rule chain_sound [OF queue_sound]) (auto simp: inv_close inv_base)

lemma refused_sound: "inv a \<Longrightarrow> sound inv (chain (queue_error rid e a) (\<lambda>_ a. (Ok x, a)))"
  by (rule chain_sound [OF queue_error_sound]) auto

lemma queue_session_error_sound: "inv a \<Longrightarrow> sound inv (queue_session_error rid e a)"
  by (simp add: queue_session_error_def queue_error_sound)

lemma completion_response_sound: "inv a \<Longrightarrow> sound inv (completion_response rid outcome a)"
  by (cases "(rid, outcome, a)" rule: completion_response.cases) (simp_all add: queue_sound queue_error_sound)

end

interpretation whole: actor_frame actor_ok
proof
  fix a a' assume "actor_ok a" "same_core a a'" "length (ac_outbound a') \<le> ac_capacity a'"
  then show "actor_ok a'" by (simp add: actor_ok_def actor_mid_def actor_base_def same_core_parts)
qed (simp_all add: actor_ok_base close_ok)

interpretation base: actor_frame actor_base
proof
  fix a a' assume "actor_base a" "same_core a a'" "length (ac_outbound a') \<le> ac_capacity a'"
  then show "actor_base a'" by (simp add: actor_base_def same_core_parts)
qed (simp_all add: actor_ok_base(2) [OF close_ok])

interpretation mid: actor_frame actor_mid
proof
  fix a a' assume "actor_mid a" "same_core a a'" "length (ac_outbound a') \<le> ac_capacity a'"
  then show "actor_mid a'" by (simp add: actor_mid_def actor_base_def same_core_parts)
next
  fix a assume "actor_base a"
  then have "actor_ok (close_actor a)" by (rule close_ok)
  then show "actor_mid (close_actor a)" by (simp add: actor_ok_def)
qed (simp add: actor_ok_base)

section \<open>Response slots\<close>

lemma takeWhile_slot:
  assumes "n = length (takeWhile (\<lambda>slot. slot \<noteq> None) slots)" "n < length slots"
  shows "slots ! n = None"
  using nth_length_takeWhile [of "\<lambda>slot. slot \<noteq> None" slots] assms by simp

lemma store_slot:
  assumes "store_response_id rid a = (Ok n, a')"
  obtains ids where "a' = a\<lparr>ac_response_ids := ids\<rparr>" "n \<notin> used_slots a" "n < length ids" "ids ! n = Some rid"
    "used_slots a' = insert n (used_slots a)" "length ids \<le> max (length (ac_response_ids a)) (ac_capacity a)"
proof (cases "length (takeWhile (\<lambda>slot. slot \<noteq> None) (ac_response_ids a)) < length (ac_response_ids a)")
  case True
  with assms have n: "n = length (takeWhile (\<lambda>slot. slot \<noteq> None) (ac_response_ids a))"
    and a': "a' = a\<lparr>ac_response_ids := (ac_response_ids a)[n := Some rid]\<rparr>" by (auto simp: store_response_id_def Let_def)
  have "ac_response_ids a ! n = None" by (rule takeWhile_slot [OF n]) (use True n in simp)
  with True n show thesis by (intro that [OF a']) (auto simp: a' used_slots_def nth_list_update)
next
  case False
  with assms have "n = length (ac_response_ids a)" "length (ac_response_ids a) < ac_capacity a"
    and a': "a' = a\<lparr>ac_response_ids := ac_response_ids a @ [Some rid]\<rparr>"
    by (auto simp: store_response_id_def Let_def split: if_splits)
  then show thesis by (intro that [OF a']) (auto simp: a' used_slots_def nth_append less_Suc_eq)
qed

lemma store_room:
  assumes "slots_ok a" "length (owned_slots a) < ac_capacity a"
  shows "\<exists>n a'. store_response_id rid a = (Ok n, a')"
proof (cases "length (takeWhile (\<lambda>slot. slot \<noteq> None) (ac_response_ids a)) < length (ac_response_ids a)")
  case True
  then show ?thesis by (simp add: store_response_id_def Let_def)
next
  case False
  have "takeWhile (\<lambda>slot. slot \<noteq> None) (ac_response_ids a) = ac_response_ids a"
    using False length_takeWhile_le [of "\<lambda>slot. slot \<noteq> None" "ac_response_ids a"]
    by (metis le_neq_implies_less takeWhile_eq_take take_all_iff)
  then have "\<forall>slot \<in> set (ac_response_ids a). slot \<noteq> None" by (simp add: takeWhile_eq_all_conv)
  then have "used_slots a = {..< length (ac_response_ids a)}" by (auto simp: used_slots_def)
  then have "length (ac_response_ids a) = length (owned_slots a)"
    using assms(1) distinct_card [of "owned_slots a"] by (simp add: slots_ok_def)
  with assms(2) False show ?thesis by (simp add: store_response_id_def Let_def)
qed

lemma take_slot:
  assumes "n \<in> used_slots a"
  obtains rid where "ac_response_ids a ! n = Some rid"
    "take_response_id n a = (Ok rid, a\<lparr>ac_response_ids := (ac_response_ids a)[n := None]\<rparr>)"
    "used_slots (a\<lparr>ac_response_ids := (ac_response_ids a)[n := None]\<rparr>) = used_slots a - {n}"
proof -
  from assms obtain rid where rid: "n < length (ac_response_ids a)" "ac_response_ids a ! n = Some rid" by (auto simp: used_slots_def)
  moreover have "used_slots (a\<lparr>ac_response_ids := (ac_response_ids a)[n := None]\<rparr>) = used_slots a - {n}"
    using rid(1) by (auto simp: used_slots_def nth_list_update split: if_splits)
  ultimately show thesis by (intro that [of rid]) (simp_all add: take_response_id_def)
qed

section \<open>Telemetry and timing\<close>

lemma telemetry_parts:
  "slots_ok (a\<lparr>ac_telemetry := t\<rparr>) = slots_ok a" "timing_ok (a\<lparr>ac_telemetry := t\<rparr>) = timing_ok a"
  "front_open (a\<lparr>ac_telemetry := t\<rparr>) = front_open a" "phase_ok (a\<lparr>ac_telemetry := t\<rparr>) = phase_ok a"
  by (simp_all add: slots_ok_def owned_slots_def used_slots_def timing_ok_def front_open_def phase_ok_def cleared_def
      cong: list.case_cong)

lemma record_telemetry:
  assumes "telemetry_ok a"
  shows "telemetry_ok (record_share_outcome outcome a)"
proof (cases "ms_worker (ac_session a)")
  case (Some w)
  with assms obtain outcomes where "ac_telemetry_connected a" "ac_telemetry a = WorkerConnected w # map (ShareReported w) outcomes"
    by (auto simp: telemetry_ok_def split: if_splits)
  then have "ac_telemetry_connected a \<and> ac_telemetry a @ [ShareReported w outcome] = WorkerConnected w # map (ShareReported w) (outcomes @ [outcome])"
    by simp
  with Some show ?thesis by (auto simp: telemetry_ok_def record_share_outcome_def simp del: map_append)
qed (use assms in \<open>simp add: record_share_outcome_def\<close>)

lemma record_parts:
  "slots_ok (record_share_outcome outcome a) = slots_ok a" "timing_ok (record_share_outcome outcome a) = timing_ok a"
  "front_open (record_share_outcome outcome a) = front_open a" "phase_ok (record_share_outcome outcome a) = phase_ok a"
  "ac_outbound (record_share_outcome outcome a) = ac_outbound a" "ac_config (record_share_outcome outcome a) = ac_config a"
  by (simp_all add: record_share_outcome_def telemetry_parts split: option.splits)

lemma record_ok:
  "actor_mid a \<Longrightarrow> actor_mid (record_share_outcome outcome a)" "actor_ok a \<Longrightarrow> actor_ok (record_share_outcome outcome a)"
  by (simp_all add: actor_ok_def actor_mid_def actor_base_def record_parts record_telemetry)

text \<open>Removing the oldest share once its result is known.\<close>

definition drop_front :: "connection_actor \<Rightarrow> u64 \<Rightarrow> u64 list \<Rightarrow> connection_actor" where
  "drop_front a ticket rest = a\<lparr>ac_pending_shares := AList.delete ticket (ac_pending_shares a), ac_timing_order := rest\<rparr>"

lemma map_filter_filter:
  "(\<And>x. x \<in> set xs \<Longrightarrow> \<not> P x \<Longrightarrow> f x = None) \<Longrightarrow> List.map_filter f (filter P xs) = List.map_filter f xs"
  by (induction xs) (auto simp: List.map_filter_simps split: option.splits)

lemma map_filter_delete:
  assumes "distinct (map fst xs)" "map_of xs k = Some v" "f (k, v) = None"
  shows "List.map_filter f (AList.delete k xs) = List.map_filter f xs"
  unfolding AList.delete_eq
proof (rule map_filter_filter)
  fix x assume "x \<in> set xs" "\<not> (case x of (k', v) \<Rightarrow> k \<noteq> k')"
  then obtain v' where x: "x = (k, v')" "(k, v') \<in> set xs" by (cases x) auto
  from map_of_is_SomeI [OF assms(1) x(2)] assms(2) have "x = (k, v)" using x by simp
  with assms(3) show "f x = None" by simp
qed

lemma drop_front_ok:
  assumes "actor_mid a" "ac_timing_order a = ticket # rest" "map_of (ac_pending_shares a) ticket = Some p" "ps_vardiff_sample p = Some b"
  shows "actor_mid (drop_front a ticket rest)"
proof -
  have t: "timing_ok a" "slots_ok a" "phase_ok a" "actor_base a" using assms(1) by (simp_all add: actor_mid_def)
  have d: "distinct (map fst (ac_pending_shares a))" and order: "sorted_wrt (<) (ticket # rest)"
    and keys: "set (map fst (ac_pending_shares a)) = set (ticket # rest)"
    using t(1) assms(2) by (simp_all add: timing_ok_def)
  have p: "(ticket, p) \<in> set (ac_pending_shares a)" using assms(3) by (rule map_of_SomeD)
  with t(1) assms(4) have "ps_response_id p = None" by (auto simp: timing_ok_def)
  then have "owned_slots (drop_front a ticket rest) = owned_slots a"
    using map_filter_delete [OF d assms(3), of "\<lambda>(_, p). ps_response_id p"] by (simp add: owned_slots_def drop_front_def)
  then have "slots_ok (drop_front a ticket rest)" using t(2) by (simp add: slots_ok_def used_slots_def drop_front_def)
  moreover have "timing_ok (drop_front a ticket rest)"
  proof -
    have "set (map fst (AList.delete ticket (ac_pending_shares a))) = set rest"
      unfolding AList.delete_keys set_removeAll keys using order by auto
    moreover have "length (AList.delete ticket (ac_pending_shares a)) \<le> ac_capacity a"
      using t(1) AList.length_delete_le [of ticket "ac_pending_shares a"] by (simp add: timing_ok_def)
    moreover have "distinct (map fst (AList.delete ticket (ac_pending_shares a)))" using d by (simp add: AList.distinct_delete)
    ultimately show ?thesis using t(1) order assms(2) by (auto simp: timing_ok_def drop_front_def AList.delete_eq)
  qed
  moreover have "phase_ok (drop_front a ticket rest)" using t(3) p by (auto simp: phase_ok_def drop_front_def cleared_def)
  moreover have "telemetry_ok (drop_front a ticket rest) = telemetry_ok a" by (rule telemetry_frame) (simp_all add: drop_front_def)
  then have "actor_base (drop_front a ticket rest)" using t(4) by (simp add: actor_base_def drop_front_def)
  ultimately show ?thesis by (simp add: actor_mid_def)
qed

lemma observe_core: "observe_completed sample pending a = (x, a') \<Longrightarrow> same_core a a' \<and> ac_outbound a' = ac_outbound a"
  by (auto simp: observe_completed_def same_core_def split: if_splits option.splits prod.splits result.splits)

lemma drain_sound: "actor_mid a \<Longrightarrow> sound actor_ok (drain_completed_timing a)"
proof (induction a rule: drain_completed_timing.induct)
  case (1 a)
  show ?case
  proof (cases "\<exists>ticket rest p sample. ac_timing_order a = ticket # rest \<and> map_of (ac_pending_shares a) ticket = Some p \<and>
      ps_vardiff_sample p = Some sample")
    case False
    have stop: "Option.bind (map_of (ac_pending_shares a) t) ps_vardiff_sample = None" if "ac_timing_order a = t # rest" for t rest
      using False that by (cases "map_of (ac_pending_shares a) t") auto
    then have "front_open a" "drain_completed_timing a = (Ok (), a)"
      by (auto simp: front_open_def drain_completed_timing.simps [of a] split: list.splits)
    with "1.prems" show ?thesis by (simp add: actor_ok_def)
  next
    case True
    then obtain ticket rest p sample where t: "ac_timing_order a = ticket # rest" "map_of (ac_pending_shares a) ticket = Some p"
      "ps_vardiff_sample p = Some sample" by blast
    obtain x b where x: "observe_completed sample p (drop_front a ticket rest) = (x, b)"
      by (cases "observe_completed sample p (drop_front a ticket rest)")
    have front: "actor_mid (drop_front a ticket rest)" by (rule drop_front_ok [OF "1.prems" t])
    have b: "actor_mid b"
      by (rule mid.inv_frame [OF front])
        (use observe_core [OF x] mid.inv_base [OF front] in \<open>simp_all add: actor_base_def same_core_def\<close>)
    have "drain_completed_timing a = (case x of Err e \<Rightarrow> (Err e, b) | Ok _ \<Rightarrow> drain_completed_timing b)"
      by (subst drain_completed_timing.simps) (simp add: t x [unfolded drop_front_def] split: result.splits)
    with "1.IH" [OF t(1) _ t(2) x [unfolded drop_front_def, symmetric]] b t show ?thesis
      by (cases x) (auto simp: mid.inv_base)
  qed
qed

section \<open>Completions\<close>

lemma map_filter_update:
  assumes "map_of xs k = Some v" "distinct (map fst xs)" "f (k, v) = Some n" "f (k, v') = None"
  obtains us vs where "List.map_filter f xs = us @ n # vs" "List.map_filter f (AList.update k v' xs) = us @ vs"
proof -
  have "\<exists>us vs. List.map_filter f xs = us @ n # vs \<and> List.map_filter f (AList.update k v' xs) = us @ vs"
    using assms(1)
  proof (induction xs)
    case (Cons x xs)
    show ?case
    proof (cases "fst x = k")
      case True
      with Cons.prems have "x = (k, v)" by (cases x) simp
      with assms(3,4) show ?thesis
        by (intro exI [of _ "[]"] exI [of _ "List.map_filter f xs"]) (simp add: List.map_filter_simps)
    next
      case False
      with Cons obtain us vs where "List.map_filter f xs = us @ n # vs" "List.map_filter f (AList.update k v' xs) = us @ vs"
        by (cases x) auto
      with False show ?thesis
        by (cases x; cases "f x") (auto simp: List.map_filter_simps intro: exI [of _ us] exI [of _ "y # us" for y])
    qed
  qed simp
  with that show thesis by blast
qed

lemma update_keys_same:
  assumes "map_of xs k = Some v"
  shows "map fst (AList.update k v' xs) = map fst xs" "length (AList.update k v' xs) = length xs"
proof -
  have "k \<in> set (map fst xs)" using map_of_SomeD [OF assms] by force
  then show keys: "map fst (AList.update k v' xs) = map fst xs" by (simp add: AList.update_keys)
  show "length (AList.update k v' xs) = length xs" using arg_cong [OF keys, of length] by simp
qed

lemma update_entries:
  assumes "map_of xs k = Some v" "distinct (map fst xs)" "(t, p) \<in> set (AList.update k v' xs)"
  shows "(t = k \<and> p = v') \<or> (t, p) \<in> set xs"
proof -
  have "map_of (AList.update k v' xs) t = Some p"
    by (rule map_of_is_SomeI [OF _ assms(3)]) (simp add: update_keys_same(1) [OF assms(1)] assms(2))
  then show ?thesis by (auto simp: AList.update_conv' split: if_splits dest: map_of_SomeD)
qed

definition completed :: "u64 \<Rightarrow> pending_share_state \<Rightarrow> bool \<Rightarrow> connection_actor \<Rightarrow> connection_actor" where
  "completed t p sample a = a\<lparr>ac_pending_shares :=
     AList.update t (p\<lparr>ps_vardiff_sample := Some sample, ps_response_id := None\<rparr>) (ac_pending_shares a)\<rparr>"

lemma completed_slot:
  assumes ok: "actor_mid a" and p: "map_of (ac_pending_shares a) t = Some p" "ps_vardiff_sample p = None"
  obtains index rid b where "ps_response_id p = Some index" "ac_response_ids a ! index = Some rid"
    "take_response_id index (completed t p sample a) = (Ok rid, b)" "actor_mid b"
    "b = (completed t p sample a)\<lparr>ac_response_ids := (ac_response_ids a)[index := None]\<rparr>"
proof -
  let ?f = "\<lambda>(_, p). ps_response_id p" and ?c = "completed t p sample a"
  have parts: "timing_ok a" "slots_ok a" "phase_ok a" "actor_base a" using ok by (simp_all add: actor_mid_def)
  have d: "distinct (map fst (ac_pending_shares a))" using parts(1) by (simp add: timing_ok_def)
  have mem: "(t, p) \<in> set (ac_pending_shares a)" using p(1) by (rule map_of_SomeD)
  then obtain index where index: "ps_response_id p = Some index" using parts(1) p(2) by (auto simp: timing_ok_def)
  have auth: "ac_pending_authorization a = None"
    using parts(3) mem by (cases "ac_pending_authorization a") (auto simp: phase_ok_def)
  obtain us vs where split: "List.map_filter ?f (ac_pending_shares a) = us @ index # vs"
    "List.map_filter ?f (ac_pending_shares ?c) = us @ vs"
    using map_filter_update [OF p(1) d, of ?f index "p\<lparr>ps_vardiff_sample := Some sample, ps_response_id := None\<rparr>"] index
    by (auto simp: completed_def)
  have owned: "owned_slots a = us @ index # vs" "owned_slots ?c = us @ vs"
    using split auth by (simp_all add: owned_slots_def completed_def)
  have used: "used_slots ?c = used_slots a" by (simp add: used_slots_def completed_def)
  have "index \<in> used_slots ?c" using parts(2) owned used by (auto simp: slots_ok_def)
  then obtain rid where rid: "ac_response_ids ?c ! index = Some rid"
    "take_response_id index ?c = (Ok rid, ?c\<lparr>ac_response_ids := (ac_response_ids ?c)[index := None]\<rparr>)"
    "used_slots (?c\<lparr>ac_response_ids := (ac_response_ids ?c)[index := None]\<rparr>) = used_slots ?c - {index}" by (rule take_slot)
  let ?b = "?c\<lparr>ac_response_ids := (ac_response_ids ?c)[index := None]\<rparr>"
  have "owned_slots ?b = us @ vs" using owned(2) by (simp add: owned_slots_def)
  then have "slots_ok ?b" using parts(2) owned(1) rid(3) used by (auto simp: slots_ok_def completed_def)
  moreover have "timing_ok ?b"
    using parts(1) update_keys_same [OF p(1)] update_entries [OF p(1) d]
    by (simp add: timing_ok_def completed_def) (fastforce simp: completed_def)
  moreover have "phase_ok ?b" using parts(3) mem by (auto simp: phase_ok_def cleared_def completed_def)
  moreover have "telemetry_ok ?b = telemetry_ok a" by (rule telemetry_frame) (simp_all add: completed_def)
  then have "actor_base ?b" using parts(4) by (simp add: actor_base_def completed_def)
  ultimately have "actor_mid ?b" by (simp add: actor_mid_def)
  then show thesis using index rid by (intro that) (simp_all add: completed_def)
qed

lemma finish_sound: "actor_mid a \<Longrightarrow> sound actor_ok (finish_timing a)"
proof (cases "ac_closed a")
  case True
  assume "actor_mid a"
  with True have "front_open a" by (simp add: actor_mid_def phase_ok_def cleared_def front_open_def)
  with True \<open>actor_mid a\<close> show ?thesis by (simp add: finish_timing_def actor_ok_def)
next
  case False
  assume "actor_mid a"
  then have "sound actor_ok (drain_completed_timing a)" by (rule drain_sound)
  then show ?thesis
    using False whole.inv_base [OF close_ok]
    by (cases "drain_completed_timing a"; cases "fst (drain_completed_timing a)") (auto simp: finish_timing_def)
qed

lemma complete_submission_sound:
  assumes "actor_ok a"
  shows "sound actor_ok (complete_submission ticket outcome a)"
proof -
  let ?t = "st_ticket ticket"
  have mid: "actor_mid a" and base: "actor_base a" using assms by (simp_all add: actor_ok_def actor_mid_def)
  have closed: "actor_base (close_actor a)" using whole.inv_base [OF close_ok [OF base]] .
  show ?thesis
  proof (cases "\<exists>p. map_of (ac_pending_shares a) ?t = Some p \<and> ps_vardiff_sample p = None \<and>
      \<not> ac_closed a \<and> st_session_id ticket = ms_id (ac_session a) \<and> completion_matches (Some p) outcome")
    case False
    then show ?thesis
      using base closed
      by (auto simp: complete_submission_def require_open_def completion_matches_def split: option.splits result.splits if_splits)
  next
    case True
    then obtain p where p: "map_of (ac_pending_shares a) ?t = Some p" "ps_vardiff_sample p = None" "\<not> ac_closed a"
      "st_session_id ticket = ms_id (ac_session a)" "completion_matches (Some p) outcome" by blast
    define sample where "sample = ((case outcome of Ok verified \<Rightarrow> counts_toward_vardiff (cm_replayed verified) | Err _ \<Rightarrow> False) \<and>
      \<not> ps_winner_recovery p)"
    from completed_slot [OF mid p(1,2), of sample] obtain index rid b where i: "ps_response_id p = Some index"
      "take_response_id index (completed ?t p sample a) = (Ok rid, b)" "actor_mid b" by metis
    have "complete_submission ticket outcome a =
        chain (completion_response rid outcome
          (case completion_outcome outcome of None \<Rightarrow> b | Some reported \<Rightarrow> record_share_outcome reported b)) (\<lambda>_ a. finish_timing a)"
      using p i(1,2) by (simp add: complete_submission_def require_open_def completed_def Let_def sample_def)
    moreover have "actor_mid (case completion_outcome outcome of None \<Rightarrow> b | Some reported \<Rightarrow> record_share_outcome reported b)"
      using i(3) by (simp add: record_ok split: option.splits)
    ultimately show ?thesis using chain_sound [OF mid.completion_response_sound finish_sound] by simp
  qed
qed

section \<open>New operations\<close>

lemma allocate_cases:
  assumes "allocate_ticket a = (x, b)"
  shows "(x = Err TicketExhausted \<and> b = a) \<or>
    (\<exists>next_ticket. x = Ok (ac_next_ticket a) \<and> b = a\<lparr>ac_next_ticket := next_ticket\<rparr> \<and> ac_next_ticket a < next_ticket)"
  using assms by (auto simp: allocate_ticket_def checked_add_Some word_less_nat_alt split: option.splits)

lemma update_new: "k \<notin> set (map fst xs) \<Longrightarrow> AList.update k v xs = xs @ [(k, v)]"
  by (induction xs) auto

lemma map_filter_length: "length (List.map_filter f xs) \<le> length xs"
  by (induction xs) (auto simp: List.map_filter_simps split: option.splits)

lemma base_ids: "actor_base (a\<lparr>ac_response_ids := ids\<rparr>) = actor_base a" "actor_base (a\<lparr>ac_next_ticket := t\<rparr>) = actor_base a"
proof -
  have "telemetry_ok (a\<lparr>ac_response_ids := ids\<rparr>) = telemetry_ok a" "telemetry_ok (a\<lparr>ac_next_ticket := t\<rparr>) = telemetry_ok a"
    by (rule telemetry_frame, simp_all)+
  then show "actor_base (a\<lparr>ac_response_ids := ids\<rparr>) = actor_base a" "actor_base (a\<lparr>ac_next_ticket := t\<rparr>) = actor_base a"
    by (simp_all add: actor_base_def)
qed

definition authorizing :: "u64 \<Rightarrow> u64 \<Rightarrow> nat \<Rightarrow> zip301_id option list \<Rightarrow> connection_actor \<Rightarrow> connection_actor" where
  "authorizing ticket next_ticket n ids a =
     a\<lparr>ac_response_ids := ids, ac_next_ticket := next_ticket, ac_pending_authorization := Some (ticket, n)\<rparr>"

lemma authorizing_ok:
  assumes "actor_ok a" "ac_pending_authorization a = None" "ms_state (ac_session a) = Subscribed" "n \<notin> used_slots a"
    and "used_slots (a\<lparr>ac_response_ids := ids\<rparr>) = insert n (used_slots a)" "length ids \<le> ac_capacity a" "ac_next_ticket a < next_ticket"
  shows "actor_ok (authorizing ticket next_ticket n ids a)"
proof -
  let ?b = "authorizing ticket next_ticket n ids a"
  have parts: "actor_base a" "slots_ok a" "timing_ok a" "phase_ok a" using assms(1) by (simp_all add: actor_ok_def actor_mid_def)
  have shares: "ac_pending_shares a = []" using parts(4) assms(3) by (cases "ac_pending_shares a") (auto simp: phase_ok_def)
  then have order: "ac_timing_order a = []" using parts(3) by (simp add: timing_ok_def)
  have "used_slots a = {}" using parts(2) assms(2) shares by (simp add: slots_ok_def owned_slots_def List.map_filter_simps)
  moreover have "used_slots ?b = used_slots (a\<lparr>ac_response_ids := ids\<rparr>)" by (simp add: used_slots_def authorizing_def)
  ultimately have "used_slots ?b = {n}" using assms(5) by simp
  then have "slots_ok ?b" using assms(6) shares by (simp add: slots_ok_def owned_slots_def authorizing_def List.map_filter_simps)
  moreover have "telemetry_ok ?b = telemetry_ok a" by (rule telemetry_frame) (simp_all add: authorizing_def)
  moreover have "\<not> ac_closed a" using parts(4) assms(3) by (auto simp: phase_ok_def cleared_def)
  ultimately show ?thesis
    using parts shares order assms(3)
    by (simp add: actor_ok_def actor_mid_def actor_base_def timing_ok_def front_open_def phase_ok_def authorizing_def)
qed

lemma begin_authorization_sound:
  assumes "actor_ok a"
  shows "sound actor_ok (begin_authorization rid worker password a)"
proof (cases "ac_pending_authorization a = None \<and> ms_state (ac_session a) = Subscribed")
  case False
  then show ?thesis using whole.refused_sound [OF assms] by (auto simp: begin_authorization_def)
next
  case True
  have parts: "actor_base a" "slots_ok a" "phase_ok a" using assms by (simp_all add: actor_ok_def actor_mid_def)
  have "ac_pending_shares a = []" using parts(3) True by (cases "ac_pending_shares a") (auto simp: phase_ok_def)
  then have "length (owned_slots a) < ac_capacity a"
    using True parts(1) by (simp add: owned_slots_def actor_base_def List.map_filter_simps)
  then obtain n b where b: "store_response_id rid a = (Ok n, b)" using store_room [OF parts(2)] by blast
  then obtain ids where ids: "b = a\<lparr>ac_response_ids := ids\<rparr>" "n \<notin> used_slots a" "used_slots b = insert n (used_slots a)"
      "length ids \<le> max (length (ac_response_ids a)) (ac_capacity a)" by (rule store_slot)
  then have room: "length ids \<le> ac_capacity a" using parts(2) by (simp add: slots_ok_def)
  obtain x c where x: "allocate_ticket b = (x, c)" by (cases "allocate_ticket b")
  from allocate_cases [OF x] show ?thesis
  proof (elim disjE exE conjE)
    assume "x = Err TicketExhausted" "c = b"
    with True b x parts(1) ids(1) show ?thesis by (simp add: begin_authorization_def base_ids)
  next
    fix next_ticket assume c: "x = Ok (ac_next_ticket b)" "c = b\<lparr>ac_next_ticket := next_ticket\<rparr>" "ac_next_ticket b < next_ticket"
    have "actor_ok (authorizing (ac_next_ticket b) next_ticket n ids a)"
      using True ids c(3) room by (intro authorizing_ok [OF assms]) simp_all
    with True b x c ids(1) show ?thesis by (simp add: begin_authorization_def authorizing_def)
  qed
qed

definition tracking :: "u64 \<Rightarrow> u64 \<Rightarrow> pending_share_state \<Rightarrow> zip301_id option list \<Rightarrow> connection_actor \<Rightarrow> connection_actor" where
  "tracking ticket next_ticket p ids a =
     a\<lparr>ac_response_ids := ids, ac_next_ticket := next_ticket, ac_pending_shares := AList.update ticket p (ac_pending_shares a),
       ac_timing_order := ac_timing_order a @ [ticket]\<rparr>"

lemma tracking_ok:
  assumes "actor_ok a" "ms_state (ac_session a) = Authorized" "n \<notin> used_slots a" "length (ac_pending_shares a) < ac_capacity a"
    and "used_slots (a\<lparr>ac_response_ids := ids\<rparr>) = insert n (used_slots a)" "length ids \<le> ac_capacity a" "ac_next_ticket a < next_ticket"
    and "ps_response_id p = Some n" "ps_vardiff_sample p = None"
  shows "actor_ok (tracking (ac_next_ticket a) next_ticket p ids a)"
proof -
  let ?t = "ac_next_ticket a" and ?b = "tracking (ac_next_ticket a) next_ticket p ids a"
  have parts: "actor_base a" "slots_ok a" "timing_ok a" "phase_ok a" "front_open a" using assms(1) by (simp_all add: actor_ok_def actor_mid_def)
  have keys: "set (map fst (ac_pending_shares a)) = set (ac_timing_order a)" and below: "\<forall>t \<in> set (ac_timing_order a). t < ?t"
    using parts(3) by (simp_all add: timing_ok_def)
  then have fresh: "?t \<notin> set (map fst (ac_pending_shares a))" by auto
  note shares = update_new [OF fresh, of p]
  have auth: "ac_pending_authorization a = None" using parts(4) assms(2) by (cases "ac_pending_authorization a") (auto simp: phase_ok_def)
  have "owned_slots ?b = owned_slots a @ [n]"
    using auth assms(8) by (simp add: owned_slots_def tracking_def shares List.map_filter_simps List.map_filter_def)
  moreover have "used_slots ?b = used_slots (a\<lparr>ac_response_ids := ids\<rparr>)" by (simp add: used_slots_def tracking_def)
  ultimately have "slots_ok ?b" using parts(2) assms(3,5,6) by (auto simp: slots_ok_def tracking_def)
  moreover have "timing_ok ?b"
    using parts(3) assms(4,7-9) fresh by (auto simp: timing_ok_def tracking_def shares sorted_wrt_append)
  moreover have "front_open ?b"
    using parts(5) keys assms(9) fresh
    by (cases "ac_timing_order a") (auto simp: front_open_def tracking_def shares map_add_def split: option.splits)
  moreover have "\<not> ac_closed a" using parts(4) assms(2) by (auto simp: phase_ok_def cleared_def)
  then have "phase_ok ?b" using parts(4) assms(2) auth by (auto simp: phase_ok_def tracking_def)
  moreover have "telemetry_ok ?b = telemetry_ok a" by (rule telemetry_frame) (simp_all add: tracking_def)
  ultimately show ?thesis using parts(1) by (simp add: actor_ok_def actor_mid_def actor_base_def tracking_def)
qed

lemma track_submission_sound:
  assumes "actor_ok a" "ms_state (ac_session a) = Authorized" "length (ac_pending_shares a) < ac_capacity a"
  shows "sound actor_ok (track_submission h rid job_id ctx now a)"
proof (cases "\<exists>target d. announced_target_binding (ac_session a) job_id = Some target \<and>
    (GenerationAdmission_is_winner_recovery (sc_admission ctx) \<or> map_of (ac_assignments a) job_id = Some target) \<and>
    canonical_attribution_id h (sc_identity ctx) (sc_target_le ctx) = Ok d")
  case False
  then show ?thesis
    using actor_ok_base(2) [OF assms(1)] by (auto simp: track_submission_def Let_def split: option.splits result.splits)
next
  case True
  then obtain target d where t: "announced_target_binding (ac_session a) job_id = Some target"
    "GenerationAdmission_is_winner_recovery (sc_admission ctx) \<or> map_of (ac_assignments a) job_id = Some target"
    "canonical_attribution_id h (sc_identity ctx) (sc_target_le ctx) = Ok d" by blast
  have parts: "actor_base a" "slots_ok a" "phase_ok a" using assms(1) by (simp_all add: actor_ok_def actor_mid_def)
  have "ac_pending_authorization a = None"
    using parts(3) assms(2) by (cases "ac_pending_authorization a") (auto simp: phase_ok_def)
  then have "length (owned_slots a) < ac_capacity a"
    using assms(3) map_filter_length [of "\<lambda>(_, p). ps_response_id p" "ac_pending_shares a"] by (simp add: owned_slots_def)
  then obtain n b where b: "store_response_id rid a = (Ok n, b)" using store_room [OF parts(2)] by blast
  then obtain ids where ids: "b = a\<lparr>ac_response_ids := ids\<rparr>" "n \<notin> used_slots a" "used_slots b = insert n (used_slots a)"
      "length ids \<le> max (length (ac_response_ids a)) (ac_capacity a)" by (rule store_slot)
  then have room: "length ids \<le> ac_capacity a" using parts(2) by (simp add: slots_ok_def)
  obtain x c where x: "allocate_ticket b = (x, c)" by (cases "allocate_ticket b")
  from allocate_cases [OF x] show ?thesis
  proof (elim disjE exE conjE)
    assume "x = Err TicketExhausted" "c = b"
    with t b x parts(1) ids(1) show ?thesis by (auto simp: track_submission_def Let_def base_ids)
  next
    fix next_ticket assume c: "x = Ok (ac_next_ticket b)" "c = b\<lparr>ac_next_ticket := next_ticket\<rparr>" "ac_next_ticket b < next_ticket"
    have "actor_ok (tracking (ac_next_ticket a) next_ticket p ids a)" if "ps_response_id p = Some n" "ps_vardiff_sample p = None" for p
      using assms ids c(3) room that by (intro tracking_ok [where n = n]) simp_all
    with t b x c ids(1) show ?thesis by (auto simp: track_submission_def tracking_def Let_def)
  qed
qed

section \<open>Operations on the world\<close>

definition wsound :: "(connection_actor \<Rightarrow> bool) \<Rightarrow> ('e, 'a) result \<times> world \<Rightarrow> bool" where
  "wsound P out \<longleftrightarrow> sound P (fst out, fst (snd out))"

lemma wsound_simps [simp]:
  "wsound P (Ok x, w) \<longleftrightarrow> P (fst w)" "wsound P (Err e, w) \<longleftrightarrow> actor_base (fst w)"
  by (simp_all add: wsound_def)

lemma chain_wsound:
  assumes "wsound P m" "\<And>x w. m = (Ok x, w) \<Longrightarrow> P (fst w) \<Longrightarrow> wsound Q (f x w)"
  shows "wsound Q (chain m f)"
proof -
  obtain x w where "m = (x, w)" by (rule prod.exhaust)
  with assms show ?thesis by (cases x) auto
qed

lemma on_actor_sound: "sound P (f (fst w)) \<Longrightarrow> wsound P (on_actor f w)"
  by (cases w) (auto simp: on_actor_def wsound_def split: prod.splits)

lemma router_call_actor: "router_call call w = (x, w') \<Longrightarrow> fst w' = fst w"
  by (auto simp: router_call_def with_router_def Let_def split: prod.splits)

lemma router_call_sound: "actor_ok (fst w) \<Longrightarrow> wsound actor_ok (router_call call w)"
  using router_call_actor [of call w] by (cases "router_call call w"; cases "fst (router_call call w)") (auto simp: actor_ok_base)

lemma require_open_sound: "actor_ok (fst w) \<Longrightarrow> wsound actor_ok (require_open (fst w), w)"
  by (simp add: require_open_def actor_ok_base)

lemma current_assigned_sound: "actor_ok (fst w) \<Longrightarrow> wsound actor_ok (current_assigned_target w)"
  unfolding current_assigned_target_def by (rule chain_wsound [OF router_call_sound]) auto

lemma session_keeps [simp]:
  "ms_state (retire_announced_job s i) = ms_state s" "ms_worker (retire_announced_job s i) = ms_worker s"
  "ms_state (retain_winner_recovery_jobs s ids) = ms_state s" "ms_worker (retain_winner_recovery_jobs s ids) = ms_worker s"
  by (simp_all add: retire_announced_job_def retain_winner_recovery_jobs_def Let_def split: option.splits)

lemma session_fold_keeps [simp]:
  "ms_state (fold (\<lambda>i s. retire_announced_job s i) is s) = ms_state s"
  "ms_worker (fold (\<lambda>i s. retire_announced_job s i) is s) = ms_worker s"
  by (induction "is" arbitrary: s) simp_all

lemma open_frame:
  assumes "actor_ok a" "\<not> ac_closed a" "same_core (a\<lparr>ac_assignments := x, ac_advertised_lineage := y\<rparr>) b" "ac_outbound b = ac_outbound a"
  shows "actor_ok b"
  by (rule whole.inv_frame [OF assms(1)]) (use assms actor_ok_base(2) [OF assms(1)] in \<open>simp_all add: same_core_def actor_base_def\<close>)

lemma reconcile_with_ok: "actor_ok a \<Longrightarrow> \<not> ac_closed a \<Longrightarrow> actor_ok (reconcile_with hash admissible recovery_ids a)"
  by (rule open_frame [where x = "[]" and y = "[]"]) (simp_all add: same_core_def reconcile_with_def Let_def)

lemma reconcile_sound:
  assumes "actor_ok (fst w)"
  shows "wsound actor_ok (reconcile_jobs hash w)"
  unfolding reconcile_jobs_def
proof (rule chain_wsound [OF require_open_sound [OF assms]])
  fix u w1 assume w1: "(require_open (fst w), w) = (Ok u, w1)"
  then have first: "w1 = w" "\<not> ac_closed (fst w)" by (auto simp: require_open_def split: if_splits)
  show "wsound actor_ok (chain (router_call retained_job_ids w1) (\<lambda>admissible w.
      chain (router_call JobRouter_winner_recovery_job_ids w) (\<lambda>recovery_ids w.
      (Ok (), reconcile_with hash admissible recovery_ids (fst w), snd w))))"
  proof (rule chain_wsound [OF router_call_sound])
    fix admissible w2 assume w2: "router_call retained_job_ids w1 = (Ok admissible, w2)" "actor_ok (fst w2)"
    show "wsound actor_ok (chain (router_call JobRouter_winner_recovery_job_ids w2) (\<lambda>recovery_ids w.
        (Ok (), reconcile_with hash admissible recovery_ids (fst w), snd w)))"
      by (rule chain_wsound [OF router_call_sound [OF w2(2)]])
        (use first router_call_actor [OF w2(1)] in \<open>auto dest!: router_call_actor intro!: reconcile_with_ok\<close>)
  qed (use assms first in simp)
qed

section \<open>Announcements\<close>

lemma lineage_ok: "actor_ok a \<Longrightarrow> actor_ok (a\<lparr>ac_advertised_lineage := []\<rparr>)"
  by (rule whole.inv_frame)
    (auto simp: same_core_def actor_ok_def actor_mid_def actor_base_def phase_ok_def cleared_def)

lemma assign_binding_sound: "actor_ok a \<Longrightarrow> sound actor_ok (assign_binding generation a)"
proof -
  assume ok: "actor_ok a"
  have v: "actor_ok (a\<lparr>ac_vardiff := v\<rparr>)" for v
    by (rule whole.inv_frame [OF ok]) (use actor_ok_base(2) [OF ok] in \<open>simp_all add: same_core_def actor_base_def\<close>)
  show ?thesis
  proof (cases "map_of (ac_assignments a) (bg_id generation)")
    case None
    show ?thesis
    proof (cases "ac_vardiff a")
      case (Some c)
      obtain x c' where "update_network_targets c (bg_wcash_network_target generation) (bg_zcash_network_target generation) = (x, c')"
        by (rule prod.exhaust)
      with None Some v [of "Some c'"] show ?thesis by (cases x) (simp_all add: assign_binding_def actor_ok_base)
    qed (use None v ok in \<open>auto simp: assign_binding_def actor_ok_base split: result.splits\<close>)
  qed (use ok in \<open>simp add: assign_binding_def\<close>)
qed

lemma record_announcement_sound:
  assumes "actor_ok a" "length (ac_outbound a) + ((if send_target then 1 else 0) + 1) \<le> ac_capacity a"
  shows "sound actor_ok (record_announcement generation clean_jobs b send_target a)"
proof (cases "JobAssignment_new generation b")
  case (Err e)
  with assms(1) show ?thesis by (simp add: record_announcement_def actor_ok_base)
next
  case (Ok assignment)
  obtain x s where x: "announce_job (ac_session a) assignment = (x, s)" by (rule prod.exhaust)
  have keep: "ms_state s = ms_state (ac_session a)" "ms_worker s = ms_worker (ac_session a)"
    using x by (auto simp: announce_job_def split: result.splits option.splits if_splits)
  show ?thesis
  proof (cases x)
    case (Err e)
    have "actor_base (a\<lparr>ac_session := s\<rparr>)"
      using actor_ok_base(2) [OF assms(1)] telemetry_frame [of "a\<lparr>ac_session := s\<rparr>" a] keep by (simp add: actor_base_def)
    with Err Ok x show ?thesis by (simp add: record_announcement_def)
  next
    case announced: (Ok u)
    then have "ms_state (ac_session a) = Authorized" using x by (auto simp: announce_job_def session_require_def ensure_def split: if_splits)
    then have "\<not> ac_closed a" using assms(1) by (auto simp: actor_ok_def actor_mid_def phase_ok_def cleared_def)
    then show ?thesis
      using Ok x announced keep assms(2)
      by (cases send_target; simp add: record_announcement_def; intro whole.inv_frame [OF assms(1)]; simp add: same_core_def)
  qed
qed

lemma announce_assigned_sound:
  assumes "actor_ok (fst w)"
  shows "wsound actor_ok (announce_assigned generation clean w)"
  unfolding announce_assigned_def
proof (intro chain_wsound [where P = actor_ok])
  show "wsound actor_ok (on_actor (assign_binding generation) w)" by (intro on_actor_sound assign_binding_sound assms)
next
  fix b and w1 :: world assume w1: "actor_ok (fst w1)"
  show "wsound actor_ok (if clean then (Ok True, w1) else chain (current_assigned_target w1) (\<lambda>target w. (Ok (target \<noteq> Some (bd_target b)), w)))"
    using w1 by (auto intro: chain_wsound [OF current_assigned_sound [OF w1]])
next
  fix send and w2 :: world assume w2: "actor_ok (fst w2)"
  show "wsound actor_ok (on_actor (ensure_outbound_capacity ((if send then 1 else 0) + 1)) w2)"
    by (intro on_actor_sound whole.ensure_capacity_sound w2)
next
  fix b send u and w2 w3 :: world
  assume "on_actor (ensure_outbound_capacity ((if send then 1 else 0) + 1)) w2 = (Ok u, w3)" and w3: "actor_ok (fst w3)"
  then have "length (ac_outbound (fst w3)) + ((if send then 1 else 0) + 1) \<le> ac_capacity (fst w3)"
    by (cases w2) (auto simp: on_actor_def ensure_outbound_capacity_def Let_def split: if_splits)
  then show "wsound actor_ok (on_actor (record_announcement generation clean b send) w3)"
    by (intro on_actor_sound record_announcement_sound [OF w3])
qed

lemma announce_sound:
  assumes "actor_ok (fst w)"
  shows "wsound actor_ok (announce_generation hash generation clean w)"
  unfolding announce_generation_def Let_def
  using assms announce_assigned_sound lineage_ok by (auto intro!: chain_wsound [OF reconcile_sound [OF assms]])

lemma synchronize_sound: "actor_ok (fst w) \<Longrightarrow> wsound actor_ok (synchronize_current_job hash w)"
  unfolding synchronize_current_job_def
  by (rule chain_wsound [OF router_call_sound]) (auto simp: announce_sound split: option.splits)

section \<open>Updates, requests, authorization\<close>

lemma open_actor:
  assumes "(require_open (fst w), w) = (Ok u, w1)"
  shows "w1 = w" "\<not> ac_closed (fst w)"
  using assms by (auto simp: require_open_def split: if_splits)

lemma apply_job_update_sound:
  assumes "actor_ok (fst w)"
  shows "wsound actor_ok (apply_job_update hash update w)"
  unfolding apply_job_update_def
proof (rule chain_wsound [OF require_open_sound [OF assms]])
  fix u w1 assume "(require_open (fst w), w) = (Ok u, w1)"
  note w1 = open_actor [OF this]
  show "wsound actor_ok (case update of
      UpdateActivated generation clean_jobs \<Rightarrow>
        chain (router_call JobRouter_current_generation w1) (\<lambda>current w.
          if map_option bg_id current = Some (bg_id generation) then announce_generation hash generation clean_jobs w
          else if clean_jobs then (Ok (), (fst w)\<lparr>ac_advertised_lineage := []\<rparr>, snd w) else (Ok (), w))
    | UpdateRetired job_id \<Rightarrow>
        (let a = (fst w1)\<lparr>ac_assignments := AList.delete job_id (ac_assignments (fst w1)),
               ac_advertised_lineage := removeAll job_id (ac_advertised_lineage (fst w1)),
               ac_session := retire_announced_job (ac_session (fst w1)) job_id\<rparr>
         in chain (router_call JobRouter_winner_recovery_job_ids (a, snd w1)) (\<lambda>recovery_ids w.
              (Ok (), (fst w)\<lparr>ac_session := retain_winner_recovery_jobs (ac_session (fst w)) recovery_ids\<rparr>, snd w)))
    | UpdateSuspended \<Rightarrow> (Ok (), close_actor (fst w1), snd w1))"
  proof (cases update)
    case (UpdateActivated generation clean_jobs)
    show ?thesis
      unfolding UpdateActivated job_update.case
      by (rule chain_wsound [OF router_call_sound]) (use assms w1 announce_sound lineage_ok in auto)
  next
    case (UpdateRetired job_id)
    let ?a = "(fst w1)\<lparr>ac_assignments := AList.delete job_id (ac_assignments (fst w1)),
      ac_advertised_lineage := removeAll job_id (ac_advertised_lineage (fst w1)),
      ac_session := retire_announced_job (ac_session (fst w1)) job_id\<rparr>"
    have a: "actor_ok ?a" "\<not> ac_closed ?a"
      using w1 assms by (auto simp: same_core_def intro: open_frame [where x = "[]" and y = "[]"])
    have "actor_ok (b\<lparr>ac_session := retain_winner_recovery_jobs (ac_session b) ids\<rparr>)" if "actor_ok b" for b ids
      by (rule whole.inv_frame [OF that]) (use actor_ok_base(2) [OF that] in \<open>simp_all add: same_core_def actor_base_def\<close>)
    with UpdateRetired show ?thesis by (auto simp: Let_def a intro!: chain_wsound [OF router_call_sound])
  qed (use assms w1 in \<open>simp add: close_ok actor_ok_base\<close>)
qed

lemma prepared_authorized:
  assumes "with_router (\<lambda>now jr. JobRouter_prepare_submission h now jr s worker i time nonce solution) w = (Ok ctx, w')"
  shows "ms_state s = Authorized" "fst w' = fst w"
proof -
  from assms obtain now jr jr' where "JobRouter_prepare_submission h now jr s worker i time nonce solution = (Ok ctx, jr')"
    by (cases w) (auto simp: with_router_def Let_def split: prod.splits)
  from submit_cases [OF this] obtain t y r0 z r where
    "prepare_submission_mode h s worker i time nonce solution r0 t y = (z, r)" "Ok ctx = map_err RouterSession z" by auto
  then have "prepare_submission_mode h s worker i time nonce solution r0 t y = (Ok ctx, r)" by (cases z) auto
  then show "ms_state s = Authorized" by (rule prepare_submission_Ok)
  show "fst w' = fst w" using assms by (cases w) (auto simp: with_router_def Let_def split: prod.splits)
qed

lemma with_router_actor: "with_router call w = (x, w') \<Longrightarrow> fst w' = fst w"
  by (cases w) (auto simp: with_router_def Let_def split: prod.splits)

lemma refused_wsound: "actor_ok (fst w) \<Longrightarrow> wsound actor_ok (chain (on_actor (queue_error rid e) w) (\<lambda>_ w. (Ok x, w)))"
  by (rule chain_wsound [OF on_actor_sound [where f = "queue_error rid e", OF whole.queue_error_sound]]) auto

lemma begin_submission_sound:
  assumes "actor_ok (fst w)"
  shows "wsound actor_ok (begin_submission h rid worker job time nonce solution now w)"
proof (cases "ac_capacity (fst w) \<le> length (ac_pending_shares (fst w))")
  case True
  with refused_wsound [OF assms] show ?thesis by (simp add: begin_submission_def)
next
  case False
  show ?thesis
  proof (cases "JobId_new job")
    case (Err e)
    with False refused_wsound [of "(record_share_outcome OutcomeStale (fst w), snd w)"] record_ok(2) [OF assms] show ?thesis
      by (simp add: begin_submission_def)
  next
    case (Ok i)
    obtain x w' where x: "with_router (\<lambda>now jr. JobRouter_prepare_submission h now jr (ac_session (fst w)) worker i time nonce solution) w = (x, w')"
      by (rule prod.exhaust)
    obtain a sh where w': "w' = (a, sh)" by (rule prod.exhaust)
    have a: "a = fst w" using with_router_actor [OF x] w' by simp
    show ?thesis
    proof (cases x)
      case prepared: (Ok ctx)
      have "ms_state (ac_session (fst w)) = Authorized" by (rule prepared_authorized(1) [OF x [unfolded prepared]])
      then have "sound actor_ok (track_submission h rid i ctx now (fst w))" using False by (intro track_submission_sound assms) simp_all
      with False Ok x prepared w' a show ?thesis
        by (cases "track_submission h rid i ctx now (fst w)"; cases "fst (track_submission h rid i ctx now (fst w))")
          (simp_all add: begin_submission_def)
    next
      case (Err e)
      have s: "wsound actor_ok (chain (on_actor (queue_session_error rid d)
          (case share_outcome_for_session d of None \<Rightarrow> fst w | Some outcome \<Rightarrow> record_share_outcome outcome (fst w), sh)) (\<lambda>_ w. (Ok None, w)))" for d
        unfolding queue_session_error_def
        by (rule refused_wsound) (use assms record_ok(2) in \<open>simp split: option.splits\<close>)
      with False Ok x Err w' a actor_ok_base(2) [OF assms] show ?thesis by (cases e) (simp_all add: begin_submission_def)
    qed
  qed
qed

lemma subscribe_session:
  assumes "subscribe s al = (x, s', al')"
  shows "s' = s \<or> ms_state s = Connected \<and> ms_state s' = Subscribed \<and> ms_worker s' = ms_worker s"
  using assms by (auto simp: subscribe_def session_require_def ensure_def split: result.splits prod.splits if_splits)

lemma subscribed_ok:
  assumes "actor_ok a" "ms_state (ac_session a) = Connected" "ms_state s = Subscribed" "ms_worker s = ms_worker (ac_session a)"
  shows "actor_ok (a\<lparr>ac_session := s\<rparr>)"
proof -
  let ?b = "a\<lparr>ac_session := s\<rparr>"
  have "telemetry_ok ?b = telemetry_ok a" by (rule telemetry_frame) (simp_all add: assms)
  moreover have "slots_ok ?b = slots_ok a" "timing_ok ?b = timing_ok a" "front_open ?b = front_open a"
    by (simp_all add: slots_ok_def owned_slots_def used_slots_def timing_ok_def front_open_def cong: list.case_cong)
  moreover have "phase_ok ?b" using assms by (auto simp: actor_ok_def actor_mid_def phase_ok_def cleared_def)
  ultimately show ?thesis using assms(1) by (simp add: actor_ok_def actor_mid_def actor_base_def)
qed

lemma subscribe_request_sound:
  assumes "actor_ok (fst w)"
  shows "wsound actor_ok (subscribe_request rid w)"
proof -
  obtain x s al where x: "subscribe (ac_session (fst w)) (sh_allocator (interleave (snd w))) = (x, s, al)" by (rule prod_cases3)
  have "actor_ok ((fst w)\<lparr>ac_session := s\<rparr>)"
    using subscribe_session [OF x] assms by (auto intro: subscribed_ok)
  then show ?thesis
    using x by (cases x)
      (auto simp: subscribe_request_def Let_def intro!: on_actor_sound whole.queue_sound whole.queue_session_error_sound)
qed

lemma suggest_target_sound: "actor_ok (fst w) \<Longrightarrow> wsound actor_ok (suggest_target_request rid w)"
  unfolding suggest_target_request_def
  by (auto intro!: on_actor_sound whole.queue_error_sound whole.queue_sound chain_wsound [OF current_assigned_sound])

lemma handle_request_sound:
  assumes "actor_ok (fst w)"
  shows "wsound actor_ok (handle_request h request now w)"
  unfolding handle_request_def
proof (rule chain_wsound [OF require_open_sound [OF assms]])
  fix u w1 assume "(require_open (fst w), w) = (Ok u, w1)"
  note w1 = open_actor(1) [OF this]
  obtain x limiter where x: "admit (ac_rate_limiter (fst w1)) now = (x, limiter)" by (rule prod.exhaust)
  let ?w = "((fst w1)\<lparr>ac_rate_limiter := limiter\<rparr>, snd w1)"
  have ok: "actor_ok (fst ?w)"
    using assms w1 actor_ok_base(2) [OF assms]
    by (auto simp: same_core_def actor_base_def intro: whole.inv_frame [of "fst w"])
  have "wsound actor_ok (case request of
        Subscribe rid _ \<Rightarrow> chain (subscribe_request rid ?w) (\<lambda>_ w. (Ok None, w))
      | Authorize rid worker password \<Rightarrow> on_actor (begin_authorization rid worker password) ?w
      | SuggestTarget rid _ \<Rightarrow> chain (suggest_target_request rid ?w) (\<lambda>_ w. (Ok None, w))
      | ExtranonceSubscribe rid \<Rightarrow>
          chain (on_actor (queue_error rid (MinerError MinerOther ''extranonce subscription unsupported'' False)) ?w) (\<lambda>_ w. (Ok None, w))
      | MultiVersion _ _ \<Rightarrow> (Ok None, ?w)
      | Submit rid worker job_id time nonce_2 solution \<Rightarrow> begin_submission h rid worker job_id time nonce_2 solution now ?w)"
    using ok
    by (cases request)
      (auto intro!: chain_wsound [OF subscribe_request_sound] chain_wsound [OF suggest_target_sound] refused_wsound on_actor_sound
        begin_authorization_sound begin_submission_sound)
  with x ok refused_wsound [of ?w] show "wsound actor_ok (case admit (ac_rate_limiter (fst w1)) now of
         (Err _, limiter) \<Rightarrow>
           chain (on_actor (queue_error (Zip301Request_id request) (MinerError MinerOther ''rate limit exceeded'' True))
             ((fst w1)\<lparr>ac_rate_limiter := limiter\<rparr>, snd w1)) (\<lambda>_ w. (Ok None, w))
       | (Ok _, limiter) \<Rightarrow>
           (let w = ((fst w1)\<lparr>ac_rate_limiter := limiter\<rparr>, snd w1)
            in case request of
                 Subscribe rid _ \<Rightarrow> chain (subscribe_request rid w) (\<lambda>_ w. (Ok None, w))
               | Authorize rid worker password \<Rightarrow> on_actor (begin_authorization rid worker password) w
               | SuggestTarget rid _ \<Rightarrow> chain (suggest_target_request rid w) (\<lambda>_ w. (Ok None, w))
               | ExtranonceSubscribe rid \<Rightarrow>
                   chain (on_actor (queue_error rid (MinerError MinerOther ''extranonce subscription unsupported'' False)) w)
                     (\<lambda>_ w. (Ok None, w))
               | MultiVersion _ _ \<Rightarrow> (Ok None, w)
               | Submit rid worker job_id time nonce_2 solution \<Rightarrow>
                   begin_submission h rid worker job_id time nonce_2 solution now w))"
    by (cases x) (simp_all add: Let_def)
qed

lemma authorization_slot:
  assumes "actor_ok a" "ac_pending_authorization a = Some (expected, index)"
  obtains rid b where "take_response_id index (a\<lparr>ac_pending_authorization := None\<rparr>) = (Ok rid, b)" "actor_ok b"
    "ac_response_ids a ! index = Some rid" "ms_state (ac_session b) = Subscribed" "ac_pending_authorization b = None"
proof -
  let ?c = "a\<lparr>ac_pending_authorization := None\<rparr>"
  have parts: "actor_base a" "slots_ok a" "timing_ok a" "phase_ok a" "front_open a" using assms(1) by (simp_all add: actor_ok_def actor_mid_def)
  have shares: "ac_pending_shares a = []" "ms_state (ac_session a) = Subscribed" using parts(4) assms(2) by (simp_all add: phase_ok_def)
  then have used: "used_slots a = {index}" using parts(2) assms(2) by (simp add: slots_ok_def owned_slots_def List.map_filter_simps)
  moreover have "used_slots ?c = used_slots a" by (simp add: used_slots_def)
  ultimately have "index \<in> used_slots ?c" by simp
  then obtain rid where rid: "ac_response_ids ?c ! index = Some rid"
    "take_response_id index ?c = (Ok rid, ?c\<lparr>ac_response_ids := (ac_response_ids ?c)[index := None]\<rparr>)"
    "used_slots (?c\<lparr>ac_response_ids := (ac_response_ids ?c)[index := None]\<rparr>) = used_slots ?c - {index}" by (rule take_slot)
  let ?b = "?c\<lparr>ac_response_ids := (ac_response_ids ?c)[index := None]\<rparr>"
  have "owned_slots ?b = []" using shares by (simp add: owned_slots_def List.map_filter_simps)
  then have "slots_ok ?b" using rid(3) used \<open>used_slots ?c = used_slots a\<close> parts(2) by (simp add: slots_ok_def)
  moreover have "timing_ok ?b" "front_open ?b" using parts(3) shares by (simp_all add: timing_ok_def front_open_def)
  moreover have "phase_ok ?b" using parts(4) shares by (auto simp: phase_ok_def cleared_def)
  moreover have "telemetry_ok ?b = telemetry_ok a" by (rule telemetry_frame) simp_all
  ultimately have "actor_ok ?b" using parts(1) by (simp add: actor_ok_def actor_mid_def actor_base_def)
  with rid shares show thesis by (intro that [OF rid(2)]) simp_all
qed

lemma authorized_ok:
  assumes "actor_ok a" "ms_state (ac_session a) = Subscribed" "ac_pending_authorization a = None"
  shows "actor_ok (a\<lparr>ac_session := (ac_session a)\<lparr>ms_worker := Some w, ms_state := Authorized\<rparr>, ac_authentication_grant := Some g,
     ac_telemetry := ac_telemetry a @ [WorkerConnected w], ac_telemetry_connected := True\<rparr>)" (is "actor_ok ?b")
proof -
  have parts: "actor_base a" "slots_ok a" "timing_ok a" "phase_ok a" "front_open a" using assms(1) by (simp_all add: actor_ok_def actor_mid_def)
  have shares: "ac_pending_shares a = []" using parts(4) assms(2) by (cases "ac_pending_shares a") (auto simp: phase_ok_def)
  have state: "\<not> ac_closed a" "\<not> ac_telemetry_connected a" using parts(4) assms(2) by (auto simp: phase_ok_def cleared_def)
  then have "ac_telemetry a = []" using parts(1) by (auto simp: actor_base_def telemetry_ok_def)
  then have "telemetry_ok ?b" by (simp add: telemetry_ok_def)
  moreover have "slots_ok ?b = slots_ok a" "timing_ok ?b = timing_ok a" "front_open ?b = front_open a"
    by (simp_all add: slots_ok_def owned_slots_def used_slots_def timing_ok_def front_open_def cong: list.case_cong)
  moreover have "phase_ok ?b" using state shares assms(3) by (simp add: phase_ok_def)
  ultimately show ?thesis using parts by (simp add: actor_ok_def actor_mid_def actor_base_def)
qed

lemma grant_sound:
  assumes "actor_ok (fst w)" "ms_state (ac_session (fst w)) = Subscribed" "ac_pending_authorization (fst w) = None"
  shows "wsound actor_ok (grant_authorization hash rid grant w)"
  using authorized_ok [OF assms, of "ag_worker grant" grant] assms(2)
  by (auto simp: grant_authorization_def complete_authorization_def Let_def
      intro!: chain_wsound [OF on_actor_sound [where f = "queue (BooleanMessage rid True)", OF whole.queue_sound]] synchronize_sound)

lemma deny_sound:
  assumes "actor_ok a" "ms_state (ac_session a) = Subscribed"
  shows "sound actor_ok (deny_authorization rid a)"
proof -
  have parts: "actor_base a" "phase_ok a" using assms(1) by (simp_all add: actor_ok_def actor_mid_def)
  let ?b = "a\<lparr>ac_session := close_session (ac_session a)\<rparr>"
  have "\<not> ac_telemetry_connected a" "\<not> ac_closed a" using parts(2) assms(2) by (auto simp: phase_ok_def cleared_def)
  then have "ms_worker (ac_session a) = None" using parts(1) by (simp add: actor_base_def telemetry_ok_def)
  then have "telemetry_ok ?b = telemetry_ok a" by (intro telemetry_frame) simp_all
  then have b: "actor_base ?b" using parts(1) by (simp add: actor_base_def)
  have "sound actor_base (queue m ?b)" for m
    by (rule base.queue_sound [OF b])
  then have "sound actor_ok (queue_error rid (MinerError MinerUnauthorized ''unauthorized'' True) ?b)"
    unfolding queue_error_def by (rule chain_sound) (simp add: close_ok)
  with assms(2) show ?thesis by (simp add: deny_authorization_def reject_authorization_def session_require_def ensure_def)
qed

lemma complete_authorization_sound:
  assumes "actor_ok (fst w)"
  shows "wsound actor_ok (actor_complete_authorization hash ticket outcome w)"
proof (cases "ac_closed (fst w) \<or> ac_pending_authorization (fst w) = None")
  case True
  with actor_ok_base(2) [OF assms] show ?thesis
    by (auto simp: actor_complete_authorization_def require_open_def)
next
  case False
  then obtain expected index where p: "ac_pending_authorization (fst w) = Some (expected, index)" by auto
  let ?a = "(fst w)\<lparr>ac_pending_authorization := None\<rparr>"
  obtain rid b where b: "take_response_id index ?a = (Ok rid, b)" "actor_ok b" "ms_state (ac_session b) = Subscribed"
    and pending: "ac_pending_authorization b = None"
    using authorization_slot [OF assms p] by blast
  have "telemetry_ok ?a = telemetry_ok (fst w)" by (rule telemetry_frame) simp_all
  then have base: "actor_base ?a" using actor_ok_base(2) [OF assms] by (simp add: actor_base_def)
  have "wsound actor_ok (case outcome of
        Ok grant \<Rightarrow> if aw_canonical_login (ag_worker grant) = at_worker ticket then grant_authorization hash rid grant (b, snd w)
          else on_actor (deny_authorization rid) (b, snd w)
      | Err Denied \<Rightarrow> on_actor (deny_authorization rid) (b, snd w)
      | Err AuthenticationUnavailable \<Rightarrow> on_actor (queue_error rid (MinerError MinerOther ''service unavailable'' True)) (b, snd w))"
    using b pending
    by (auto split: result.splits authentication_error.splits intro!: grant_sound on_actor_sound deny_sound whole.queue_error_sound)
  with False p b base show ?thesis
    by (auto simp: actor_complete_authorization_def require_open_def Let_def on_actor_def close_ok whole.inv_base split: prod.splits)
qed

end
