(* ===== verification/Actor_Properties.thy ===== *)
theory Actor_Properties
  imports Actor_Invariants
begin

text \<open>
  The connection actor under its stream driver as a state machine, and its properties: bounded and cleared state, the
  telemetry protocol, one answer per request, and variable difficulty that sees shares in the order of their admission.
\<close>

section \<open>The state machine\<close>

text \<open>The driver closes the actor after any error (\<open>AcceptedStreamDriver::run\<close>).\<close>

definition settle :: "('e, 'a) result \<times> world \<Rightarrow> world" where
  "settle out = (case out of (Ok _, w) \<Rightarrow> w | (Err _, w) \<Rightarrow> (transport_failed (fst w), snd w))"

text \<open>The values of the numbers in a subscription are ignored by the actor, so their type does not matter.\<close>

inductive actor_step :: "(bytes \<Rightarrow> bytes) \<Rightarrow> world \<Rightarrow> world \<Rightarrow> bool" for h where
  request: "actor_step h w (settle (handle_request h (request :: unit zip301_request) now w))"
| authorization: "actor_step h w (settle (actor_complete_authorization hash ticket outcome w))"
| submission: "actor_step h w (settle (on_actor (complete_submission share_ticket result) w))"
| update: "actor_step h w (settle (apply_job_update hash u w))"
| reconcile: "actor_step h w (settle (reconcile_jobs hash w))"
| tick: "actor_step h w (settle (on_actor (tick_vardiff now) w))"
| pop: "actor_step h w (settle (on_actor (pop_outbound_frame encode) w))"
| invalidate: "actor_step h w (invalidate_authorization (fst w), snd w)"
| fail: "actor_step h w (transport_failed (fst w), snd w)"

definition actor_start :: "world \<Rightarrow> bool" where
  "actor_start w \<longleftrightarrow> (\<exists>connections outbound backend jobs limits session_id cfg policy now.
     ConnectionLimits_new connections outbound backend jobs = Ok limits \<and> ec_limits cfg = limits \<and>
     ConnectionActor_new session_id cfg policy now = Ok (fst w))"

lemma actor_start_ok:
  assumes "actor_start w"
  shows "actor_ok (fst w)"
proof -
  from assms obtain m q b j cfg sid policy now where l: "ConnectionLimits_new m q b j = Ok (ec_limits cfg)"
    and new: "ConnectionActor_new sid cfg policy now = Ok (fst w)" by (auto simp: actor_start_def)
  from new obtain s where "MiningSession_new sid (cl_maximum_announced_jobs (ec_limits cfg)) = Ok s"
    and a: "fst w = \<lparr>ac_config = cfg, ac_policy = policy, ac_session = s,
         ac_rate_limiter = RequestRateLimiter_new (ec_request_rate cfg) now, ac_vardiff = None, ac_assignments = [],
         ac_advertised_lineage = [], ac_outbound = [], ac_response_ids = [], ac_pending_authorization = None,
         ac_authentication_grant = None, ac_pending_shares = [], ac_timing_order = [], ac_next_ticket = 1,
         ac_telemetry = [], ac_telemetry_connected = False, ac_closed = False\<rparr>"
    by (auto simp: ConnectionActor_new_def and_then_eq_Ok)
  then have s: "ms_state s = Connected" "ms_worker s = None" by (auto simp: MiningSession_new_def split: if_splits)
  show ?thesis
    using ConnectionLimits_bounds [OF l] s unfolding a
    by (simp add: actor_ok_def actor_mid_def actor_base_def slots_ok_def timing_ok_def front_open_def phase_ok_def telemetry_ok_def
        owned_slots_def used_slots_def List.map_filter_simps)
qed

lemma settle_ok: "wsound actor_ok out \<Longrightarrow> actor_ok (fst (settle out))"
  by (cases out; cases "fst out") (auto simp: settle_def transport_failed_def close_ok)

lemma tick_sound: "actor_ok a \<Longrightarrow> sound actor_ok (tick_vardiff now a)"
proof -
  assume ok: "actor_ok a"
  have "actor_ok (a\<lparr>ac_vardiff := v\<rparr>)" for v
    by (rule whole.inv_frame [OF ok]) (use actor_ok_base(2) [OF ok] in \<open>simp_all add: same_core_def actor_base_def\<close>)
  with ok show ?thesis by (auto simp: tick_vardiff_def require_open_def actor_ok_base split: option.splits prod.splits result.splits)
qed

lemma pop_sound: "actor_ok a \<Longrightarrow> sound actor_ok (pop_outbound_frame encode a)"
proof -
  assume ok: "actor_ok a"
  have "actor_ok (a\<lparr>ac_outbound := rest\<rparr>)" if "ac_outbound a = m # rest" for m rest
    by (rule whole.outbound_ok [OF ok]) (use actor_ok_base(2) [OF ok] that in \<open>simp add: actor_base_def\<close>)
  with ok show ?thesis
    by (cases "ac_outbound a"; cases "encode (hd (ac_outbound a))") (auto simp: pop_outbound_frame_def pop_outbound_def actor_ok_base)
qed

interpretation actor: invariant_system actor_start "actor_step h" "\<lambda>w. actor_ok (fst w)" for h
proof
  fix w w' assume "actor_step h w w'" "actor_ok (fst w)"
  then show "actor_ok (fst w')"
    by (cases rule: actor_step.cases)
      (auto simp: transport_failed_def invalidate_authorization_def close_ok actor_ok_base
        intro!: settle_ok handle_request_sound complete_authorization_sound apply_job_update_sound reconcile_sound
          on_actor_sound complete_submission_sound tick_sound pop_sound)
qed (rule actor_start_ok)

lemmas reach_actor = actor.reach_inv

section \<open>Draining\<close>

text \<open>What the loop is meant to do: the shares whose results are known, up to the oldest unknown one, leave in the order of
  their admission and each sample that counts is observed once.\<close>

definition result_known :: "(u64 \<times> pending_share_state) list \<Rightarrow> u64 \<Rightarrow> bool" where
  "result_known pending t \<longleftrightarrow> Option.bind (map_of pending t) ps_vardiff_sample \<noteq> None"

definition observe_sample :: "(u64 \<times> pending_share_state) list \<Rightarrow> u64 \<Rightarrow> vardiff_controller option \<Rightarrow> vardiff_controller option" where
  "observe_sample pending t v =
     (case map_of pending t of
        None \<Rightarrow> v
      | Some p \<Rightarrow>
          if ps_vardiff_sample p = Some True
          then map_option (\<lambda>c. snd (observe_share c (ps_target p) (ps_admitted_at_ms p))) v else v)"

lemma observe_completed_cases:
  assumes "observe_completed sample p a = (x, b)" "map_of pending t = Some p" "ps_vardiff_sample p = Some sample"
  shows "b = a\<lparr>ac_vardiff := observe_sample pending t (ac_vardiff a)\<rparr> \<and> (x = Ok () \<or> (\<exists>e. x = Err (ActorVardiff e)))"
  using assms by (auto simp: observe_completed_def observe_sample_def split: if_splits option.splits prod.splits result.splits)

lemma delete_lookup:
  assumes "t \<notin> set ts"
  shows "takeWhile (result_known (AList.delete t pending)) ts = takeWhile (result_known pending) ts"
    and "fold (observe_sample (AList.delete t pending)) (takeWhile P ts) v = fold (observe_sample pending) (takeWhile P ts) v"
proof -
  have same: "map_of (AList.delete t pending) u = map_of pending u" if "u \<in> set ts" for u
    using assms that by (auto simp: AList.delete_conv')
  show "takeWhile (result_known (AList.delete t pending)) ts = takeWhile (result_known pending) ts"
    by (rule takeWhile_cong) (simp_all add: result_known_def same)
  show "fold (observe_sample (AList.delete t pending)) (takeWhile P ts) v = fold (observe_sample pending) (takeWhile P ts) v"
    by (rule fold_cong) (auto simp: observe_sample_def same dest!: set_takeWhileD)
qed

lemma drain_order:
  "distinct (ac_timing_order a) \<Longrightarrow> drain_completed_timing a = (x, b) \<Longrightarrow>
     (let ts = takeWhile (result_known (ac_pending_shares a)) (ac_timing_order a)
      in case x of
           Ok _ \<Rightarrow> b = a\<lparr>ac_timing_order := drop (length ts) (ac_timing_order a),
               ac_pending_shares := filter (\<lambda>(t, _). t \<notin> set ts) (ac_pending_shares a),
               ac_vardiff := fold (observe_sample (ac_pending_shares a)) ts (ac_vardiff a)\<rparr>
         | Err e \<Rightarrow> \<exists>v. e = ActorVardiff v)"
proof (induction a arbitrary: x b rule: drain_completed_timing.induct)
  case (1 a)
  show ?case
  proof (cases "\<exists>t rest. ac_timing_order a = t # rest \<and> result_known (ac_pending_shares a) t")
    case False
    then have "takeWhile (result_known (ac_pending_shares a)) (ac_timing_order a) = []" "drain_completed_timing a = (Ok (), a)"
      by (cases "ac_timing_order a"; simp add: drain_completed_timing.simps [of a] result_known_def)+
    with "1.prems" show ?thesis by (auto simp: Let_def)
  next
    case True
    then obtain t rest p sample where t: "ac_timing_order a = t # rest" "map_of (ac_pending_shares a) t = Some p"
      "ps_vardiff_sample p = Some sample" "result_known (ac_pending_shares a) t"
      by (auto simp: result_known_def bind_eq_Some_conv)
    let ?a = "a\<lparr>ac_pending_shares := AList.delete t (ac_pending_shares a), ac_timing_order := rest\<rparr>"
    obtain y c where y: "observe_completed sample p ?a = (y, c)" by (rule prod.exhaust)
    note c = observe_completed_cases [OF y t(2,3)]
    have step: "drain_completed_timing a = (case y of Err e \<Rightarrow> (Err e, c) | Ok _ \<Rightarrow> drain_completed_timing c)"
      by (subst drain_completed_timing.simps) (simp add: t y split: result.splits)
    have fresh: "t \<notin> set rest" "distinct rest" using "1.prems"(1) t(1) by simp_all
    show ?thesis
    proof (cases y)
      case (Err e)
      with c step "1.prems"(2) show ?thesis by (auto simp: Let_def)
    next
      case (Ok u)
      define ts where "ts = takeWhile (result_known (ac_pending_shares a)) rest"
      have out: "drain_completed_timing c = (x, b)" "distinct (ac_timing_order c)"
        using step Ok "1.prems"(2) c fresh(2) by simp_all
      have "observe_completed sample p ?a = (Ok u, c)" using y Ok by simp
      note ih = "1.IH" [OF t(1) _ t(2) this [symmetric] _ out(2,1)]
      have "Option.bind (map_of (ac_pending_shares a) t) ps_vardiff_sample = Some sample" using t(2,3) by simp
      from ih [OF this] have "case x of Ok _ \<Rightarrow> b = c\<lparr>ac_timing_order := drop (length ts) rest,
               ac_pending_shares := filter (\<lambda>(t, _). t \<notin> set ts) (AList.delete t (ac_pending_shares a)),
               ac_vardiff := fold (observe_sample (ac_pending_shares a)) ts (ac_vardiff c)\<rparr>
         | Err e \<Rightarrow> \<exists>v. e = ActorVardiff v"
        using c by (cases x) (simp_all add: Let_def delete_lookup [OF fresh(1)] ts_def)
      moreover have "filter (\<lambda>(u, _). u \<notin> set ts) (AList.delete t (ac_pending_shares a)) =
          filter (\<lambda>(u, _). u \<notin> set (t # ts)) (ac_pending_shares a)"
        by (auto simp: AList.delete_eq intro: filter_cong)
      moreover have "takeWhile (result_known (ac_pending_shares a)) (ac_timing_order a) = t # ts" by (simp add: t ts_def)
      ultimately show ?thesis using c by (cases x) (simp_all add: t(1) Let_def)
    qed
  qed
qed

section \<open>An example\<close>

text \<open>A miner subscribes, is authorized, receives the current job and submits one share.\<close>

definition example_edge :: edge_config where
  "example_edge = \<lparr>ec_limits = \<lparr>cl_maximum_connections = 4, cl_outbound_queue_capacity = 8, cl_backend_queue_capacity = 4,
       cl_maximum_announced_jobs = 3\<rparr>,
     ec_request_rate = \<lparr>maximum_requests = 10, rl_window_ms = 1000\<rparr>, ec_idle_timeout = 10, ec_frame_timeout = 10,
     ec_write_timeout = 10, ec_authorization_timeout = 10, ec_submission_timeout = 10\<rparr>"

definition example_policy :: mining_policy where
  "example_policy = \<lparr>mp_vardiff = \<lparr>sample_intervals = 8, sample_window_ms = 60000, hysteresis_bps = 1000,
       maximum_adjustment_factor = 2, operator_easiest = ShareTarget (replicate 32 9)\<rparr>,
     mp_initial_target = ShareTarget (replicate 32 9)\<rparr>"

definition example_limiter :: "u32 \<Rightarrow> u64 \<Rightarrow> request_rate_limiter" where
  "example_limiter used now = \<lparr>rl_policy = ec_request_rate example_edge, rl_window_start_ms = 0, rl_used = used, rl_last_now_ms = now\<rparr>"

definition example_actor :: connection_actor where
  "example_actor = \<lparr>ac_config = example_edge, ac_policy = example_policy, ac_session = example_session,
     ac_rate_limiter = example_limiter 0 0, ac_vardiff = None, ac_assignments = [],
     ac_advertised_lineage = [], ac_outbound = [], ac_response_ids = [], ac_pending_authorization = None,
     ac_authentication_grant = None, ac_pending_shares = [], ac_timing_order = [], ac_next_ticket = 1,
     ac_telemetry = [], ac_telemetry_connected = False, ac_closed = False\<rparr>"

text \<open>The other connections put the router back into its first state before every call.\<close>

definition example_shared :: "job_router \<Rightarrow> nonce_prefix_allocator \<Rightarrow> nat \<Rightarrow> shared" where
  "example_shared jr al n = \<lparr>sh_router = jr, sh_allocator = al, sh_others = \<lambda>_ (_, al). (example_router, al),
     sh_clock = \<lambda>_. 200000000, sh_calls = n\<rparr>"

definition example_world :: world where
  "example_world = (example_actor, example_shared example_router (NoncePrefixAllocator_new FourByte (NonceNamespaceLease 1)) 0)"

abbreviation subscribe_example :: "unit zip301_request" where
  "subscribe_example \<equiv> Subscribe (IdNumber 1) []"

abbreviation authorize_example :: "unit zip301_request" where
  "authorize_example \<equiv> Authorize (IdNumber 2) ''rig'' ''x''"

abbreviation submit_example :: "unit zip301_request" where
  "submit_example \<equiv> Submit (IdNumber 3) ''rig'' (replicate 32 1) [1, 0, 0, 0] (TwentyEight (replicate 28 0)) []"

definition subscribed_actor :: connection_actor where
  "subscribed_actor = example_actor\<lparr>ac_session := example_session\<lparr>ms_nonce_prefix := Some (Four [1, 0, 0, 0]), ms_state := Subscribed\<rparr>,
     ac_rate_limiter := example_limiter 1 1, ac_outbound := [SubscribedMessage (IdNumber 1) (Four [1, 0, 0, 0])]\<rparr>"

definition authorizing_actor :: connection_actor where
  "authorizing_actor = subscribed_actor\<lparr>ac_rate_limiter := example_limiter 2 2, ac_response_ids := [Some (IdNumber 2)],
     ac_pending_authorization := Some (1, 0), ac_next_ticket := 2\<rparr>"

definition example_grant :: authentication_grant where
  "example_grant = \<lparr>ag_worker = \<lparr>aw_account_id = 7, aw_worker_id = 9, aw_canonical_login = ''rig'', aw_attribution_login = ''rig''\<rparr>,
     ag_credential_id = 3\<rparr>"

definition authorized_actor :: connection_actor where
  "authorized_actor = authorizing_actor\<lparr>ac_session := example_authorized, ac_pending_authorization := None, ac_response_ids := [None],
     ac_authentication_grant := Some example_grant, ac_telemetry := [WorkerConnected (ag_worker example_grant)],
     ac_telemetry_connected := True,
     ac_vardiff := Some \<lparr>config = mp_vardiff example_policy, binding = example_binding, window_start_ms = None,
       observed_intervals = 0, last_now_ms = None\<rparr>,
     ac_assignments := [(example_id, example_binding)], ac_advertised_lineage := [example_id],
     ac_outbound := [SubscribedMessage (IdNumber 1) (Four [1, 0, 0, 0]), BooleanMessage (IdNumber 2) True,
       SetTarget (TargetBe (replicate 32 9)),
       Notify \<lparr>zn_job_id = replicate 32 1, zn_header_input = jd_header_input example_descriptor, zn_clean_jobs = True\<rparr>]\<rparr>"

lemma example_world_start: "actor_start example_world"
proof -
  have "ConnectionLimits_new 4 8 4 3 = Ok (ec_limits example_edge)"
    by (simp add: ConnectionLimits_new_def validate_capacity_def MAXIMUM_CONNECTIONS_def MAXIMUM_QUEUE_CAPACITY_def
        MAXIMUM_ANNOUNCED_JOBS_def example_edge_def try_all.simps ensure_def)
  moreover have "ConnectionActor_new 5 example_edge example_policy 0 = Ok (fst example_world)"
    by (simp add: ConnectionActor_new_def MiningSession_new_def example_edge_def uuid_is_nil_def example_world_def example_actor_def
        example_session_def example_limiter_def RequestRateLimiter_new_def)
  ultimately show ?thesis unfolding actor_start_def by blast
qed

lemma example_interleave: "interleave (example_shared jr al n) = example_shared example_router al (Suc n)"
  by (simp add: interleave_def example_shared_def)

lemma example_admit:
  "admit (example_limiter 0 0) 1 = (Ok (), example_limiter 1 1)" "admit (example_limiter 1 1) 2 = (Ok (), example_limiter 2 2)"
  "admit (example_limiter 2 2) 3 = (Ok (), example_limiter 3 3)"
  by (simp_all add: admit_def example_limiter_def example_edge_def checked_sub_def checked_add_def Let_def word_le_nat_alt)

lemmas example_send = on_actor_def queue_def ensure_outbound_capacity_def Let_def

lemma example_subscribed:
  "\<exists>al n. handle_request h subscribe_example 1 example_world = (Ok None, subscribed_actor, example_shared example_router al n)"
proof -
  obtain al where "subscribe example_session (NoncePrefixAllocator_new FourByte (NonceNamespaceLease 1)) =
      (Ok (Four [1, 0, 0, 0]), example_session\<lparr>ms_nonce_prefix := Some (Four [1, 0, 0, 0]), ms_state := Subscribed\<rparr>, al)"
    by (simp add: subscribe_def session_require_def allocate_def NoncePrefixAllocator_new_def capacity_def domain_byte_def
        example_session_def to_le_bytes_def ensure_def)
  then show ?thesis
    by (simp add: handle_request_def require_open_def example_world_def example_actor_def example_admit subscribe_request_def
       example_interleave)
      (simp add: example_shared_def example_send subscribed_actor_def example_actor_def example_edge_def)
qed

lemma example_authorizing:
  "handle_request h authorize_example 2 (subscribed_actor, sh) =
     (Ok (Some (Authenticate \<lparr>at_session_id = 5, at_ticket = 1, at_worker = ''rig'', at_password = ''x''\<rparr>)), authorizing_actor, sh)"
  by (simp add: handle_request_def require_open_def subscribed_actor_def example_actor_def example_admit on_actor_def
      begin_authorization_def example_session_def store_response_id_def Let_def allocate_ticket_def checked_add_def example_edge_def
      authorizing_actor_def)

lemma example_time: "timeline_now_ms example_timeline 200000000 = Ok 200"
  by (simp add: timeline_now_ms_def instant_ms_def example_timeline_def Let_def)

lemma example_with_router:
  "with_router call (a, example_shared jr al n) =
     (fst (call 200000000 example_router), a, example_shared (snd (call 200000000 example_router)) al (Suc n))"
  by (cases "call 200000000 example_router") (simp add: with_router_def example_interleave Let_def, simp add: example_shared_def)

lemma example_answers:
  "fst (JobRouter_current_generation 200000000 example_router) = Ok (Some example_generation)"
  "fst (retained_job_ids 200000000 example_router) = Ok [example_id]"
  "fst (JobRouter_winner_recovery_job_ids 200000000 example_router) = Ok [example_id]"
  "fst (JobRouter_prepare_submission h 200000000 example_router example_authorized ''rig'' example_id [1, 0, 0, 0]
     (TwentyEight (replicate 28 0)) []) = Ok example_context"
  subgoal by (simp add: JobRouter_current_generation_def example_router_with_def locked_registry_def example_time
     current_generation_def example_registry_eq advance_clock_def check_clock_def ensure_def expire_at_def expire_entry_def map_ran_def
     option_filter_def entry_is_some_and_def accepting_def Let_def)
  subgoal by (simp add: retained_job_ids_def example_router_with_def locked_registry_def example_time GenerationRegistry_admissible_job_ids_def
     example_registry_eq advance_clock_def check_clock_def ensure_def expire_at_def expire_entry_def map_ran_def
     option_filter_def entry_is_some_and_def accepting_def retained_at_watermark_def Let_def)
  subgoal by (simp add: JobRouter_winner_recovery_job_ids_def example_router_with_def locked_registry_def example_time
     winner_recovery_job_ids_def example_registry_eq advance_clock_def check_clock_def ensure_def expire_at_def expire_entry_def map_ran_def
     option_filter_def entry_is_some_and_def accepting_def Let_def prune_winner_recovery_def current_parent_def)
  subgoal using example_prepares [of h] by (auto simp: JobRouter_prepare_submission_def example_router_with_def locked_registry_def example_time
     split: prod.splits)
  done

lemma example_assign:
  "VardiffController_new (mp_vardiff example_policy) (ShareTarget (replicate 32 7)) (ShareTarget (replicate 32 8))
     (mp_initial_target example_policy) 1 =
   Ok \<lparr>config = mp_vardiff example_policy, binding = example_binding, window_start_ms = None, observed_intervals = 0, last_now_ms = None\<rparr>"
proof -
  have "TargetBounds_new (ShareTarget (replicate 32 7)) (ShareTarget (replicate 32 8)) (ShareTarget (replicate 32 9)) = Ok example_bounds"
    and "TargetBounds_clamp example_bounds (ShareTarget (replicate 32 9)) = ShareTarget (replicate 32 9)"
    and "TargetBinding_new 1 (ShareTarget (replicate 32 9)) example_bounds = Ok example_binding"
    by code_simp+
  then show ?thesis by (simp add: VardiffController_new_def example_policy_def)
qed

definition granted_actor :: connection_actor where
  "granted_actor = authorizing_actor\<lparr>ac_session := example_authorized\<lparr>ms_announced_jobs := []\<rparr>, ac_pending_authorization := None,
     ac_response_ids := [None], ac_authentication_grant := Some example_grant,
     ac_telemetry := [WorkerConnected (ag_worker example_grant)], ac_telemetry_connected := True,
     ac_outbound := [SubscribedMessage (IdNumber 1) (Four [1, 0, 0, 0]), BooleanMessage (IdNumber 2) True]\<rparr>"

lemma example_authorized_state: "ms_state example_authorized = Authorized"
  by (simp add: example_authorized_def)

lemma granted_fields:
  "\<not> ac_closed granted_actor" "ms_state (ac_session granted_actor) = Authorized"
  "reconcile_with hash [example_id] [example_id] granted_actor = granted_actor" "granted_actor\<lparr>ac_advertised_lineage := []\<rparr> = granted_actor"
  "ac_advertised_lineage granted_actor = []" "ac_assignments granted_actor = []" "ac_vardiff granted_actor = None" "ac_policy granted_actor = example_policy"
  "length (ac_outbound granted_actor) = 2" "ac_config granted_actor = example_edge" "ac_session granted_actor = example_authorized\<lparr>ms_announced_jobs := []\<rparr>"
  by (simp_all add: granted_actor_def authorizing_actor_def subscribed_actor_def example_actor_def reconcile_with_def
      example_authorized_def example_session_def retain_winner_recovery_jobs_def Let_def)

lemma example_announce_job:
  "announce_job (example_authorized\<lparr>ms_announced_jobs := []\<rparr>) \<lparr>ja_generation_id = example_id, ja_target = example_binding\<rparr> =
     (Ok (), example_authorized)"
  by (simp add: announce_job_def session_require_def ensure_def example_authorized_def example_session_def find_assignment_def)

lemma example_assignment: "JobAssignment_new example_generation example_binding = Ok \<lparr>ja_generation_id = example_id, ja_target = example_binding\<rparr>"
  by (simp add: JobAssignment_new_def example_generation_def example_binding_def example_bounds_def)

lemma example_ids: "bg_id example_generation = example_id" "bg_wcash_network_target example_generation = ShareTarget (replicate 32 7)"
  "bg_zcash_network_target example_generation = ShareTarget (replicate 32 8)" "bg_descriptor example_generation = example_descriptor"
  by (simp_all add: example_generation_def)

lemma example_announced:
  "\<exists>jr n. synchronize_current_job hash (granted_actor, example_shared jr' al n') = (Ok (), authorized_actor, example_shared jr al n)"
proof -
  have "\<exists>jr n. synchronize_current_job hash (granted_actor, example_shared jr' al n') =
      announce_assigned example_generation True (granted_actor, example_shared jr al n)"
    by (auto simp: synchronize_current_job_def router_call_def example_with_router example_answers announce_generation_def reconcile_jobs_def
        require_open_def granted_fields example_authorized_state)
  moreover have "announce_assigned example_generation True (granted_actor, sh) = (Ok (), authorized_actor, sh)" for sh
    by (simp add: announce_assigned_def on_actor_def assign_binding_def granted_fields example_ids example_assign
        ensure_outbound_capacity_def example_edge_def record_announcement_def example_assignment example_announce_job)
      (simp add: authorized_actor_def granted_actor_def authorizing_actor_def subscribed_actor_def example_actor_def
        example_binding_def ShareTarget_to_zip301_def JobId_to_protocol_def example_assign)
  ultimately show ?thesis by fastforce
qed

lemma example_authorized_step:
  "\<exists>jr n. actor_complete_authorization hash \<lparr>at_session_id = 5, at_ticket = 1, at_worker = ''rig'', at_password = ''x''\<rparr> (Ok example_grant)
     (authorizing_actor, example_shared jr' al n') = (Ok (), authorized_actor, example_shared jr al n)"
proof -
  have "actor_complete_authorization hash \<lparr>at_session_id = 5, at_ticket = 1, at_worker = ''rig'', at_password = ''x''\<rparr> (Ok example_grant)
      (authorizing_actor, sh) = synchronize_current_job hash (granted_actor, sh)" for sh
    by (simp add: actor_complete_authorization_def require_open_def authorizing_actor_def subscribed_actor_def example_actor_def
        on_actor_def take_response_id_def example_session_def example_grant_def grant_authorization_def complete_authorization_def
        example_send)
      (simp add: granted_actor_def authorizing_actor_def subscribed_actor_def example_actor_def example_authorized_def
        example_session_def example_grant_def example_edge_def)
  then show ?thesis using example_announced by simp
qed

text \<open>The share the connection waits for.\<close>

definition submitted_share :: pending_share_state where
  "submitted_share = \<lparr>ps_response_id = Some 0, ps_target = example_binding, ps_admitted_at_ms = 3, ps_vardiff_sample = None,
     ps_winner_recovery = False, ps_expected_job_id = replicate 32 1, ps_expected_share_id = replicate 32 1,
     ps_expected_attribution_id = replicate 32 1\<rparr>"

definition submitted_actor :: connection_actor where
  "submitted_actor = authorized_actor\<lparr>ac_rate_limiter := example_limiter 3 3, ac_response_ids := [Some (IdNumber 3)], ac_next_ticket := 3,
     ac_pending_shares := [(2, submitted_share)], ac_timing_order := [2]\<rparr>"

lemma authorized_fields:
  "ac_session authorized_actor = example_authorized" "ac_assignments authorized_actor = [(example_id, example_binding)]"
  "ac_response_ids authorized_actor = [None]" "ac_next_ticket authorized_actor = 2" "ac_pending_shares authorized_actor = []"
  "ac_timing_order authorized_actor = []" "ac_config authorized_actor = example_edge" "\<not> ac_closed authorized_actor"
  "ac_rate_limiter authorized_actor = example_limiter 2 2"
  by (simp_all add: authorized_actor_def authorizing_actor_def subscribed_actor_def example_actor_def)

lemma example_context_fields:
  "sc_admission example_context = \<lparr>ga_generation = example_generation, ga_counter = 0, ga_role = Ordinary\<rparr>"
  "announced_target_binding example_authorized example_id = Some example_binding" "ms_id example_authorized = 5"
  by (simp_all add: example_context_def announced_target_binding_def find_assignment_def example_authorized_def example_session_def)

lemma example_tracked:
  "track_submission example_sha (IdNumber 3) example_id example_context 3 (authorized_actor\<lparr>ac_rate_limiter := example_limiter 3 3\<rparr>) =
     (Ok (Some (SubmitAction \<lparr>st_session_id = 5, st_ticket = 2\<rparr> example_context)), submitted_actor)"
  by (simp add: track_submission_def authorized_fields example_context_fields example_attribution GenerationAdmission_is_winner_recovery_def
      store_response_id_def allocate_ticket_def checked_add_def Let_def)
    (simp add: submitted_actor_def submitted_share_def GenerationAdmission_job_id_def JobId_to_protocol_def canonical_share_id_def
      example_sha_def example_ids)

lemma example_submitted:
  "\<exists>jr n. handle_request example_sha submit_example 3 (authorized_actor, example_shared jr' al n') =
     (Ok (Some (SubmitAction \<lparr>st_session_id = 5, st_ticket = 2\<rparr> example_context)), submitted_actor, example_shared jr al n)"
  by (auto simp: handle_request_def require_open_def authorized_fields example_admit Let_def begin_submission_def example_edge_def
      JobId_new_def example_with_router example_answers example_tracked)

lemma run_steps:
  assumes "reach actor_start (actor_step h) w"
  shows "handle_request h (request :: unit zip301_request) now w = (Ok x, w') \<Longrightarrow> reach actor_start (actor_step h) w'"
    and "actor_complete_authorization hash ticket outcome w = (Ok y, w') \<Longrightarrow> reach actor_start (actor_step h) w'"
proof -
  have step: "actor_step h w t \<Longrightarrow> reach actor_start (actor_step h) t" for t using assms by (rule reach.step)
  show "handle_request h request now w = (Ok x, w') \<Longrightarrow> reach actor_start (actor_step h) w'"
    using step [OF actor_step.request [of h w request now]] by (simp add: settle_def)
  show "actor_complete_authorization hash ticket outcome w = (Ok y, w') \<Longrightarrow> reach actor_start (actor_step h) w'"
    using step [OF actor_step.authorization [of h w hash ticket outcome]] by (simp add: settle_def)
qed

lemma submitted_reach:
  obtains w sh where "reach actor_start (actor_step example_sha) w"
    "handle_request example_sha submit_example 3 w =
       (Ok (Some (SubmitAction \<lparr>st_session_id = 5, st_ticket = 2\<rparr> example_context)), submitted_actor, sh)"
    "reach actor_start (actor_step example_sha) (submitted_actor, sh)" "fst w = authorized_actor"
proof -
  let ?r = "reach actor_start (actor_step example_sha)"
  obtain al n where "handle_request example_sha subscribe_example 1 example_world = (Ok None, subscribed_actor, example_shared example_router al n)"
    using example_subscribed by blast
  with reach.start [where start = actor_start, OF example_world_start] have "?r (subscribed_actor, example_shared example_router al n)"
    by (rule run_steps(1))
  then have "?r (authorizing_actor, example_shared example_router al n)" using example_authorizing by (rule run_steps(1))
  moreover obtain jr m where "actor_complete_authorization (\<lambda>_. 0) \<lparr>at_session_id = 5, at_ticket = 1, at_worker = ''rig'', at_password = ''x''\<rparr>
      (Ok example_grant) (authorizing_actor, example_shared example_router al n) = (Ok (), authorized_actor, example_shared jr al m)"
    using example_authorized_step by blast
  ultimately have w: "?r (authorized_actor, example_shared jr al m)" by (rule run_steps(2))
  moreover obtain jr' m' where s: "handle_request example_sha submit_example 3 (authorized_actor, example_shared jr al m) =
      (Ok (Some (SubmitAction \<lparr>st_session_id = 5, st_ticket = 2\<rparr> example_context)), submitted_actor, example_shared jr' al m')"
    using example_submitted by blast
  ultimately have "?r (submitted_actor, example_shared jr' al m')" by (rule run_steps(1))
  from that [OF w s this fst_conv] show thesis .
qed

lemma submitted_fields:
  "ac_capacity submitted_actor = 8" "length (ac_outbound submitted_actor) = 4" "ac_telemetry submitted_actor = [WorkerConnected (ag_worker example_grant)]"
  "ms_id (ac_session submitted_actor) = 5" "\<not> ac_closed submitted_actor"
  by (simp_all add: submitted_actor_def authorized_fields example_edge_def example_context_fields) (simp_all add: authorized_actor_def)

section \<open>Properties\<close>

text \<open>C17 A connection is bounded and closes completely: in every state its driver can reach, the outbound queue, the stored
  response identifiers and the pending shares stay within the configured capacity, which is at most 4096, and a
  closed actor holds no assignment, authorization, share, response identifier or session right.\<close>

theorem actor_bounded:
  assumes "reach actor_start (actor_step h) w"
  shows "length (ac_outbound (fst w)) \<le> ac_capacity (fst w) \<and> length (ac_response_ids (fst w)) \<le> ac_capacity (fst w) \<and>
    length (ac_pending_shares (fst w)) \<le> ac_capacity (fst w) \<and> ac_capacity (fst w) \<le> 4096 \<and>
    (ac_closed (fst w) \<longrightarrow> ms_state (ac_session (fst w)) = SessionClosed \<and> ac_assignments (fst w) = [] \<and>
       ac_pending_authorization (fst w) = None \<and> ac_authentication_grant (fst w) = None \<and> ac_pending_shares (fst w) = [] \<and>
       ac_timing_order (fst w) = [] \<and> ac_response_ids (fst w) = [])"
  using reach_actor [OF assms]
  by (simp add: actor_ok_def actor_mid_def actor_base_def slots_ok_def timing_ok_def phase_ok_def cleared_def)

theorem actor_bounded_witness:
  "length (ac_outbound submitted_actor) \<le> ac_capacity submitted_actor \<and> length (ac_response_ids submitted_actor) \<le> ac_capacity submitted_actor \<and>
   length (ac_pending_shares submitted_actor) \<le> ac_capacity submitted_actor \<and> ac_capacity submitted_actor \<le> 4096"
proof -
  obtain sh where "reach actor_start (actor_step example_sha) (submitted_actor, sh)" by (rule submitted_reach)
  from actor_bounded [OF this] show ?thesis by simp
qed

text \<open>C19 Telemetry follows a protocol: what a connection reports is nothing, or the connection of one worker followed by
  outcomes of that same worker's shares, with the disconnection of that worker last, once and exactly when the connection is
  closed.\<close>

theorem actor_telemetry_protocol:
  assumes "reach actor_start (actor_step h) w"
  shows "ac_telemetry (fst w) = [] \<or> (\<exists>worker outcomes. ac_telemetry (fst w) =
      WorkerConnected worker # map (ShareReported worker) outcomes @
      (if ac_closed (fst w) then [WorkerDisconnected worker] else []))"
proof -
  have ok: "telemetry_ok (fst w)" "phase_ok (fst w)"
    using reach_actor [OF assms] by (simp_all add: actor_ok_def actor_mid_def actor_base_def)
  have "\<not> ac_closed (fst w)" if "ac_telemetry_connected (fst w)" using ok(2) that by (auto simp: phase_ok_def cleared_def)
  with ok(1) show ?thesis by (auto simp: telemetry_ok_def split: if_splits)
qed

theorem actor_telemetry_protocol_witness:
  "\<exists>worker outcomes. ac_telemetry submitted_actor = WorkerConnected worker # map (ShareReported worker) outcomes"
proof -
  obtain sh where "reach actor_start (actor_step example_sha) (submitted_actor, sh)" by (rule submitted_reach)
  from actor_telemetry_protocol [OF this] show ?thesis by (auto simp: submitted_fields)
qed

text \<open>C18 Variable difficulty sees shares in the order of their admission, whatever the order of the backend's answers: the
  draining loop always returns; it removes exactly the completed shares up to the oldest outstanding one and feeds the
  samples that count to the controller, each once and in that order. It fails only with an error of the controller.\<close>

theorem drain_in_admission_order:
  assumes "distinct (ac_timing_order a)" "drain_completed_timing a = (x, b)"
  shows "case x of
      Ok _ \<Rightarrow> ac_timing_order b = dropWhile (result_known (ac_pending_shares a)) (ac_timing_order a) \<and>
        ac_pending_shares b = filter (\<lambda>(t, _). t \<notin> set (takeWhile (result_known (ac_pending_shares a)) (ac_timing_order a))) (ac_pending_shares a) \<and>
        ac_vardiff b = fold (observe_sample (ac_pending_shares a)) (takeWhile (result_known (ac_pending_shares a)) (ac_timing_order a)) (ac_vardiff a) \<and>
        ac_outbound b = ac_outbound a
    | Err e \<Rightarrow> \<exists>v. e = ActorVardiff v"
  using drain_order [OF assms] by (auto simp: Let_def dropWhile_eq_drop split: result.splits)

definition answered_actor :: connection_actor where
  "answered_actor = submitted_actor\<lparr>ac_timing_order := [2, 3],
     ac_pending_shares := [(3, submitted_share), (2, submitted_share\<lparr>ps_vardiff_sample := Some False, ps_response_id := None\<rparr>)]\<rparr>"

theorem drain_in_admission_order_witness:
  "\<exists>b. drain_completed_timing answered_actor = (Ok (), b) \<and> ac_timing_order b = [3] \<and> ac_pending_shares b = [(3, submitted_share)] \<and>
     ac_vardiff b = ac_vardiff submitted_actor"
proof -
  have "fst (drain_completed_timing answered_actor) = Ok ()"
    by (simp add: drain_completed_timing.simps answered_actor_def observe_completed_def submitted_share_def)
  then obtain b where b: "drain_completed_timing answered_actor = (Ok (), b)" by (cases "drain_completed_timing answered_actor") auto
  have "distinct (ac_timing_order answered_actor)" by (simp add: answered_actor_def)
  from drain_in_admission_order [OF this b] b show ?thesis
    by (simp add: answered_actor_def result_known_def submitted_share_def observe_sample_def)
qed

lemma pending_open: "actor_ok a \<Longrightarrow> map_of (ac_pending_shares a) t = Some p \<Longrightarrow> \<not> ac_closed a"
  by (auto simp: actor_ok_def actor_mid_def phase_ok_def cleared_def)

lemma finish_outbound:
  assumes "actor_mid a" "finish_timing a = (x, b)"
  shows "ac_outbound b = ac_outbound a" "x = Ok () \<or> (\<exists>v. x = Err (ActorVardiff v))"
proof -
  have core: "ac_outbound (snd (drain_completed_timing a)) = ac_outbound a" for a
  proof (induction a rule: drain_completed_timing.induct)
    case (1 a)
    then show ?case
      by (subst drain_completed_timing.simps) (auto split: list.splits option.splits prod.splits result.splits dest!: observe_core)
  qed
  have d: "distinct (ac_timing_order a)" using assms(1) by (auto simp: actor_mid_def timing_ok_def strict_sorted_iff)
  obtain y c where y: "drain_completed_timing a = (y, c)" by (rule prod.exhaust)
  show "ac_outbound b = ac_outbound a"
    using assms(2) core [of a] y by (auto simp: finish_timing_def split: if_splits result.splits)
  show "x = Ok () \<or> (\<exists>v. x = Err (ActorVardiff v))"
    using assms(2) drain_order [OF d y] y by (auto simp: finish_timing_def Let_def split: if_splits result.splits)
qed

text \<open>The one message a completed share is answered with.\<close>

fun completion_message :: "zip301_id \<Rightarrow> (share_router_error, share_commit) result \<Rightarrow> zip301_server_message" where
  "completion_message rid (Ok _) = BooleanMessage rid True"
| "completion_message rid (Err (Rejected code)) = message_for (MinerError_from_backend code) rid"
| "completion_message rid (Err SubmissionOverloaded) = message_for (MinerError MinerOther ''service busy'' False) rid"
| "completion_message rid (Err (ReplayRequiresProjection _)) =
     message_for (MinerError MinerOther ''share reconciliation pending'' False) rid"
| "completion_message rid (Err _) = message_for (MinerError MinerOther ''service unavailable'' True) rid"

lemma queue_cases:
  assumes "actor_base a"
  shows "queue m a = (if length (ac_outbound a) < ac_capacity a then (Ok (), a\<lparr>ac_outbound := ac_outbound a @ [m]\<rparr>)
     else (Err (OutboundQueueFull (ac_capacity a)), close_actor a))"
  using assms by (simp add: queue_def ensure_outbound_capacity_def Let_def actor_base_def)

lemma completion_response_cases:
  assumes "actor_base a"
  shows "\<exists>c \<in> {\<lambda>b. b, close_actor}. completion_response rid outcome a =
    (if length (ac_outbound a) < ac_capacity a then (Ok (), c (a\<lparr>ac_outbound := ac_outbound a @ [completion_message rid outcome]\<rparr>))
     else (Err (OutboundQueueFull (ac_capacity a)), close_actor a))"
proof (cases outcome)
  case (Err e)
  then show ?thesis using queue_cases [OF assms] by (cases e) (auto simp: queue_error_def)
next
  case (Ok v)
  then show ?thesis using queue_cases [OF assms] by auto
qed

text \<open>A share whose result is known, or that has left the connection, cannot be completed again.\<close>

definition settled :: "u64 \<Rightarrow> connection_actor \<Rightarrow> bool" where
  "settled t a \<longleftrightarrow> ac_closed a \<or> (case map_of (ac_pending_shares a) t of None \<Rightarrow> True | Some p \<Rightarrow> ps_vardiff_sample p \<noteq> None)"

lemma settled_refused:
  assumes "settled (st_ticket ticket) a"
  shows "\<exists>e b. complete_submission ticket outcome a = (Err e, b) \<and> ac_outbound b = ac_outbound a"
  using assms
  by (cases "map_of (ac_pending_shares a) (st_ticket ticket)")
    (auto simp: settled_def complete_submission_def require_open_def completion_matches_def)

lemma map_of_filter_keys: "map_of (filter (\<lambda>(k, _). P k) xs) k = (if P k then map_of xs k else None)"
  by (induction xs) auto

lemma drained_settled:
  assumes "distinct (ac_timing_order a)" "settled t a" "finish_timing a = (x, b)"
  shows "settled t b"
proof -
  obtain y c where y: "drain_completed_timing a = (y, c)" by (rule prod.exhaust)
  have "settled t c" if "y = Ok u" for u
    using drain_order [OF assms(1) y] that assms(2)
    by (auto simp: settled_def Let_def map_of_filter_keys split: option.splits)
  then show ?thesis using assms(2,3) y by (auto simp: finish_timing_def settled_def split: if_splits result.splits)
qed

lemma complete_submission_unfold:
  assumes "actor_ok a" "map_of (ac_pending_shares a) (st_ticket ticket) = Some p" "st_session_id ticket = ms_id (ac_session a)"
    and "completion_matches (Some p) outcome"
  obtains index rid b where "ps_response_id p = Some index" "ac_response_ids a ! index = Some rid" "actor_mid b"
    "settled (st_ticket ticket) b" "ac_outbound b = ac_outbound a" "ac_config b = ac_config a"
    "complete_submission ticket outcome a = chain (completion_response rid outcome b) (\<lambda>_ a. finish_timing a)"
proof -
  let ?t = "st_ticket ticket"
  define sample where "sample \<longleftrightarrow> (case outcome of Ok verified \<Rightarrow> counts_toward_vardiff (cm_replayed verified) | Err _ \<Rightarrow> False) \<and>
    \<not> ps_winner_recovery p"
  have mid: "actor_mid a" and open_a: "\<not> ac_closed a" and "ps_vardiff_sample p = None"
    using assms pending_open by (auto simp: actor_ok_def completion_matches_def)
  from completed_slot [OF mid assms(2) this(3), of sample] obtain index rid b where i: "ps_response_id p = Some index"
    "ac_response_ids a ! index = Some rid" "take_response_id index (completed ?t p sample a) = (Ok rid, b)" "actor_mid b"
    "b = (completed ?t p sample a)\<lparr>ac_response_ids := (ac_response_ids a)[index := None]\<rparr>" by metis
  define c where "c = (case completion_outcome outcome of None \<Rightarrow> b | Some reported \<Rightarrow> record_share_outcome reported b)"
  have "ac_pending_shares c = ac_pending_shares b" "ac_closed c = ac_closed b" "ac_outbound c = ac_outbound b" "ac_config c = ac_config b"
    by (simp_all add: c_def record_share_outcome_def split: option.splits)
  then have "settled ?t c" "ac_outbound c = ac_outbound a" "ac_config c = ac_config a"
    by (simp_all add: i(5) completed_def settled_def AList.update_conv')
  moreover have "actor_mid c" using i(4) by (simp add: c_def record_ok split: option.splits)
  moreover have "complete_submission ticket outcome a = chain (completion_response rid outcome c) (\<lambda>_ a. finish_timing a)"
    using assms open_a i(1,3) by (simp add: complete_submission_def require_open_def completed_def Let_def sample_def c_def)
  ultimately show ?thesis using that i(1,2) by blast
qed

text \<open>What a submitted request leaves behind when it asks for a submission.\<close>

lemma store_response_Ok:
  "store_response_id rid a = (Ok n, b) \<Longrightarrow>
     \<exists>ids. b = a\<lparr>ac_response_ids := ids\<rparr> \<and> n < length ids \<and> ids ! n = Some rid"
  by (auto simp: store_response_id_def Let_def nth_append split: if_splits)

lemma track_submission_Ok:
  assumes "track_submission sha256 rid i ctx now a = (Ok (Some action), b)"
  obtains ticket p n where "action = SubmitAction ticket ctx" "map_of (ac_pending_shares b) (st_ticket ticket) = Some p"
    "st_session_id ticket = ms_id (ac_session b)" "ps_response_id p = Some n" "ac_response_ids b ! n = Some rid"
    "ps_vardiff_sample p = None" "ac_outbound b = ac_outbound a" "ac_config b = ac_config a"
    "ps_expected_job_id p = JobId_to_protocol (GenerationAdmission_job_id (sc_admission ctx))"
    "ps_expected_share_id p = canonical_share_id sha256 (ps_expected_job_id p) (sc_time ctx) (sc_nonce ctx) (sc_solution ctx)"
    "canonical_attribution_id sha256 (sc_identity ctx) (sc_target_le ctx) = Ok (ps_expected_attribution_id p)"
proof -
  obtain x c where st: "store_response_id rid a = (x, c)" by (rule prod.exhaust)
  with assms obtain n where "x = Ok n" by (cases x) (auto simp: track_submission_def Let_def split: option.splits result.splits if_splits)
  with st obtain ids where ids: "c = a\<lparr>ac_response_ids := ids\<rparr>" "n < length ids" "ids ! n = Some rid"
    by (auto dest: store_response_Ok)
  obtain y d where al: "allocate_ticket c = (y, d)" by (rule prod.exhaust)
  with assms st \<open>x = Ok n\<close> obtain t where "y = Ok t"
    by (cases y) (auto simp: track_submission_def Let_def split: option.splits result.splits if_splits)
  with allocate_cases [OF al] obtain nt where d: "d = c\<lparr>ac_next_ticket := nt\<rparr>" by auto
  from assms st \<open>x = Ok n\<close> al \<open>y = Ok t\<close> d ids(1,3) show ?thesis
    by (auto simp: track_submission_def Let_def update_conv' split: option.splits result.splits if_splits intro: that)
qed

lemma submission_tracked:
  assumes "handle_request sha256 (Submit rid worker job time nonce_2 solution) now w = (Ok (Some (SubmitAction ticket ctx)), b, sh)"
  obtains p n where "map_of (ac_pending_shares b) (st_ticket ticket) = Some p"
    "st_session_id ticket = ms_id (ac_session b)" "ps_response_id p = Some n" "ac_response_ids b ! n = Some rid"
    "ps_vardiff_sample p = None" "ac_outbound b = ac_outbound (fst w)" "ac_config b = ac_config (fst w)"
    "ps_expected_job_id p = JobId_to_protocol (GenerationAdmission_job_id (sc_admission ctx))"
    "ps_expected_share_id p = canonical_share_id sha256 (ps_expected_job_id p) (sc_time ctx) (sc_nonce ctx) (sc_solution ctx)"
    "canonical_attribution_id sha256 (sc_identity ctx) (sc_target_le ctx) = Ok (ps_expected_attribution_id p)"
proof -
  have keeps: "fst (snd (with_router call v)) = fst v" for call :: "instant \<Rightarrow> job_router \<Rightarrow> (job_router_error, submission_context) result \<times> job_router" and v
    by (auto simp: with_router_def Let_def split: prod.splits)
  have refused: "chain (y, v) (\<lambda>_ w. (Ok None, w)) \<noteq> (Ok (Some action), v')" for y :: "(connection_actor_error, unit) result" and v v' :: world and action :: connection_action
    by (cases y) auto
  obtain l where b: "begin_submission sha256 rid worker job time nonce_2 solution now ((fst w)\<lparr>ac_rate_limiter := l\<rparr>, snd w) =
      (Ok (Some (SubmitAction ticket ctx)), b, sh)"
    using assms refused
    by (cases "admit (ac_rate_limiter (fst w)) now"; cases "fst (admit (ac_rate_limiter (fst w)) now)"; cases "ac_closed (fst w)")
      (auto simp: handle_request_def require_open_def Let_def on_actor_def split: prod.splits)
  let ?a = "(fst w)\<lparr>ac_rate_limiter := l\<rparr>"
  obtain i where i: "JobId_new job = Ok i" "\<not> ac_capacity ?a \<le> length (ac_pending_shares ?a)"
    using b refused
    by (cases "JobId_new job"; cases "ac_capacity ?a \<le> length (ac_pending_shares ?a)") (auto simp: begin_submission_def on_actor_def split: prod.splits)
  obtain y a sh' where r: "with_router (\<lambda>now jr. JobRouter_prepare_submission sha256 now jr (ac_session ?a) worker i time nonce_2 solution) (?a, snd w) =
      (y, a, sh')" by (rule prod_cases3)
  then have a: "a = ?a" using keeps [of _ "(?a, snd w)"] by (metis fst_conv snd_conv)
  obtain ctx' where y: "y = Ok ctx'"
    using b i r refused
    by (cases y; cases "\<exists>e. y = Err (RouterSession e)") (auto simp: begin_submission_def on_actor_def split: prod.splits job_router_error.splits)
  have t: "track_submission sha256 rid i ctx' now ?a = (Ok (Some (SubmitAction ticket ctx)), b)"
    using b i r y a by (auto simp: begin_submission_def split: prod.splits result.splits)
  show ?thesis by (rule track_submission_Ok [OF t]) (auto intro: that)
qed

lemma completed_share_answer:
  assumes "reach actor_start (actor_step h) (a, s)" "map_of (ac_pending_shares a) (st_ticket ticket) = Some p"
    and "st_session_id ticket = ms_id (ac_session a)" "completion_matches (Some p) outcome"
    and "complete_submission ticket outcome a = (x, b)"
  shows "\<exists>index rid. ps_response_id p = Some index \<and> ac_response_ids a ! index = Some rid \<and>
      (if length (ac_outbound a) < ac_capacity a
       then ac_outbound b = ac_outbound a @ [completion_message rid outcome] \<and> (x = Ok () \<or> (\<exists>v. x = Err (ActorVardiff v)))
       else ac_outbound b = ac_outbound a \<and> ac_closed b \<and> x = Err (OutboundQueueFull (ac_capacity a)))" (is ?answer)
    and "settled (st_ticket ticket) b"
proof -
  have "actor_ok a" using reach_actor [OF assms(1)] by simp
  from complete_submission_unfold [OF this assms(2-4)] obtain index rid c where c: "ps_response_id p = Some index"
    "ac_response_ids a ! index = Some rid" "actor_mid c" "settled (st_ticket ticket) c" "ac_outbound c = ac_outbound a"
    "ac_config c = ac_config a" "(x, b) = chain (completion_response rid outcome c) (\<lambda>_ a. finish_timing a)"
    unfolding assms(5) by metis
  then have base: "actor_base c" by (simp add: actor_mid_def)
  obtain d y where d: "completion_response rid outcome c = (y, d)" by (rule prod.exhaust)
  have "sound actor_mid (y, d)" using mid.completion_response_sound [OF c(3)] d by metis
  then have mid_d: "actor_mid d" if "y = Ok u" for u using that by simp
  from completion_response_cases [OF base, of rid outcome] d c(4,5,6) have d': "settled (st_ticket ticket) d"
    "if length (ac_outbound a) < ac_capacity a then y = Ok () \<and> ac_outbound d = ac_outbound a @ [completion_message rid outcome]
     else y = Err (OutboundQueueFull (ac_capacity a)) \<and> d = close_actor c"
    by (auto simp: settled_def split: if_splits)
  have "settled (st_ticket ticket) b \<and> ?answer"
  proof (cases "length (ac_outbound a) < ac_capacity a")
    case False
    with c d d' show ?thesis by (auto simp: settled_def)
  next
    case True
    then have f: "finish_timing d = (x, b)" "actor_mid d" using c(7) d d'(2) mid_d by simp_all
    then have "settled (st_ticket ticket) b"
      using drained_settled [OF _ d'(1) f(1)] by (simp add: actor_mid_def timing_ok_def strict_sorted_iff)
    with finish_outbound [OF f(2,1)] True d'(2) c(1,2) show ?thesis by auto
  qed
  then show ?answer "settled (st_ticket ticket) b" by blast+
qed

text \<open>C8 Every share is answered exactly once: in a reachable state the backend's answer for a pending share finds the
  identifier of the request that submitted it and queues the one message for that answer under that identifier, unless the
  outbound queue is full, which closes the connection. A second answer for the same share is refused and sends nothing.\<close>

theorem share_answered_once:
  assumes "reach actor_start (actor_step h) (a, s)" "map_of (ac_pending_shares a) (st_ticket ticket) = Some p"
    and "st_session_id ticket = ms_id (ac_session a)" "completion_matches (Some p) outcome"
    and "complete_submission ticket outcome a = (x, b)"
  shows "\<exists>index rid. ps_response_id p = Some index \<and> ac_response_ids a ! index = Some rid \<and>
      (if length (ac_outbound a) < ac_capacity a
       then ac_outbound b = ac_outbound a @ [completion_message rid outcome] \<and> (x = Ok () \<or> (\<exists>v. x = Err (ActorVardiff v)))
       else ac_outbound b = ac_outbound a \<and> ac_closed b \<and> x = Err (OutboundQueueFull (ac_capacity a))) \<and>
      (\<exists>e c. complete_submission ticket outcome' b = (Err e, c) \<and> ac_outbound c = ac_outbound b)"
  using completed_share_answer [OF assms] settled_refused by metis

theorem share_answered_once_witness:
  "\<exists>x b. complete_submission \<lparr>st_session_id = 5, st_ticket = 2\<rparr> (Err SubmissionOverloaded) submitted_actor = (x, b) \<and>
     ac_outbound b = ac_outbound submitted_actor @ [completion_message (IdNumber 3) (Err SubmissionOverloaded)] \<and>
     (\<exists>e c. complete_submission \<lparr>st_session_id = 5, st_ticket = 2\<rparr> (Err TaskFailed) b = (Err e, c) \<and> ac_outbound c = ac_outbound b)"
proof -
  let ?t = "\<lparr>st_session_id = 5, st_ticket = 2\<rparr> :: share_ticket"
  obtain sh where r: "reach actor_start (actor_step example_sha) (submitted_actor, sh)" by (rule submitted_reach)
  obtain x b where c: "complete_submission ?t (Err SubmissionOverloaded) submitted_actor = (x, b)" by (rule prod.exhaust)
  have "map_of (ac_pending_shares submitted_actor) (st_ticket ?t) = Some submitted_share" "completion_matches (Some submitted_share) (Err SubmissionOverloaded)"
    by (simp_all add: submitted_actor_def submitted_share_def completion_matches_def)
  from share_answered_once [OF r this(1) _ this(2) c, of "Err TaskFailed"] c show ?thesis
    by (auto simp: submitted_fields) (auto simp: submitted_actor_def submitted_share_def)
qed

end
