(* ===== verification/Spec2Isabelle.thy ===== *)
theory Spec2Isabelle
  imports Vardiff Pplns Rate_Limit Frame_Properties Zip301_Properties Router_Properties Actor_Properties
begin

text \<open>
  A verification development of the w-cash merged-mining pool (Rust, \<open>src/crates\<close>).

  \<^bold>\<open>The program.\<close> Miners connect to the edge (\<open>wcash-pool-edge\<close>) and speak ZIP-301. Each connection is an actor with a
  session, a nonce prefix and a variable-difficulty controller (\<open>wcash-pool-core\<close>). All connections share one job
  router, which owns the registry of block-template generations and follows the journal of the trusted backend through
  one client connection (\<open>wcash-pool-backend-client\<close>). A submitted share is admitted under a guard that pins its
  generation, sent to the backend, and answered when the backend's receipt has been verified. Committed shares are paid
  by PPLNS (\<open>wcash-pool-store/src/accounting.rs\<close>). The wire formats are in \<open>wcash-pool-protocol\<close>.

  \<^bold>\<open>Conventions.\<close> \<open>u8\<close> to \<open>u128\<close> are words and keep their wrap-around and checked operations; \<open>usize\<close> is \<open>nat\<close>;
  bytes are byte lists; \<open>Vec\<close> and \<open>VecDeque\<close> are lists; hash maps are association lists, and where the iteration order
  of one can be observed it is a parameter (\<open>hash\<close>). \<open>Result\<close> is the type \<open>result\<close> with \<open>Ok\<close> and \<open>Err\<close>; \<open>?\<close> is
  \<open>and_then\<close>, \<open>try_all\<close> or, with a state, \<open>chain\<close>. A method with \<open>&mut self\<close> returns its result and the new state, also
  on an error. A mutex is one step per critical section and poisoning is a flag. \<open>Arc\<close> counters are addresses into a
  list. A machine is an \<open>inductive\<close> step relation over the operations; \<open>reach\<close> is reachability.

  \<^bold>\<open>Theories.\<close>

  \<^item> \<open>Pool_Prelude\<close>: results, checked arithmetic, bytes, and the locales of the library: \<open>invariant_system\<close> (an invariant
    holds in every reachable state), \<open>monotone_system\<close> (moreover every run moves along an order) and \<open>simulation\<close> (a
    machine implements a more abstract one).
  \<^item> \<open>Fixed_Hex\<close>, \<open>Json_Value\<close>, \<open>Backend_Types\<close>, \<open>Backend_Messages\<close>: errors, hexadecimal values, jobs, receipts, events,
    requests and messages with all validators (\<open>fixed_hex.rs\<close>, \<open>backend.rs\<close>).
  \<^item> \<open>Stream_Decoder\<close> (the contract \<open>frame_decoder\<close> of an incremental decoder and the receive loop of \<open>stream.rs\<close>),
    \<open>Frame_Codec\<close> and \<open>Frame_Properties\<close> (length framing of \<open>backend.rs\<close>), \<open>Zip301\<close> and \<open>Zip301_Properties\<close> (\<open>zip301.rs\<close>):
    both codecs satisfy the contract, so what is received depends on the bytes only and not on how reads cut them.
  \<^item> \<open>Nonce_Profile\<close>, \<open>Nonce_Allocator\<close> (\<open>nonce.rs\<close>): prefixes are never issued twice, across namespaces and restarts.
  \<^item> \<open>Share_Target\<close>, \<open>Target_Arith\<close>, \<open>Vardiff\<close> (\<open>target.rs\<close>, \<open>vardiff.rs\<close>): the limb arithmetic is exact, retargeting is
    bounded, and no target ever excludes a network winner.
  \<^item> \<open>Generation_Registry\<close> (\<open>jobs.rs\<close>) with \<open>Registry_Invariants\<close>, \<open>Registry_Snapshot\<close>, \<open>Registry_Admission\<close>,
    \<open>Registry_Machine\<close> and \<open>Registry_Properties\<close>: roles, deadlines, guards and recovery of generations.
  \<^item> \<open>Mining_Session\<close> and \<open>Session_Properties\<close> (\<open>session.rs\<close>): phases of a session and prepared submissions.
  \<^item> \<open>Pplns\<close> (\<open>accounting.rs\<close>) and \<open>Rate_Limit\<close> (\<open>rate_limit.rs\<close>).
  \<^item> \<open>Client_Config\<close>, \<open>Backend_Client\<close>, \<open>Client_Operations\<close> (\<open>unix.rs\<close>) with \<open>Client_Invariants\<close>, \<open>Client_Machine\<close> and
    \<open>Client_Properties\<close>: the client connection, whose events arrive exactly once and whose commits carry proof.
  \<^item> \<open>Job_Router\<close> and \<open>Router_Properties\<close> (\<open>router.rs\<close>): the router is a machine over its critical sections that
    simulates the registry machine; what it broadcasts, and when it admits nothing.
  \<^item> \<open>Edge_Config\<close> (\<open>config.rs\<close>, \<open>error.rs\<close>, \<open>telemetry.rs\<close>), \<open>Connection_Actor\<close> (\<open>connection.rs\<close>),
    \<open>Actor_Invariants\<close> and \<open>Actor_Properties\<close>: the actor under every order of calls its driver can make, with the
    router and the nonce allocator changed arbitrarily between its calls by the other connections (\<open>sh_others\<close>);
    bounded state, one answer per share, telemetry, and shares timed in the order of their admission.
  \<^item> This theory: a share from the miner's request through the backend's verified commit to the miner's answer.

  \<^bold>\<open>Parameters and hypotheses.\<close> SHA-256 (\<open>sha256\<close>, no property but being a function; statements about identifiers say
  "equal or a collision"), \<open>serde_json\<close> (its values in \<open>Json_Value\<close>; the round trip of requests assumes that it reads
  back what it wrote, \<open>json_contract\<close>), the \<open>hex\<close> crate, memory reservation of the frame codec, the Unix socket (a
  script of outcomes of writes and reads), the clock (an argument of each call), the broadcast channel's receiver, and
  the answers of the authentication provider. Witnesses instantiate them by concrete functions.

  \<^bold>\<open>Bounds and fuel.\<close> No definition uses fuel. Loops that consume input, queues or limbs are structural or have a
  termination proof: the receive loop consumes a byte per round, \<open>drain_completed_timing\<close> removes the front of its
  queue, the exchange loop of the client consumes its script. Sizes are the code's: frames, buffers, queues and job
  lists carry the constants of the sources, and the properties prove that they are respected.

  \<^bold>\<open>Not modelled.\<close> The task of \<open>submission.rs\<close> and the select loop of \<open>stream.rs\<close> (channels, timers, sockets; only the
  framing loop, the closing of the actor after an error and the error type are modelled); the PostgreSQL store,
  authentication and portal queries (SQL run by a server); the daemon's wiring, settlement, wallets, payout signers and
  address decoding (I/O and libraries outside the repository); the portal's HTTP handlers; \<open>Debug\<close> output, plain
  getters and test-only code. Memory exhaustion and panics of the allocator are outside the model.
\<close>

section \<open>A share from request to answer\<close>

text \<open>C7 A share that the backend commits is answered \<open>true\<close> to the request that submitted it: if a connection in a reachable
  state asks for a submission on behalf of a request, and the client returns a verified commit for that submission, then
  the connection recognises the receipt and queues the answer under the identifier of that very request.
  Only a full outbound queue prevents the answer, and then the connection is closed.\<close>

theorem committed_share_answered:
  assumes "reach actor_start (actor_step h) w"
    and "handle_request h (Submit rid worker job time nonce_2 solution :: unit zip301_request) now w =
      (Ok (Some (SubmitAction ticket ctx)), b, sh)"
    and "submit_prepared_share_borrowed h api t c ctx = (Ok commit, d)"
    and "complete_submission ticket (Ok commit) b = (x, e)"
  shows "if length (ac_outbound (fst w)) < ac_capacity (fst w)
    then ac_outbound e = ac_outbound (fst w) @ [BooleanMessage rid True] \<and> (x = Ok () \<or> (\<exists>v. x = Err (ActorVardiff v)))
    else ac_outbound e = ac_outbound (fst w) \<and> ac_closed e \<and> x = Err (OutboundQueueFull (ac_capacity (fst w)))"
proof -
  obtain p n where p: "map_of (ac_pending_shares b) (st_ticket ticket) = Some p" "st_session_id ticket = ms_id (ac_session b)"
    "ps_response_id p = Some n" "ac_response_ids b ! n = Some rid" "ps_vardiff_sample p = None"
    "ac_outbound b = ac_outbound (fst w)" "ac_config b = ac_config (fst w)"
    "ps_expected_job_id p = JobId_to_protocol (GenerationAdmission_job_id (sc_admission ctx))"
    "ps_expected_share_id p = canonical_share_id h (ps_expected_job_id p) (sc_time ctx) (sc_nonce ctx) (sc_solution ctx)"
    "canonical_attribution_id h (sc_identity ctx) (sc_target_le ctx) = Ok (ps_expected_attribution_id p)"
    by (rule submission_tracked [OF assms(2)])
  obtain c' where "client_submit_share h api t c (context_submission ctx) = (Ok commit, c')"
    using assms(3) by (rule submit_prepared_cases) auto
  from commit_receipt [OF this] have "matches_receipt p (cm_receipt commit)"
    using p(8-10) by (auto simp: receipt_verified_def context_submission_def matches_receipt_def)
  then have m: "completion_matches (Some p) (Ok commit)" using p(5) by (simp add: completion_matches_def)
  have "reach actor_start (actor_step h) (b, sh)" by (rule run_steps(1) [OF assms(1,2)])
  from completed_share_answer [OF this p(1,2) m assms(4)] p(3,4,6,7) show ?thesis by simp
qed

theorem committed_share_answered_witness:
  "\<exists>x e. complete_submission \<lparr>st_session_id = 5, st_ticket = 2\<rparr> (Ok \<lparr>cm_receipt = example_receipt, cm_replayed = False\<rparr>) submitted_actor = (x, e) \<and>
     ac_outbound e = ac_outbound authorized_actor @ [BooleanMessage (IdNumber 3) True]"
proof -
  obtain w sh where w: "reach actor_start (actor_step example_sha) w" "handle_request example_sha submit_example 3 w =
      (Ok (Some (SubmitAction \<lparr>st_session_id = 5, st_ticket = 2\<rparr> example_context)), submitted_actor, sh)" "fst w = authorized_actor"
    by (rule submitted_reach)
  obtain x e where x: "complete_submission \<lparr>st_session_id = 5, st_ticket = 2\<rparr> (Ok \<lparr>cm_receipt = example_receipt, cm_replayed = False\<rparr>)
      submitted_actor = (x, e)" by (rule prod.exhaust)
  have "length (ac_outbound authorized_actor) < ac_capacity authorized_actor"
    by (simp add: authorized_fields example_edge_def) (simp add: authorized_actor_def)
  with committed_share_answered [OF w(1,2) example_prepared_submit x] w(3) x show ?thesis by auto
qed

end
